(* ===== verification/Prelude.thy ===== *)
theory Prelude
  imports Complex_Main "HOL-Library.Word" "HOL-Library.Sublist"
begin

text \<open>
  Prelude: the machine types of the program (u8, u32, u64, usize, U256, H256, Address, Vec<u8>),
  the big-endian byte codec behind H256/U256/Address slices, the standard-library operations on
  slices and strings the sources use, and the generic lemmas shared by the components.
\<close>

named_theorems codec_simps \<open>lengths and round trips of byte encodings\<close>
named_theorems poll_simps \<open>evaluation of polls: replies, macros, loop bodies\<close>

type_synonym u8 = "8 word"
type_synonym u16 = "16 word"
type_synonym u32 = "32 word"
type_synonym u64 = "64 word"
type_synonym usize = "64 word"
type_synonym u256 = "256 word"
type_synonym h256 = "256 word"
type_synonym address = "160 word"
type_synonym bytes = "u8 list"

section \<open>Big-endian bytes\<close>

text \<open>
  An \<open>n\<close>-byte big-endian encoding of a natural number and its inverse. The fixed-size hash types
  (\<open>H160([u8; 20])\<close>, \<open>H256([u8; 32])\<close>) and \<open>U256\<close> are words; reading the inner array of a hash, or
  converting a \<open>U256\<close> into an \<open>H256\<close>, is the big-endian encoding of that word.
\<close>

fun to_be :: "nat \<Rightarrow> nat \<Rightarrow> bytes" where
  "to_be 0 x = []"
| "to_be (Suc n) x = to_be n (x div 256) @ [word_of_nat x]"

definition of_be :: "bytes \<Rightarrow> nat" where
  "of_be bs = foldl (\<lambda>a b. a * 256 + unat b) 0 bs"

definition be_bytes :: "nat \<Rightarrow> 'a::len word \<Rightarrow> bytes" where
  "be_bytes n w = to_be n (unat w)"

definition be_word :: "bytes \<Rightarrow> 'a::len word" where
  "be_word bs = word_of_nat (of_be bs)"

lemma length_to_be [simp, codec_simps]: "length (to_be n x) = n"
  by (induction n arbitrary: x) auto

lemma length_be_bytes [simp, codec_simps]: "length (be_bytes n w) = n"
  by (simp add: be_bytes_def)

lemma of_be_Nil [simp]: "of_be [] = 0"
  by (simp add: of_be_def)

lemma of_be_snoc [simp]: "of_be (bs @ [b]) = of_be bs * 256 + unat b"
  by (simp add: of_be_def)

lemma unat_less: "unat (w :: 'a::len word) < 2 ^ LENGTH('a)"
  by (rule unsigned_less)

lemma of_be_bound: "of_be bs < 256 ^ length bs"
proof (induction bs rule: rev_induct)
  case Nil
  then show ?case by simp
next
  case (snoc b bs)
  have "unat b < 256"
    using unat_less [of b] by simp
  with snoc show ?case by simp
qed

lemma of_be_to_be: "x < 256 ^ n \<Longrightarrow> of_be (to_be n x) = x"
proof (induction n arbitrary: x)
  case 0
  then show ?case by simp
next
  case (Suc n)
  have "x div 256 < 256 ^ n"
    using Suc.prems by (simp add: less_mult_imp_div_less mult.commute)
  then have "of_be (to_be n (x div 256)) = x div 256"
    by (rule Suc.IH)
  moreover have "unat (word_of_nat x :: u8) = x mod 256"
    by (simp add: unat_of_nat)
  ultimately show ?case by simp
qed

lemma to_be_of_be: "length bs = n \<Longrightarrow> to_be n (of_be bs) = bs"
proof (induction bs arbitrary: n rule: rev_induct)
  case Nil
  then show ?case by simp
next
  case (snoc b bs)
  have b: "unat b < 256"
    using unat_less [of b] by simp
  have "(of_be bs * 256 + unat b) div 256 = of_be bs"
    using b by simp
  moreover have "(word_of_nat (of_be bs * 256 + unat b) :: u8) = b"
    using b by (simp add: word_unat_eq_iff unat_of_nat del: of_nat_add of_nat_mult)
  ultimately show ?case
    using snoc by (auto simp del: of_nat_add of_nat_mult)
qed

lemma be_word_be_bytes [codec_simps]:
  "LENGTH('a::len) \<le> 8 * n \<Longrightarrow> be_word (be_bytes n (w :: 'a word)) = w"
proof -
  assume "LENGTH('a) \<le> 8 * n"
  then have "(2::nat) ^ LENGTH('a) \<le> 2 ^ (8 * n)"
    by (simp add: power_increasing)
  also have "(2::nat) ^ (8 * n) = 256 ^ n"
    by (simp add: power_mult)
  finally have "unat w < 256 ^ n"
    using unat_less [of w] by linarith
  then show ?thesis
    by (simp add: be_word_def be_bytes_def of_be_to_be)
qed

lemma be_bytes_be_word [codec_simps]:
  assumes "length bs = n" and "8 * n \<le> LENGTH('a::len)"
  shows "be_bytes n (be_word bs :: 'a word) = bs"
proof -
  have "of_be bs < 256 ^ n"
    using of_be_bound [of bs] assms(1) by simp
  also have "(256::nat) ^ n = 2 ^ (8 * n)"
    by (simp add: power_mult)
  also have "(2::nat) ^ (8 * n) \<le> 2 ^ LENGTH('a)"
    using assms(2) by (simp add: power_increasing)
  finally have "of_be bs < 2 ^ LENGTH('a)" .
  then have "unat (word_of_nat (of_be bs) :: 'a word) = of_be bs"
    by (simp add: unat_of_nat)
  then show ?thesis
    using assms(1) by (simp add: be_bytes_def be_word_def to_be_of_be)
qed

section \<open>Slices, vectors and strings of the standard library\<close>

text \<open>\<open>&v[a..b]\<close>, used only where \<open>a \<le> b \<le> v.len()\<close> is known.\<close>

definition subslice :: "nat \<Rightarrow> nat \<Rightarrow> 'a list \<Rightarrow> 'a list" where
  "subslice a b xs = take (b - a) (drop a xs)"

text \<open>\<open>v[a..a + src.len()].copy_from_slice(src)\<close>.\<close>

definition copy_at :: "nat \<Rightarrow> 'a list \<Rightarrow> 'a list \<Rightarrow> 'a list" where
  "copy_at a src xs = take a xs @ src @ drop (a + length src) xs"

lemma length_subslice [simp, codec_simps]: "a \<le> b \<Longrightarrow> b \<le> length xs \<Longrightarrow> length (subslice a b xs) = b - a"
  by (simp add: subslice_def)

lemma length_copy_at [simp, codec_simps]:
  "a + length src \<le> length xs \<Longrightarrow> length (copy_at a src xs) = length xs"
  by (simp add: copy_at_def)

lemma subslice_append:
  "a \<le> b \<Longrightarrow> b \<le> c \<Longrightarrow> subslice a b xs @ subslice b c xs = subslice a c xs"
proof -
  assume "a \<le> b" and "b \<le> c"
  then have "c - a = (b - a) + (c - b)" and "drop b xs = drop (b - a) (drop a xs)"
    by simp_all
  then show ?thesis
    by (simp only: subslice_def take_add)
qed

lemma subslice_all: "subslice 0 (length xs) xs = xs"
  by (simp add: subslice_def)

definition starts_with :: "string \<Rightarrow> string \<Rightarrow> bool" where
  "starts_with s p \<longleftrightarrow> take (length p) s = p"

definition ends_with :: "string \<Rightarrow> string \<Rightarrow> bool" where
  "ends_with s p \<longleftrightarrow> length p \<le> length s \<and> drop (length s - length p) s = p"

lemma starts_with_prefix: "starts_with s p \<longleftrightarrow> prefix p s"
  unfolding starts_with_def by (metis append_eq_conv_conj append_take_drop_id prefix_def)

lemma ends_with_suffix: "ends_with s p \<longleftrightarrow> suffix p s"
proof
  assume "ends_with s p"
  then show "suffix p s"
    unfolding ends_with_def by (metis suffix_drop)
next
  assume "suffix p s"
  then show "ends_with s p"
    by (auto simp: ends_with_def suffix_def)
qed

lemma starts_with_trans: "starts_with s q \<Longrightarrow> prefix p q \<Longrightarrow> starts_with s p"
  by (auto simp: starts_with_prefix intro: prefix_order.trans)

text \<open>The bytes of an ASCII string, and the decimal form of a number (\<open>format!("{}", n)\<close>).\<close>

definition ascii :: "string \<Rightarrow> bytes" where
  "ascii s = map of_char s"

fun decimal :: "nat \<Rightarrow> string" where
  "decimal n = (if n < 10 then [char_of (48 + n)] else decimal (n div 10) @ [char_of (48 + n mod 10)])"

declare decimal.simps [simp del]

lemma length_ascii [simp]: "length (ascii s) = length s"
  by (simp add: ascii_def)

lemma length_decimal_mono: "m \<le> n \<Longrightarrow> length (decimal m) \<le> length (decimal n)"
proof (induction n arbitrary: m rule: decimal.induct)
  case (1 n)
  show ?case
  proof (cases "n < 10")
    case True
    with "1.prems" show ?thesis
      by (simp add: decimal.simps [of m] decimal.simps [of n])
  next
    case False
    show ?thesis
    proof (cases "m < 10")
      case True
      then show ?thesis
        by (simp add: decimal.simps [of m] decimal.simps [of n])
    next
      case m: False
      have "m div 10 \<le> n div 10"
        using "1.prems" by (rule div_le_mono)
      then have "length (decimal (m div 10)) \<le> length (decimal (n div 10))"
        by (rule "1.IH" [OF False])
      then show ?thesis
        using False m by (simp add: decimal.simps [of m] decimal.simps [of n])
    qed
  qed
qed

section \<open>Unsigned arithmetic\<close>

definition saturating_sub :: "'a::len word \<Rightarrow> 'a word \<Rightarrow> 'a word" where
  "saturating_sub a b = (if b \<le> a then a - b else 0)"

lemma unat_saturating_sub [simp]: "unat (saturating_sub a b) = unat a - unat b"
  by (auto simp: saturating_sub_def unat_sub word_le_nat_alt)

lemma unat_Suc_no_wrap: "a < (b :: 'a::len word) \<Longrightarrow> unat (a + 1) = Suc (unat a)"
proof -
  assume "a < b"
  then have "unat a + 1 < 2 ^ LENGTH('a)"
    using unat_less [of b] unfolding word_less_nat_alt by linarith
  then show ?thesis
    by (simp add: unat_word_ariths)
qed

text \<open>The number of binary digits of a number.\<close>

fun bitlen :: "nat \<Rightarrow> nat" where
  "bitlen n = (if n = 0 then 0 else Suc (bitlen (n div 2)))"

declare bitlen.simps [simp del]

lemma bitlen_one [simp]: "bitlen (Suc 0) = 1"
  by (simp add: bitlen.simps [of "Suc 0"] bitlen.simps [of 0])

lemma bitlen_bounds: "0 < n \<Longrightarrow> 2 ^ (bitlen n - 1) \<le> n \<and> n < 2 ^ bitlen n \<and> 0 < bitlen n"
proof (induction n rule: bitlen.induct)
  case (1 n)
  show ?case
  proof (cases "n = 1")
    case True
    then show ?thesis by simp
  next
    case False
    then have h: "0 < n div 2" using 1 by simp
    have IH: "2 ^ (bitlen (n div 2) - 1) \<le> n div 2" "n div 2 < 2 ^ bitlen (n div 2)" "0 < bitlen (n div 2)"
      using "1.IH" h "1.prems" by auto
    have b: "bitlen n = Suc (bitlen (n div 2))"
      using "1.prems" by (simp add: bitlen.simps [of n])
    have "(2::nat) ^ bitlen (n div 2) = 2 * 2 ^ (bitlen (n div 2) - 1)"
      using IH(3) by (metis Suc_diff_1 power_Suc)
    then have "2 ^ (bitlen n - 1) = (2::nat) * 2 ^ (bitlen (n div 2) - 1)"
      and "2 ^ bitlen n = (2::nat) * 2 ^ bitlen (n div 2)"
      using b by simp_all
    moreover have "2 * (n div 2) \<le> n" and "n \<le> 2 * (n div 2) + 1"
      by linarith+
    ultimately show ?thesis
      using IH b by linarith
  qed
qed

text \<open>Widening and narrowing: \<open>U256::from(u64)\<close>, \<open>low_u64\<close>, \<open>low_u32\<close>.\<close>

definition low_u64 :: "u256 \<Rightarrow> u64" where
  "low_u64 x = ucast x"

definition low_u32 :: "u256 \<Rightarrow> u32" where
  "low_u32 x = ucast x"

lemma unat_low_u64: "unat (low_u64 x) = unat x mod 2 ^ 64"
  by (simp add: low_u64_def unsigned_ucast_eq take_bit_eq_mod)

lemma unat_low_u32: "unat (low_u32 x) = unat x mod 2 ^ 32"
  by (simp add: low_u32_def unsigned_ucast_eq take_bit_eq_mod)

definition u256_of :: "u64 \<Rightarrow> u256" where
  "u256_of x = ucast x"

lemma unat_u256_of [simp]: "unat (u256_of x) = unat x"
proof -
  have "unat x < 2 ^ 256"
    using unat_less [of x] by simp
  then show ?thesis
    by (simp add: u256_of_def unsigned_ucast_eq take_bit_eq_mod)
qed

text \<open>The product of three 64-bit values fits in 256 bits.\<close>

lemma unat_mult3_u256:
  "unat (u256_of a * u256_of b * u256_of c) = unat a * unat b * unat c"
proof -
  have "unat a < 2 ^ 64" and "unat b < 2 ^ 64" and "unat c < 2 ^ 64"
    using unat_less [of a] unat_less [of b] unat_less [of c] by simp_all
  then have ab: "unat a * unat b < 2 ^ 64 * 2 ^ 64"
    by (metis mult_strict_mono zero_le zero_less_numeral zero_less_power)
  then have abc: "unat a * unat b * unat c < (2 ^ 64 * 2 ^ 64) * 2 ^ 64"
    using \<open>unat c < 2 ^ 64\<close> by (rule mult_strict_mono) auto
  have "unat (u256_of a * u256_of b) = unat a * unat b"
    using ab by (subst unat_mult_lem [THEN iffD1]) simp_all
  then show ?thesis
    using abc by (subst unat_mult_lem [THEN iffD1]) simp_all
qed

end
