(* ===== verification/Errors.thy ===== *)
theory Errors
  imports Prelude
begin

text \<open>
  \<^verbatim>\<open>bridge/src/error.rs\<close>: the error kinds of the program, the errors of the libraries it wraps,
  the conversion of a timer's timeout into an error, and the result type of the model. A result
  is a value, an error, or a panic (\<open>unwrap\<close>, \<open>expect\<close>, \<open>assert_eq!\<close>), so that every way a source
  function can leave is a value of the model.
\<close>

section \<open>Errors\<close>

text \<open>\<open>std::io::ErrorKind\<close>.\<close>

datatype io_error_kind =
  NotFound | PermissionDenied | ConnectionRefused | ConnectionReset | ConnectionAborted
| NotConnected | AddrInUse | AddrNotAvailable | BrokenPipe | AlreadyExists | WouldBlock
| InvalidInput | InvalidData | TimedOutKind | WriteZero | Interrupted | OtherKind | UnexpectedEof

datatype io_error = IoError (io_kind: io_error_kind) (io_message: string)

text \<open>\<open>jsonrpc_core::ErrorCode\<close> and \<open>jsonrpc_core::Error\<close>, the fields the program reads.\<close>

datatype error_code =
  ParseError | InvalidRequest | MethodNotFound | InvalidParams | InternalError | ServerError int

datatype rpc_error = RpcError (rpc_code: error_code) (rpc_message: string)

text \<open>\<open>web3::error::ErrorKind\<close>: the two kinds the program distinguishes, and all others.\<close>

datatype web3_error = W_Io io_error | W_Rpc rpc_error | W_Other string

text \<open>
  The kinds of \<open>error_chain!\<close>: the built-in message kind, the foreign links, and the program's own
  kinds. The payload of an error of another library is its printed form. An \<open>Error\<close> is a kind with
  the error that caused it, which \<open>chain_err\<close> sets.
\<close>

datatype error_kind =
  Msg string
| Io io_error
| Toml string
| Ethabi string
| Timer string
| Hex string
| Json string
| Hyper string
| ShutdownRequested
| InsufficientFunds
| NoRequiredSignaturesChanged
| Timeout string
| MissingFile string
| Web3 web3_error
| KeyStore string
| SignError string
| AccountError string
| ContextualizedError error string
| OtherError string
| ConfigError string
and error = Error (kind: error_kind) (cause: "error option")

text \<open>\<open>ErrorKind::into\<close> and \<open>ResultExt::chain_err\<close>.\<close>

definition from_kind :: "error_kind \<Rightarrow> error" where
  "from_kind k = Error k None"

definition chain_err :: "error \<Rightarrow> string \<Rightarrow> error" where
  "chain_err e msg = Error (Msg msg) (Some e)"

text \<open>\<open>ErrorKind::ContextualizedError(Box::new(e), context)\<close>, as the relays wrap errors.\<close>

definition contextualize :: "string \<Rightarrow> error \<Rightarrow> error" where
  "contextualize ctx e = from_kind (ContextualizedError e ctx)"

text \<open>\<open>tokio_timer::TimeoutError\<close> and \<open>impl From<TimeoutError<T>> for Error\<close>.\<close>

datatype timeout_error = TimerFault | TimedOut

definition from_timeout_error :: "timeout_error \<Rightarrow> error" where
  "from_timeout_error err = (case err of
      TimerFault \<Rightarrow> from_kind (Timeout ''communication timeout'')
    | TimedOut \<Rightarrow> from_kind (Timeout ''communication timeout''))"

section \<open>Results\<close>

datatype 'a result = Ok 'a | Err error | Panic string

fun and_then :: "'a result \<Rightarrow> ('a \<Rightarrow> 'b result) \<Rightarrow> 'b result" where
  "and_then (Ok x) f = f x"
| "and_then (Err e) f = Err e"
| "and_then (Panic m) f = Panic m"

fun map_err :: "(error \<Rightarrow> error) \<Rightarrow> 'a result \<Rightarrow> 'a result" where
  "map_err f (Ok x) = Ok x"
| "map_err f (Err e) = Err (f e)"
| "map_err f (Panic m) = Panic m"

text \<open>\<open>Option::expect\<close> and \<open>Option::unwrap\<close>.\<close>

definition expect :: "string \<Rightarrow> 'a option \<Rightarrow> 'a result" where
  "expect m x = (case x of None \<Rightarrow> Panic m | Some v \<Rightarrow> Ok v)"

text \<open>
  \<open>iter().map(f).collect::<Result<Vec<_>, _>>()\<close>: \<open>f\<close> runs on the elements in order and the first
  error (or panic) ends the iteration.
\<close>

fun try_map :: "('a \<Rightarrow> 'b result) \<Rightarrow> 'a list \<Rightarrow> 'b list result" where
  "try_map f [] = Ok []"
| "try_map f (x # xs) = and_then (f x) (\<lambda>y. and_then (try_map f xs) (\<lambda>ys. Ok (y # ys)))"

lemma and_then_eq_Ok [simp]: "and_then r f = Ok y \<longleftrightarrow> (\<exists>x. r = Ok x \<and> f x = Ok y)"
  by (cases r) auto

lemma map_err_eq_Ok [simp]: "map_err f r = Ok x \<longleftrightarrow> r = Ok x"
  by (cases r) auto

lemma expect_simps [simp]: "expect m (Some v) = Ok v" "expect m None = Panic m"
  by (simp_all add: expect_def)

lemma expect_eq_Ok [simp]: "expect m x = Ok v \<longleftrightarrow> x = Some v"
  by (cases x) (auto simp: expect_def)

lemma try_map_eq_Ok: "try_map f xs = Ok ys \<longleftrightarrow> list_all2 (\<lambda>x y. f x = Ok y) xs ys"
  by (induction xs arbitrary: ys) (auto simp: list_all2_Cons1)

lemma try_map_length: "try_map f xs = Ok ys \<Longrightarrow> length ys = length xs"
  by (auto simp: try_map_eq_Ok dest: list_all2_lengthD)

lemma try_map_mem: "try_map f xs = Ok ys \<Longrightarrow> x \<in> set xs \<Longrightarrow> \<exists>y\<in>set ys. f x = Ok y"
  by (induction xs arbitrary: ys) auto

lemma try_map_total: "(\<And>x. x \<in> set xs \<Longrightarrow> f x = Ok (g x)) \<Longrightarrow> try_map f xs = Ok (map g xs)"
  by (induction xs) auto

lemma try_map_first_Err:
  "\<forall>y\<in>set ys. \<exists>v. f y = Ok v \<Longrightarrow> f x = Err e \<Longrightarrow> try_map f (ys @ x # zs) = Err e"
  by (induction ys) auto

lemma try_map_Err_first:
  "try_map f xs = Err e \<Longrightarrow> \<exists>ys x zs. xs = ys @ x # zs \<and> f x = Err e \<and> (\<forall>y\<in>set ys. \<exists>v. f y = Ok v)"
proof (induction xs)
  case Nil
  then show ?case by simp
next
  case (Cons x xs)
  show ?case
  proof (cases "f x")
    case (Ok v)
    with Cons.prems have "try_map f xs = Err e"
      by (cases "try_map f xs") auto
    then obtain ys z zs where "xs = ys @ z # zs" "f z = Err e" "\<forall>y\<in>set ys. \<exists>v. f y = Ok v"
      using Cons.IH by blast
    then show ?thesis
      using Ok by (intro exI [of _ "x # ys"] exI [of _ z] exI [of _ zs]) auto
  next
    case (Err e')
    then show ?thesis
      using Cons.prems by (intro exI [of _ "[]"]) auto
  next
    case (Panic m)
    then show ?thesis
      using Cons.prems by simp
  qed
qed

end
