(* ===== verification/Futures.thy ===== *)
theory Futures
  imports Errors
begin

text \<open>
  Polling. A future or a stream of the program is a state machine whose \<open>poll\<close> runs a loop over
  its states until it returns (\<open>futures 0.1\<close>). This theory has the poll results, the macros of
  \<^verbatim>\<open>bridge/src/macros.rs\<close>, the replies of the futures that other libraries provide, the loop of
  a \<open>poll\<close>, the runs of a stream with steps of its environment in between, and the contracts
  (locales) that lift facts about one loop iteration to polls and to runs.
\<close>

section \<open>Poll results and the macros\<close>

datatype 'a async = NotReady | Ready 'a

type_synonym 'a poll = "'a async result"

text \<open>
  The macros return from the calling \<open>poll\<close> unless a value is available. \<open>ret\<close> is what the caller
  returns, \<open>k\<close> what it goes on with. \<open>try_ready!\<close> is the macro of the futures crate.
\<close>

fun try_ready :: "'a poll \<Rightarrow> ('b poll \<Rightarrow> 'c) \<Rightarrow> ('a \<Rightarrow> 'c) \<Rightarrow> 'c" where
  "try_ready (Err e) ret k = ret (Err e)"
| "try_ready (Panic m) ret k = ret (Panic m)"
| "try_ready (Ok NotReady) ret k = ret (Ok NotReady)"
| "try_ready (Ok (Ready v)) ret k = k v"

fun try_stream :: "'a option poll \<Rightarrow> ('b option poll \<Rightarrow> 'c) \<Rightarrow> ('a \<Rightarrow> 'c) \<Rightarrow> 'c" where
  "try_stream (Err e) ret k = ret (Err e)"
| "try_stream (Panic m) ret k = ret (Panic m)"
| "try_stream (Ok NotReady) ret k = ret (Ok NotReady)"
| "try_stream (Ok (Ready None)) ret k = ret (Ok (Ready None))"
| "try_stream (Ok (Ready (Some v))) ret k = k v"

fun try_bridge :: "'a option poll \<Rightarrow> ('b option poll \<Rightarrow> 'c) \<Rightarrow> ('a option \<Rightarrow> 'c) \<Rightarrow> 'c" where
  "try_bridge (Err e) ret k = ret (Err e)"
| "try_bridge (Panic m) ret k = ret (Panic m)"
| "try_bridge (Ok NotReady) ret k = k None"
| "try_bridge (Ok (Ready None)) ret k = ret (Ok (Ready None))"
| "try_bridge (Ok (Ready (Some v))) ret k = k (Some v)"

lemma try_bridge_split:
  "P (try_bridge r ret k) \<longleftrightarrow>
     (\<forall>e. r = Err e \<longrightarrow> P (ret (Err e))) \<and> (\<forall>m. r = Panic m \<longrightarrow> P (ret (Panic m))) \<and>
     (r = Ok NotReady \<longrightarrow> P (k None)) \<and> (r = Ok (Ready None) \<longrightarrow> P (ret (Ok (Ready None)))) \<and>
     (\<forall>v. r = Ok (Ready (Some v)) \<longrightarrow> P (k (Some v)))"
  by (cases "(r, ret, k)" rule: try_bridge.cases) simp_all

lemma try_bridge_split_asm:
  "P (try_bridge r ret k) \<longleftrightarrow> \<not>
     ((\<exists>e. r = Err e \<and> \<not> P (ret (Err e))) \<or> (\<exists>m. r = Panic m \<and> \<not> P (ret (Panic m))) \<or>
      (r = Ok NotReady \<and> \<not> P (k None)) \<or> (r = Ok (Ready None) \<and> \<not> P (ret (Ok (Ready None)))) \<or>
      (\<exists>v. r = Ok (Ready (Some v)) \<and> \<not> P (k (Some v))))"
  by (cases "(r, ret, k)" rule: try_bridge.cases) simp_all

section \<open>Futures of other libraries\<close>

text \<open>
  A request of the web3 client under a timer (\<open>Timeout<ApiCall<T, _>>\<close>) is represented by the
  answers it gives to its successive polls: what the inner call answers (\<open>CallResult\<close>), or that
  the timer ended it. The list is an arbitrary parameter; once it is exhausted the future stays
  pending.
\<close>

datatype 'a answer = A_Pending | A_Value 'a | A_Fail web3_error

datatype 'a reply = Inner "'a answer" | Timed timeout_error

type_synonym 'a fut = "'a reply list"

text \<open>\<open>ApiCall::poll\<close>: the client's error becomes \<open>ErrorKind::Web3\<close>.\<close>

fun api_call_poll :: "'a answer \<Rightarrow> 'a poll" where
  "api_call_poll A_Pending = Ok NotReady"
| "api_call_poll (A_Value v) = Ok (Ready v)"
| "api_call_poll (A_Fail e) = Err (from_kind (Web3 e))"

fun reply_poll :: "'a reply \<Rightarrow> 'a poll" where
  "reply_poll (Inner a) = api_call_poll a"
| "reply_poll (Timed t) = Err (from_timeout_error t)"

fun poll_fut :: "'a fut \<Rightarrow> 'a poll \<times> 'a fut" where
  "poll_fut [] = (Ok NotReady, [])"
| "poll_fut (r # rs) = (reply_poll r, rs)"

lemma poll_fut_Ready: "poll_fut f = (Ok (Ready v), f') \<Longrightarrow> f = Inner (A_Value v) # f'"
proof (cases f)
  case (Cons r rs)
  assume "poll_fut f = (Ok (Ready v), f')"
  with Cons show ?thesis
    by (cases r) (auto elim: api_call_poll.elims)
qed simp

lemma poll_fut_rpc_error:
  assumes "poll_fut f = (Err e, g)" and "kind e = Web3 (W_Rpc k)"
  shows "f = Inner (A_Fail (W_Rpc k)) # g"
proof (cases f)
  case (Cons x xs)
  then show ?thesis
    using assms
    by (cases x) (auto simp: from_kind_def from_timeout_error_def split: timeout_error.splits
        elim!: api_call_poll.elims)
qed (use assms in simp)

lemma poll_fut_not_Panic [simp]: "poll_fut f \<noteq> (Panic m, f')"
proof (cases f)
  case (Cons r rs)
  then show ?thesis
    by (cases r) (auto elim: api_call_poll.elims)
qed simp

text \<open>
  The ticks of a timer interval (\<open>tokio_timer::Interval\<close>), again as the answers to successive
  polls; its error is converted through the foreign link \<open>Timer\<close>.
\<close>

datatype tick = T_Pending | T_Tick | T_End | T_Fail string

fun tick_poll :: "tick \<Rightarrow> unit option poll" where
  "tick_poll T_Pending = Ok NotReady"
| "tick_poll T_Tick = Ok (Ready (Some ()))"
| "tick_poll T_End = Ok (Ready None)"
| "tick_poll (T_Fail m) = Err (from_kind (Timer m))"

fun interval_poll :: "tick list \<Rightarrow> unit option poll \<times> tick list" where
  "interval_poll [] = (Ok NotReady, [])"
| "interval_poll (t # ts) = (tick_poll t, ts)"

lemma interval_poll_Some:
  "interval_poll ts = (Ok (Ready (Some u)), ts') \<Longrightarrow> ts = T_Tick # ts'"
proof (cases ts)
  case (Cons t rs)
  assume "interval_poll ts = (Ok (Ready (Some u)), ts')"
  with Cons show ?thesis
    by (cases t) auto
qed simp

section \<open>The loop of a poll\<close>

text \<open>
  One iteration of the \<open>loop { let next_state = match self.state { ... }; self.state = next_state; }\<close>
  of a \<open>poll\<close> either goes round with a new state, returns, or calls an inner poll that never
  returns. \<open>poll_loop\<close> is the whole loop; a poll that never returns is \<open>None\<close>.
\<close>

datatype ('s, 'r) ctl = Continue 's | Return 's 'r | Diverge

partial_function (option) poll_loop :: "('s \<Rightarrow> ('s, 'r) ctl) \<Rightarrow> 's \<Rightarrow> ('s \<times> 'r) option" where
  "poll_loop body s = (case body s of
      Continue s' \<Rightarrow> poll_loop body s'
    | Return s' r \<Rightarrow> Some (s', r)
    | Diverge \<Rightarrow> None)"

declare poll_loop.simps [code]

text \<open>The result of an inner poll, which may not return.\<close>

definition inner :: "'x option \<Rightarrow> ('x \<Rightarrow> ('s, 'r) ctl) \<Rightarrow> ('s, 'r) ctl" where
  "inner x k = (case x of None \<Rightarrow> Diverge | Some v \<Rightarrow> k v)"

lemma inner_simps [simp, poll_simps]: "inner None k = Diverge" "inner (Some v) k = k v"
  by (simp_all add: inner_def)

lemma poll_loop_Return: "body s = Return t r \<Longrightarrow> poll_loop body s = Some (t, r)"
  by (simp add: poll_loop.simps)

lemma poll_loop_Continue: "body s = Continue t \<Longrightarrow> poll_loop body s = poll_loop body t"
  by (subst poll_loop.simps) simp

lemma poll_loop_Diverge: "body s = Diverge \<Longrightarrow> poll_loop body s = None"
  by (simp add: poll_loop.simps)

lemmas poll_loop_steps = poll_loop_Return poll_loop_Continue poll_loop_Diverge

text \<open>
  The contract of a loop body: \<open>inv\<close> holds before every iteration and \<open>post\<close> of every return.
  Every completed poll started under \<open>inv\<close> then meets \<open>post\<close>.
\<close>

locale poll_body =
  fixes body :: "'s \<Rightarrow> ('s, 'r) ctl"
    and inv :: "'s \<Rightarrow> bool"
    and post :: "'s \<Rightarrow> 'r \<Rightarrow> bool"
  assumes continue_inv: "inv s \<Longrightarrow> body s = Continue t \<Longrightarrow> inv t"
    and return_post: "inv s \<Longrightarrow> body s = Return t r \<Longrightarrow> post t r"
begin

lemma poll_post:
  assumes "poll_loop body s = Some (t, r)" and "inv s"
  shows "post t r"
proof -
  define P where "P = (\<lambda>b u (p :: 's \<times> 'r). b = body \<longrightarrow> inv u \<longrightarrow> post (fst p) (snd p))"
  have "P body s (t, r)"
  proof (rule poll_loop.raw_induct [where P = P, OF _ assms(1)])
    fix f b u and p :: "'s \<times> 'r"
    assume IH: "\<And>b v q. f b v = Some q \<Longrightarrow> P b v q"
      and eq: "(case b u of Continue v \<Rightarrow> f b v | Return v q \<Rightarrow> Some (v, q) | Diverge \<Rightarrow> None) = Some p"
    show "P b u p"
      unfolding P_def
    proof (intro impI)
      assume "b = body" and "inv u"
      then show "post (fst p) (snd p)"
        using eq IH continue_inv return_post by (cases "b u") (auto simp: P_def)
    qed
  qed
  with assms(2) show ?thesis by (simp add: P_def)
qed

end

text \<open>
  The contract of a terminating loop: no iteration hangs, and every iteration that goes round
  makes the rank smaller. Every poll then returns.
\<close>

locale poll_ranked =
  fixes body :: "'s \<Rightarrow> ('s, 'r) ctl"
    and ok :: "'s \<Rightarrow> bool"
    and rank :: "'s \<Rightarrow> nat"
  assumes no_hang: "ok s \<Longrightarrow> body s \<noteq> Diverge"
    and rank_less: "ok s \<Longrightarrow> body s = Continue t \<Longrightarrow> ok t \<and> rank t < rank s"
begin

lemma poll_returns: "ok s \<Longrightarrow> \<exists>t r. poll_loop body s = Some (t, r)"
proof (induction "rank s" arbitrary: s rule: less_induct)
  case less
  show ?case
  proof (cases "body s")
    case (Continue u)
    with less.prems have "ok u" and "rank u < rank s"
      using rank_less by blast+
    then obtain t r where "poll_loop body u = Some (t, r)"
      using less.hyps by blast
    with Continue show ?thesis
      by (auto simp: poll_loop_Continue)
  next
    case (Return t r)
    then show ?thesis
      by (auto simp: poll_loop_Return)
  next
    case Diverge
    with less.prems show ?thesis
      using no_hang by blast
  qed
qed

end

section \<open>Runs of a stream\<close>

text \<open>
  A run polls a stream again and again. Between two polls other parts of the program may change
  the state the stream shares with them, as far as \<open>rely\<close> allows; the list holds the items the
  stream has yielded. The event loop polls no stream again that has failed or ended, so a run goes
  on only after a poll that yields an item or is not ready.
\<close>

inductive stream_run ::
    "('s \<Rightarrow> ('s \<times> 'a option poll) option) \<Rightarrow> ('s \<Rightarrow> 's \<Rightarrow> bool) \<Rightarrow> 's \<Rightarrow> 'a list \<Rightarrow> 's \<Rightarrow> bool"
  for poll rely s where
  start: "stream_run poll rely s [] s"
| item: "stream_run poll rely s xs t \<Longrightarrow> poll t = Some (u, Ok (Ready (Some x))) \<Longrightarrow>
     stream_run poll rely s (xs @ [x]) u"
| idle: "stream_run poll rely s xs t \<Longrightarrow> poll t = Some (u, Ok NotReady) \<Longrightarrow>
     stream_run poll rely s xs u"
| other: "stream_run poll rely s xs t \<Longrightarrow> rely t u \<Longrightarrow> stream_run poll rely s xs u"

text \<open>The contract of a stream: an invariant of the state and the items yielded so far.\<close>

locale stream_inv =
  fixes poll :: "'s \<Rightarrow> ('s \<times> 'a option poll) option"
    and rely :: "'s \<Rightarrow> 's \<Rightarrow> bool"
    and inv :: "'a list \<Rightarrow> 's \<Rightarrow> bool"
  assumes inv_item: "inv xs s \<Longrightarrow> poll s = Some (t, Ok (Ready (Some x))) \<Longrightarrow> inv (xs @ [x]) t"
    and inv_idle: "inv xs s \<Longrightarrow> poll s = Some (t, Ok NotReady) \<Longrightarrow> inv xs t"
    and inv_other: "inv xs s \<Longrightarrow> rely s t \<Longrightarrow> inv xs t"
begin

lemma run_inv: "stream_run poll rely s xs t \<Longrightarrow> inv [] s \<Longrightarrow> inv xs t"
  by (induction rule: stream_run.induct) (blast intro: inv_item inv_idle inv_other)+

end

lemma stream_run_trans:
  assumes "stream_run poll rely t ys u" and "stream_run poll rely s xs t"
  shows "stream_run poll rely s (xs @ ys) u"
  using assms
  by (induction rule: stream_run.induct)
    (auto intro: stream_run.intros simp flip: append_assoc)

text \<open>Likewise for a future, which is polled until it is ready.\<close>

inductive future_run ::
    "('s \<Rightarrow> ('s \<times> 'a poll) option) \<Rightarrow> ('s \<Rightarrow> 's \<Rightarrow> bool) \<Rightarrow> 's \<Rightarrow> 's \<Rightarrow> bool"
  for poll rely s where
  created: "future_run poll rely s s"
| pending: "future_run poll rely s t \<Longrightarrow> poll t = Some (u, Ok NotReady) \<Longrightarrow> future_run poll rely s u"
| wait: "future_run poll rely s t \<Longrightarrow> rely t u \<Longrightarrow> future_run poll rely s u"

text \<open>A stream that yields an item at its first poll has a run with that item.\<close>

lemma stream_run_one:
  assumes "poll s = Some (t, Ok (Ready (Some x)))"
  shows "stream_run poll rely s [x] t"
  using stream_run.item [of poll rely s "[]" s] stream_run.start [of poll rely s] assms by simp

section \<open>Sets of futures\<close>

text \<open>
  \<open>futures_unordered(fs).collect()\<close>: the futures complete in any order; a poll runs those that have
  been woken up, hands on the first error, and is ready once none is left. Which futures are woken,
  and in which order, is a parameter: for each poll the positions (in the list of futures still
  pending) that are run.
\<close>

record ('f, 't) collect =
  co_pending :: "'f list"
  co_items :: "'t list"
  co_wakeups :: "nat list list"

definition futures_unordered_collect :: "'f list \<Rightarrow> nat list list \<Rightarrow> ('f, 't) collect" where
  "futures_unordered_collect fs wakeups = \<lparr> co_pending = fs, co_items = [], co_wakeups = wakeups \<rparr>"

fun drive :: "('f \<times> 'c \<Rightarrow> (('f \<times> 'c) \<times> 't poll) option) \<Rightarrow> nat list \<Rightarrow> 'f list \<Rightarrow> 't list \<Rightarrow> 'c \<Rightarrow>
    (('f list \<times> 't list \<times> 'c) \<times> 't list poll) option" where
  "drive poll [] fs ts c = Some ((fs, ts, c), if fs = [] then Ok (Ready ts) else Ok NotReady)"
| "drive poll (i # is) fs ts c =
     (if fs = [] then Some ((fs, ts, c), Ok (Ready ts))
      else if i < length fs then
        (case poll (fs ! i, c) of
           None \<Rightarrow> None
         | Some ((f, d), r) \<Rightarrow>
             (case r of
                Ok (Ready t) \<Rightarrow> drive poll is (take i fs @ drop (Suc i) fs) (ts @ [t]) d
              | Ok NotReady \<Rightarrow> drive poll is (fs[i := f]) ts d
              | Err e \<Rightarrow> Some ((fs[i := f], ts, d), Err e)
              | Panic m \<Rightarrow> Some ((fs[i := f], ts, d), Panic m)))
      else drive poll is fs ts c)"

definition collect_poll ::
    "('f \<times> 'c \<Rightarrow> (('f \<times> 'c) \<times> 't poll) option) \<Rightarrow> ('f, 't) collect \<times> 'c \<Rightarrow>
     ((('f, 't) collect \<times> 'c) \<times> 't list poll) option" where
  "collect_poll poll = (\<lambda>(b, c).
     let woken = (case co_wakeups b of [] \<Rightarrow> [] | is # _ \<Rightarrow> is) in
     case drive poll woken (co_pending b) (co_items b) c of
       None \<Rightarrow> None
     | Some ((fs, ts, d), r) \<Rightarrow>
         Some ((b\<lparr>co_pending := fs, co_items := ts, co_wakeups := drop 1 (co_wakeups b)\<rparr>, d), r))"

text \<open>
  Tracking the work of a set of futures: every job of \<open>ks\<close> is either done (\<open>Q\<close>) or the job of a
  future still pending (\<open>P\<close>).
\<close>

definition tracked ::
    "('k \<Rightarrow> 'f \<times> 'c \<Rightarrow> bool) \<Rightarrow> ('k \<Rightarrow> 'c \<Rightarrow> bool) \<Rightarrow> 'k list \<Rightarrow> 'f list \<Rightarrow> 'c \<Rightarrow> bool" where
  "tracked P Q ks fs c \<longleftrightarrow>
     (\<exists>js. list_all2 (\<lambda>k f. P k (f, c)) js fs \<and> (\<forall>k\<in>set ks. k \<in> set js \<or> Q k c))"

lemma tracked_done: "tracked P Q ks [] c \<Longrightarrow> k \<in> set ks \<Longrightarrow> Q k c"
  by (auto simp: tracked_def)

lemma tracked_start: "(\<And>k. k \<in> set ks \<Longrightarrow> P k (f k, c)) \<Longrightarrow> tracked P Q ks (map f ks) c"
  by (auto simp: tracked_def list_all2_conv_all_nth intro!: exI [of _ ks])

text \<open>The contract of the futures of a set: polls stay on the job, and a completed one is done.\<close>

locale tracked_future =
  fixes poll :: "'f \<times> 'c \<Rightarrow> (('f \<times> 'c) \<times> 't poll) option"
    and P :: "'k \<Rightarrow> 'f \<times> 'c \<Rightarrow> bool"
    and Q :: "'k \<Rightarrow> 'c \<Rightarrow> bool"
    and ext :: "'c \<Rightarrow> 'c \<Rightarrow> bool"
  assumes ext_refl: "ext c c"
    and ext_trans: "ext c d \<Longrightarrow> ext d e \<Longrightarrow> ext c e"
    and P_poll: "P k (f, c) \<Longrightarrow> poll (f, c) = Some ((g, d), r) \<Longrightarrow> P k (g, d) \<and> ext c d"
    and Q_poll: "P k (f, c) \<Longrightarrow> poll (f, c) = Some ((g, d), Ok (Ready t)) \<Longrightarrow> Q k d"
    and P_ext: "P k (f, c) \<Longrightarrow> ext c d \<Longrightarrow> P k (f, d)"
    and Q_ext: "Q k c \<Longrightarrow> ext c d \<Longrightarrow> Q k d"
begin

lemma tracked_ext: "tracked P Q ks fs c \<Longrightarrow> ext c d \<Longrightarrow> tracked P Q ks fs d"
  unfolding tracked_def by (blast intro: list_all2_mono P_ext Q_ext)

lemma tracked_update:
  assumes "tracked P Q ks fs c" and "i < length fs" and "poll (fs ! i, c) = Some ((g, d), r)"
  shows "ext c d" and "tracked P Q ks (fs[i := g]) d"
proof -
  obtain js where js: "list_all2 (\<lambda>k f. P k (f, c)) js fs" "\<forall>k\<in>set ks. k \<in> set js \<or> Q k c"
    using assms(1) by (auto simp: tracked_def)
  then have "P (js ! i) (fs ! i, c)"
    using assms(2) by (simp add: list_all2_conv_all_nth)
  with assms(3) have Pg: "P (js ! i) (g, d)" and ext: "ext c d"
    using P_poll by blast+
  show "ext c d" by fact
  have "list_all2 (\<lambda>k f. P k (f, d)) js (fs[i := g])"
    using js(1) Pg ext assms(2) by (auto simp: list_all2_conv_all_nth nth_list_update intro: P_ext)
  then show "tracked P Q ks (fs[i := g]) d"
    using js(2) ext unfolding tracked_def by (blast intro: Q_ext)
qed

lemma tracked_complete:
  assumes "tracked P Q ks fs c" and "i < length fs" and "poll (fs ! i, c) = Some ((g, d), Ok (Ready t))"
  shows "tracked P Q ks (take i fs @ drop (Suc i) fs) d"
proof -
  obtain js where js: "list_all2 (\<lambda>k f. P k (f, c)) js fs" "\<forall>k\<in>set ks. k \<in> set js \<or> Q k c"
    using assms(1) by (auto simp: tracked_def)
  then have len: "length js = length fs" and "P (js ! i) (fs ! i, c)"
    using assms(2) by (auto simp: list_all2_conv_all_nth)
  with assms(3) have Qd: "Q (js ! i) d" and ext: "ext c d"
    using P_poll Q_poll by blast+
  have "list_all2 (\<lambda>k f. P k (f, d)) (take i js @ drop (Suc i) js) (take i fs @ drop (Suc i) fs)"
    using js(1) ext
    by (intro list_all2_appendI list_all2_takeI list_all2_dropI) (auto elim!: list_all2_mono intro: P_ext)
  moreover have "set js = set (take i js @ drop (Suc i) js) \<union> {js ! i}"
    using len assms(2) by (metis Un_insert_right append_Nil2 id_take_nth_drop list.set(2) set_append
        sup_bot.right_neutral)
  ultimately show ?thesis
    using js(2) Qd ext unfolding tracked_def by (blast intro: Q_ext)
qed

lemma drive_tracked:
  "drive poll is fs ts c = Some ((fs', ts', d), r) \<Longrightarrow> tracked P Q ks fs c \<Longrightarrow>
   ext c d \<and> tracked P Q ks fs' d \<and> (\<forall>v. r = Ok (Ready v) \<longrightarrow> fs' = [])"
proof (induction "is" arbitrary: fs ts c)
  case Nil
  then show ?case
    by (auto simp: ext_refl split: if_splits)
next
  case (Cons i "is")
  show ?case
  proof (cases "fs \<noteq> [] \<and> i < length fs")
    case False
    then show ?thesis
      using Cons by (auto simp: ext_refl split: if_splits)
  next
    case True
    then obtain g e q where p: "poll (fs ! i, c) = Some ((g, e), q)"
      using Cons.prems(1) by (auto split: option.splits)
    note upd = tracked_update [OF Cons.prems(2) _ p]
    show ?thesis
    proof (cases "\<exists>t. q = Ok (Ready t)")
      case t: True
      then obtain t where t: "q = Ok (Ready t)" by blast
      have "tracked P Q ks (take i fs @ drop (Suc i) fs) e"
        using tracked_complete [OF Cons.prems(2)] True p t by blast
      then show ?thesis
        using Cons.IH Cons.prems(1) True p t upd(1) by (auto intro: ext_trans)
    next
      case f: False
      then show ?thesis
        using Cons.IH [of "fs[i := g]" ts e] Cons.prems(1) True p upd
        by (cases q) (auto intro: ext_trans split: async.splits)
    qed
  qed
qed

lemma collect_tracked:
  assumes "collect_poll poll (b, c) = Some ((b', d), r)" and "tracked P Q ks (co_pending b) c"
  shows "ext c d" and "tracked P Q ks (co_pending b') d"
    and "r = Ok (Ready v) \<Longrightarrow> k \<in> set ks \<Longrightarrow> Q k d"
  using assms(1) drive_tracked [OF _ assms(2)]
  by (fastforce simp: collect_poll_def Let_def split: option.splits prod.splits dest: tracked_done)+

end

text \<open>The number of futures of a set is kept: each is pending or has delivered its item.\<close>

lemma drive_length:
  "drive poll is fs ts c = Some ((fs', ts', d), r) \<Longrightarrow>
   length fs' + length ts' = length fs + length ts \<and> (\<forall>v. r = Ok (Ready v) \<longrightarrow> v = ts' \<and> fs' = [])"
proof (induction "is" arbitrary: fs ts c)
  case Nil
  then show ?case by (auto split: if_splits)
next
  case (Cons i "is")
  then show ?case
    by (fastforce split: if_splits option.splits prod.splits result.splits async.splits)
qed

text \<open>A poll of a set returns when the polls of its futures do.\<close>

lemma drive_returns:
  assumes "\<And>f c. ok f c \<Longrightarrow> \<exists>g d r. poll (f, c) = Some ((g, d), r) \<and> ok g d \<and> (\<forall>h. ok h c \<longrightarrow> ok h d)"
  shows "(\<forall>f\<in>set fs. ok f c) \<Longrightarrow> \<exists>p. drive poll is fs ts c = Some p"
proof (induction "is" arbitrary: fs ts c)
  case Nil
  then show ?case by simp
next
  case (Cons i "is")
  show ?case
  proof (cases "fs \<noteq> [] \<and> i < length fs")
    case False
    then show ?thesis
      using Cons by auto
  next
    case True
    then have "ok (fs ! i) c"
      using Cons.prems by simp
    then obtain g d r where p: "poll (fs ! i, c) = Some ((g, d), r)" "ok g d" "\<forall>h. ok h c \<longrightarrow> ok h d"
      using assms by blast
    have "\<forall>f\<in>set (fs[i := g]). ok f d" and "\<forall>f\<in>set (take i fs @ drop (Suc i) fs). ok f d"
      using Cons.prems p(2,3) by (auto dest!: set_update_subset_insert [THEN subsetD] in_set_takeD in_set_dropD)
    then show ?thesis
      using Cons.IH True p(1) by (auto split: result.splits async.splits)
  qed
qed

end
