(* ===== verification/Contracts.thy ===== *)
theory Contracts
  imports Errors
begin

text \<open>
  \<^verbatim>\<open>bridge/src/contracts.rs\<close>: the bindings \<open>use_contract!\<close> generates from the compiled ABIs of the
  two bridge contracts. The generated encoders and decoders are parameters of the model, one field
  per function the program calls; the theorems that rely on how they behave name that as
  hypotheses.
\<close>

text \<open>\<open>web3::types::Log\<close> (the fields the program reads) and \<open>ethabi::RawLog\<close>.\<close>

record log =
  lg_topics :: "h256 list"
  lg_data :: bytes
  lg_transaction_hash :: "h256 option"

record raw_log =
  rl_topics :: "h256 list"
  rl_data :: bytes

text \<open>The parsed events.\<close>

record deposit_log =
  dl_recipient :: address
  dl_value :: u256

record withdraw_log =
  wl_recipient :: address
  wl_value :: u256
  wl_home_gas_price :: u256

record collected_signatures_log =
  cs_authority_responsible_for_relay :: address
  cs_message_hash :: h256
  cs_number_of_collected_signatures :: u256

text \<open>
  A topic filter of an event: for each of the four topics the list of accepted values, empty when
  any value is accepted (\<open>ethabi::TopicFilter\<close>, with each \<open>Topic\<close> as the list its \<open>into()\<close> gives).
\<close>

record topic_filter =
  tf_topic0 :: "h256 list"
  tf_topic1 :: "h256 list"
  tf_topic2 :: "h256 list"
  tf_topic3 :: "h256 list"

record contracts =
  home_deposit_filter :: topic_filter
  home_deposit_parse_log :: "raw_log \<Rightarrow> deposit_log result"
  home_withdraw_input :: "u8 list \<Rightarrow> h256 list \<Rightarrow> h256 list \<Rightarrow> bytes \<Rightarrow> bytes"
  home_constructor :: "bytes \<Rightarrow> u32 \<Rightarrow> address list \<Rightarrow> u32 \<Rightarrow> bytes"
  foreign_withdraw_filter :: topic_filter
  foreign_withdraw_parse_log :: "raw_log \<Rightarrow> withdraw_log result"
  foreign_collected_signatures_filter :: topic_filter
  foreign_collected_signatures_parse_log :: "raw_log \<Rightarrow> collected_signatures_log result"
  foreign_deposit_input :: "address \<Rightarrow> u256 \<Rightarrow> h256 \<Rightarrow> bytes"
  foreign_submit_signature_input :: "bytes \<Rightarrow> bytes \<Rightarrow> bytes"
  foreign_signature_input :: "h256 \<Rightarrow> u32 \<Rightarrow> bytes"
  foreign_signature_output :: "bytes \<Rightarrow> bytes result"
  foreign_message_input :: "h256 \<Rightarrow> bytes"
  foreign_message_output :: "bytes \<Rightarrow> bytes result"
  foreign_constructor :: "bytes \<Rightarrow> u32 \<Rightarrow> address list \<Rightarrow> u32 \<Rightarrow> bytes"

end
