(* ===== verification/Config.thy ===== *)
theory Config
  imports Errors
begin

text \<open>
  \<^verbatim>\<open>bridge/src/config.rs\<close>: the configuration as the TOML file has it (module \<open>load\<close>, optional
  fields), the configuration the program runs with, and the conversion between them with its
  defaults, its TLS check and its panics. TOML deserialization and file reads are parameters.

  Fields that exist only in builds with the \<open>deploy\<close> feature are options here, \<open>None\<close> in a build
  without it; \<open>feat\<close> says which build is meant. The nonce cell of \<open>NodeInfo\<close>, which all clones of
  a \<open>Node\<close> share, is part of the shared state of the running program (theory \<open>Api\<close>).
\<close>

type_synonym duration = u64 \<comment> \<open>whole seconds, \<open>Duration::from_secs\<close>\<close>
type_synonym path = string

section \<open>Gas price speed\<close>

datatype gas_price_speed = Instant | Fast | Standard | Slow

definition speed_from_str :: "string \<Rightarrow> gas_price_speed option" where
  "speed_from_str s =
     (if s = ''instant'' then Some Instant
      else if s = ''fast'' then Some Fast
      else if s = ''standard'' then Some Standard
      else if s = ''slow'' then Some Slow
      else None)"

fun speed_as_str :: "gas_price_speed \<Rightarrow> string" where
  "speed_as_str Instant = ''instant''"
| "speed_as_str Fast = ''fast''"
| "speed_as_str Standard = ''standard''"
| "speed_as_str Slow = ''slow''"

section \<open>Defaults\<close>

definition DEFAULT_POLL_INTERVAL :: u64 where "DEFAULT_POLL_INTERVAL = 1"
definition DEFAULT_CONFIRMATIONS :: usize where "DEFAULT_CONFIRMATIONS = 12"
definition DEFAULT_TIMEOUT :: u64 where "DEFAULT_TIMEOUT = 3600"
definition DEFAULT_RPC_PORT :: u16 where "DEFAULT_RPC_PORT = 8545"
definition DEFAULT_CONCURRENCY :: usize where "DEFAULT_CONCURRENCY = 64"
definition DEFAULT_GAS_PRICE_SPEED :: gas_price_speed where "DEFAULT_GAS_PRICE_SPEED = Fast"
definition DEFAULT_GAS_PRICE_TIMEOUT_SECS :: u64 where "DEFAULT_GAS_PRICE_TIMEOUT_SECS = 10"
definition DEFAULT_GAS_PRICE_WEI :: u64 where "DEFAULT_GAS_PRICE_WEI = 15000000000"

lemmas default_defs =
  DEFAULT_POLL_INTERVAL_def DEFAULT_CONFIRMATIONS_def DEFAULT_TIMEOUT_def DEFAULT_RPC_PORT_def
  DEFAULT_CONCURRENCY_def DEFAULT_GAS_PRICE_SPEED_def DEFAULT_GAS_PRICE_TIMEOUT_SECS_def
  DEFAULT_GAS_PRICE_WEI_def

section \<open>The configuration file\<close>

record load_transaction_config =
  lt_gas :: "u64 option"
  lt_gas_price :: "u64 option"

record load_transactions =
  lts_home_deploy :: "load_transaction_config option"
  lts_foreign_deploy :: "load_transaction_config option"
  lts_deposit_relay :: "load_transaction_config option"
  lts_withdraw_confirm :: "load_transaction_config option"
  lts_withdraw_relay :: "load_transaction_config option"

record load_node =
  ln_account :: address
  ln_contract_bin :: path
  ln_request_timeout :: "u64 option"
  ln_poll_interval :: "u64 option"
  ln_required_confirmations :: "usize option"
  ln_rpc_host :: "string option"
  ln_rpc_port :: "u16 option"
  ln_password :: path
  ln_gas_price_oracle_url :: "string option"
  ln_gas_price_speed :: "string option"
  ln_gas_price_timeout :: "u64 option"
  ln_default_gas_price :: "u64 option"
  ln_concurrent_http_requests :: "usize option"

record load_authorities =
  la_accounts :: "address list"
  la_required_signatures :: u32

record load_config =
  lc_home :: load_node
  lc_foreign :: load_node
  lc_authorities :: load_authorities
  lc_transactions :: "load_transactions option"
  lc_estimated_gas_cost_of_withdraw :: u32
  lc_keystore :: path

section \<open>The running configuration\<close>

record transaction_config =
  tc_gas :: u64
  tc_gas_price :: u64

record transactions =
  txs_home_deploy :: "transaction_config option"
  txs_foreign_deploy :: "transaction_config option"
  txs_deposit_relay :: transaction_config
  txs_withdraw_confirm :: transaction_config
  txs_withdraw_relay :: transaction_config

record node =
  n_account :: address
  n_contract_bin :: "bytes option"
  n_request_timeout :: duration
  n_poll_interval :: duration
  n_required_confirmations :: usize
  n_rpc_host :: string
  n_rpc_port :: u16
  n_password :: path
  n_gas_price_oracle_url :: "string option"
  n_gas_price_speed :: gas_price_speed
  n_gas_price_timeout :: duration
  n_default_gas_price :: u64
  n_concurrent_http_requests :: usize

record authorities =
  au_accounts :: "address list option"
  au_required_signatures :: "u32 option"

record config =
  cfg_home :: node
  cfg_foreign :: node
  cfg_authorities :: authorities
  cfg_txs :: transactions
  cfg_estimated_gas_cost_of_withdraw :: "u32 option"
  cfg_keystore :: path

definition unwrap_or :: "'a option \<Rightarrow> 'a \<Rightarrow> 'a" where
  "unwrap_or x d = (case x of None \<Rightarrow> d | Some v \<Rightarrow> v)"

lemma unwrap_or_simps [simp]: "unwrap_or None d = d" "unwrap_or (Some v) d = v"
  by (simp_all add: unwrap_or_def)

definition transaction_config_from_load_struct :: "load_transaction_config \<Rightarrow> transaction_config" where
  "transaction_config_from_load_struct cfg =
     \<lparr> tc_gas = unwrap_or (lt_gas cfg) 0, tc_gas_price = unwrap_or (lt_gas_price cfg) 0 \<rparr>"

text \<open>\<open>TransactionConfig::default()\<close>, derived.\<close>

definition default_transaction_config :: transaction_config where
  "default_transaction_config = \<lparr> tc_gas = 0, tc_gas_price = 0 \<rparr>"

definition load_or_default :: "load_transaction_config option \<Rightarrow> transaction_config" where
  "load_or_default c =
     unwrap_or (map_option transaction_config_from_load_struct c) default_transaction_config"

definition transactions_from_load_struct :: "bool \<Rightarrow> load_transactions \<Rightarrow> transactions" where
  "transactions_from_load_struct feat cfg =
     \<lparr> txs_home_deploy = (if feat then Some (load_or_default (lts_home_deploy cfg)) else None),
       txs_foreign_deploy = (if feat then Some (load_or_default (lts_foreign_deploy cfg)) else None),
       txs_deposit_relay = load_or_default (lts_deposit_relay cfg),
       txs_withdraw_confirm = load_or_default (lts_withdraw_confirm cfg),
       txs_withdraw_relay = load_or_default (lts_withdraw_relay cfg) \<rparr>"

text \<open>\<open>Transactions::default()\<close>, derived.\<close>

definition default_transactions :: "bool \<Rightarrow> transactions" where
  "default_transactions feat =
     \<lparr> txs_home_deploy = (if feat then Some default_transaction_config else None),
       txs_foreign_deploy = (if feat then Some default_transaction_config else None),
       txs_deposit_relay = default_transaction_config,
       txs_withdraw_confirm = default_transaction_config,
       txs_withdraw_relay = default_transaction_config \<rparr>"

section \<open>Conversion\<close>

text \<open>
  \<open>Node::from_load_struct\<close>. \<open>read_bin\<close> stands for opening, reading and hex-decoding the compiled
  contract, which only a build with the feature does.
\<close>

definition node_from_load_struct ::
    "bool \<Rightarrow> (path \<Rightarrow> bytes result) \<Rightarrow> load_node \<Rightarrow> bool \<Rightarrow> node result" where
  "node_from_load_struct feat read_bin nd allow_insecure_rpc_endpoints =
     and_then (case ln_gas_price_speed nd of
                 Some s \<Rightarrow> expect ''called `Result::unwrap()` on an `Err` value: ()'' (speed_from_str s)
               | None \<Rightarrow> Ok DEFAULT_GAS_PRICE_SPEED) (\<lambda>gas_price_speed.
     let gas_price_timeout = unwrap_or (ln_gas_price_timeout nd) DEFAULT_GAS_PRICE_TIMEOUT_SECS;
         default_gas_price = unwrap_or (ln_default_gas_price nd) DEFAULT_GAS_PRICE_WEI;
         concurrent_http_requests = unwrap_or (ln_concurrent_http_requests nd) DEFAULT_CONCURRENCY in
     and_then (expect ''called `Option::unwrap()` on a `None` value'' (ln_rpc_host nd)) (\<lambda>rpc_host.
     if \<not> starts_with rpc_host ''https://'' \<and> \<not> allow_insecure_rpc_endpoints
     then Err (from_kind (ConfigError (''RPC endpoints must use TLS, '' @ rpc_host @ '' doesn't'')))
     else
     and_then (if feat then and_then (read_bin (ln_contract_bin nd)) (\<lambda>b. Ok (Some b)) else Ok None)
       (\<lambda>contract_bin.
     Ok \<lparr> n_account = ln_account nd,
          n_contract_bin = contract_bin,
          n_request_timeout = unwrap_or (ln_request_timeout nd) DEFAULT_TIMEOUT,
          n_poll_interval = unwrap_or (ln_poll_interval nd) DEFAULT_POLL_INTERVAL,
          n_required_confirmations = unwrap_or (ln_required_confirmations nd) DEFAULT_CONFIRMATIONS,
          n_rpc_host = rpc_host,
          n_rpc_port = unwrap_or (ln_rpc_port nd) DEFAULT_RPC_PORT,
          n_password = ln_password nd,
          n_gas_price_oracle_url = ln_gas_price_oracle_url nd,
          n_gas_price_speed = gas_price_speed,
          n_gas_price_timeout = gas_price_timeout,
          n_default_gas_price = default_gas_price,
          n_concurrent_http_requests = concurrent_http_requests \<rparr>)))"

definition config_from_load_struct ::
    "bool \<Rightarrow> (path \<Rightarrow> bytes result) \<Rightarrow> load_config \<Rightarrow> bool \<Rightarrow> config result" where
  "config_from_load_struct feat read_bin c allow_insecure_rpc_endpoints =
     and_then (node_from_load_struct feat read_bin (lc_home c) allow_insecure_rpc_endpoints) (\<lambda>home.
     and_then (node_from_load_struct feat read_bin (lc_foreign c) allow_insecure_rpc_endpoints) (\<lambda>foreign.
     Ok \<lparr> cfg_home = home,
          cfg_foreign = foreign,
          cfg_authorities =
            \<lparr> au_accounts = (if feat then Some (la_accounts (lc_authorities c)) else None),
              au_required_signatures =
                (if feat then Some (la_required_signatures (lc_authorities c)) else None) \<rparr>,
          cfg_txs = (case lc_transactions c of
                       Some t \<Rightarrow> transactions_from_load_struct feat t
                     | None \<Rightarrow> default_transactions feat),
          cfg_estimated_gas_cost_of_withdraw =
            (if feat then Some (lc_estimated_gas_cost_of_withdraw c) else None),
          cfg_keystore = lc_keystore c \<rparr>))"

text \<open>
  \<open>Config::load_from_str\<close> and \<open>Config::load\<close>: \<open>toml\<close> is the TOML deserializer, \<open>open_file\<close> opens
  and reads a file (an error of \<open>open\<close> is chained, an error of \<open>read_to_string\<close> panics).
\<close>

definition config_load_from_str ::
    "bool \<Rightarrow> (path \<Rightarrow> bytes result) \<Rightarrow> (string \<Rightarrow> string + load_config) \<Rightarrow> string \<Rightarrow> bool \<Rightarrow> config result"
where
  "config_load_from_str feat read_bin toml s allow_insecure_rpc_endpoints =
     (case toml s of
        Inl e \<Rightarrow> Err (chain_err (from_kind (Toml e)) ''Cannot parse config'')
      | Inr c \<Rightarrow> config_from_load_struct feat read_bin c allow_insecure_rpc_endpoints)"

definition config_load ::
    "bool \<Rightarrow> (path \<Rightarrow> bytes result) \<Rightarrow> (string \<Rightarrow> string + load_config) \<Rightarrow>
     (path \<Rightarrow> io_error + (io_error + string)) \<Rightarrow> path \<Rightarrow> bool \<Rightarrow> config result" where
  "config_load feat read_bin toml open_file p allow_insecure_rpc_endpoints =
     (case open_file p of
        Inl e \<Rightarrow> Err (chain_err (from_kind (Io e)) ''Cannot open config'')
      | Inr (Inl e) \<Rightarrow> Panic ''TODO''
      | Inr (Inr buffer) \<Rightarrow>
          config_load_from_str feat read_bin toml buffer allow_insecure_rpc_endpoints)"

text \<open>\<open>Node::password\<close>: the first line of the password file.\<close>

definition node_password :: "(path \<Rightarrow> io_error + string) \<Rightarrow> node \<Rightarrow> string result" where
  "node_password read_file nd =
     (case read_file (n_password nd) of
        Inl e \<Rightarrow> Err (from_kind (Io e))
      | Inr s \<Rightarrow> Ok (takeWhile (\<lambda>ch. ch \<noteq> CHR 0x0A) s))"

section \<open>Lemmas\<close>

lemma speed_from_as_str: "speed_from_str (speed_as_str v) = Some v"
  by (cases v) (simp_all add: speed_from_str_def)

lemma speed_as_from_str: "speed_from_str s = Some v \<Longrightarrow> speed_as_str v = s"
  by (auto simp: speed_from_str_def split: if_splits)

lemma node_from_load_struct_Ok:
  assumes "node_from_load_struct feat read_bin nd allow = Ok r"
  shows "ln_rpc_host nd = Some (n_rpc_host r)"
    and "starts_with (n_rpc_host r) ''https://'' \<or> allow"
    and "n_account r = ln_account nd"
    and "ln_gas_price_speed nd = None \<and> n_gas_price_speed r = Fast
         \<or> ln_gas_price_speed nd = Some (speed_as_str (n_gas_price_speed r))"
  using assms
  by (auto simp: node_from_load_struct_def Let_def DEFAULT_GAS_PRICE_SPEED_def
      dest: speed_as_from_str split: if_splits option.splits)

section \<open>Properties\<close>

text \<open>
  C39. Without the flag that allows insecure endpoints, a configuration is only accepted when both
  nodes are reached through TLS; and what the file leaves out gets the documented defaults.
\<close>

theorem config_requires_tls:
  assumes "config_from_load_struct feat read_bin c False = Ok cfg"
  shows "starts_with (n_rpc_host (cfg_home cfg)) ''https://'' \<and> starts_with (n_rpc_host (cfg_foreign cfg)) ''https://'' \<and>
    (lc_transactions c = None \<longrightarrow> cfg_txs cfg = default_transactions feat)"
  using assms
  by (auto simp: config_from_load_struct_def dest: node_from_load_struct_Ok(2))

end
