(* ===== verification/Api.thy ===== *)
theory Api
  imports Futures Contracts Config
begin

text \<open>
  \<^verbatim>\<open>bridge/src/api.rs\<close> (without the log stream) and \<^verbatim>\<open>bridge/src/util.rs\<close>: the RPC requests the
  program makes, the filters of its log queries, and the hash it signs. The transport is a
  parameter: for every request it gives the future of the reply, and it may choose the reply from
  everything that has been requested on that connection before.
\<close>

section \<open>Connections\<close>

datatype block_number = Latest | Earliest | Pending | Number u64

datatype json =
  JNull | JBool bool | JNumber rat | JString string | JArray "json list" | JObject "(string \<times> json) list"

text \<open>\<open>web3::types::Filter\<close>, as \<open>FilterBuilder\<close> builds it from the parts that were set.\<close>

record log_filter =
  flt_address :: "address list option"
  flt_topics :: "(h256 list option \<times> h256 list option \<times> h256 list option \<times> h256 list option) option"
  flt_from_block :: "block_number option"
  flt_to_block :: "block_number option"

definition default_filter :: log_filter where
  "default_filter = \<lparr> flt_address = None, flt_topics = None, flt_from_block = None, flt_to_block = None \<rparr>"

text \<open>\<open>web3::types::CallRequest\<close> with the fields the program sets.\<close>

record call_request =
  cr_to :: address
  cr_data :: "bytes option"

datatype rpc_call =
  Net_version
| Eth_getTransactionCount address block_number
| Eth_getLogs json
| Eth_blockNumber
| Eth_getBalance address block_number
| Eth_sendRawTransaction bytes
| Eth_call call_request "block_number option"

text \<open>
  The two cells all users of one node share: the requests made so far (most recent first) and the
  nonce of the next transaction (\<open>NodeInfo::nonce\<close>, an \<open>Arc<RwLock<U256>>\<close>).
\<close>

record chain =
  ch_nonce :: u256
  ch_calls :: "rpc_call list"

text \<open>
  \<open>NodeInfo::default()\<close>, on a connection that has not been used, and the equality of \<open>NodeInfo\<close>, which
  reads both nonces.
\<close>

definition default_node_info :: chain where
  [simp]: "default_node_info = \<lparr> ch_nonce = 0, ch_calls = [] \<rparr>"

definition node_info_eq :: "chain \<Rightarrow> chain \<Rightarrow> bool" where
  "node_info_eq a b \<longleftrightarrow> ch_nonce a = ch_nonce b"

text \<open>\<open>web3::types::TransactionReceipt\<close>, the fields the program reads or sets.\<close>

record receipt =
  rc_transaction_hash :: h256
  rc_block_number :: u256
  rc_contract_address :: "address option"

text \<open>\<open>TransactionReceipt::default()\<close>, derived.\<close>

definition default_receipt :: receipt where
  "default_receipt = \<lparr> rc_transaction_hash = 0, rc_block_number = 0, rc_contract_address = None \<rparr>"

record transport =
  tr_net_version :: "rpc_call list \<Rightarrow> string fut"
  tr_transaction_count :: "rpc_call list \<Rightarrow> u256 fut"
  tr_logs :: "rpc_call list \<Rightarrow> log list fut"
  tr_block_number :: "rpc_call list \<Rightarrow> u256 fut"
  tr_balance :: "rpc_call list \<Rightarrow> u256 fut"
  tr_send_raw_transaction :: "rpc_call list \<Rightarrow> h256 fut"
  tr_send_with_confirmation :: "duration \<Rightarrow> usize \<Rightarrow> rpc_call list \<Rightarrow> receipt fut"
  tr_call :: "rpc_call list \<Rightarrow> bytes fut"
  tr_serialize_filter :: "log_filter \<Rightarrow> json"

definition execute :: "(rpc_call list \<Rightarrow> 'a fut) \<Rightarrow> rpc_call \<Rightarrow> chain \<Rightarrow> 'a fut \<times> chain" where
  "execute out call c = (let h = call # ch_calls c in (out h, c\<lparr>ch_calls := h\<rparr>))"

section \<open>Requests\<close>

definition net_version :: "transport \<Rightarrow> chain \<Rightarrow> string fut \<times> chain" where
  "net_version tr = execute (tr_net_version tr) Net_version"

definition eth_get_transaction_count ::
    "transport \<Rightarrow> address \<Rightarrow> block_number option \<Rightarrow> chain \<Rightarrow> u256 fut \<times> chain" where
  "eth_get_transaction_count tr addr block =
     execute (tr_transaction_count tr) (Eth_getTransactionCount addr (unwrap_or block Pending))"

text \<open>\<open>trim_filter1\<close>: pop trailing nulls.\<close>

fun trim_filter1 :: "json list \<Rightarrow> json list" where
  "trim_filter1 vals =
     (if vals = [] then []
      else if last vals = JNull then trim_filter1 (butlast vals)
      else butlast vals @ [last vals])"

declare trim_filter1.simps [simp del]

definition trim_filter :: "(log_filter \<Rightarrow> json) \<Rightarrow> log_filter \<Rightarrow> json" where
  "trim_filter serialize flt =
     (case serialize flt of
        JObject m \<Rightarrow>
          JObject (map (\<lambda>(k, v).
            if k = ''topics'' then (case v of JArray vs \<Rightarrow> (k, JArray (trim_filter1 vs)) | _ \<Rightarrow> (k, v))
            else (k, v)) m)
      | val \<Rightarrow> val)"

definition api_logs :: "transport \<Rightarrow> log_filter \<Rightarrow> chain \<Rightarrow> log list fut \<times> chain" where
  "api_logs tr flt =
     (let flt = trim_filter (tr_serialize_filter tr) flt in execute (tr_logs tr) (Eth_getLogs flt))"

definition api_block_number :: "transport \<Rightarrow> chain \<Rightarrow> u256 fut \<times> chain" where
  "api_block_number tr = execute (tr_block_number tr) Eth_blockNumber"

definition api_balance ::
    "transport \<Rightarrow> address \<Rightarrow> block_number option \<Rightarrow> chain \<Rightarrow> u256 fut \<times> chain" where
  "api_balance tr addr block =
     execute (tr_balance tr) (Eth_getBalance addr (unwrap_or block Pending))"

definition send_raw_transaction :: "transport \<Rightarrow> bytes \<Rightarrow> chain \<Rightarrow> h256 fut \<times> chain" where
  "send_raw_transaction tr tx = execute (tr_send_raw_transaction tr) (Eth_sendRawTransaction tx)"

definition send_raw_transaction_with_confirmation ::
    "transport \<Rightarrow> bytes \<Rightarrow> duration \<Rightarrow> usize \<Rightarrow> chain \<Rightarrow> receipt fut \<times> chain" where
  "send_raw_transaction_with_confirmation tr tx poll_interval confirmations =
     execute (tr_send_with_confirmation tr poll_interval confirmations) (Eth_sendRawTransaction tx)"

definition api_call :: "transport \<Rightarrow> address \<Rightarrow> bytes \<Rightarrow> chain \<Rightarrow> bytes fut \<times> chain" where
  "api_call tr addr payload =
     execute (tr_call tr) (Eth_call \<lparr> cr_to = addr, cr_data = Some payload \<rparr> None)"

lemmas request_defs =
  net_version_def eth_get_transaction_count_def api_logs_def api_block_number_def api_balance_def
  send_raw_transaction_def send_raw_transaction_with_confirmation_def api_call_def execute_def

text \<open>The RPC method of a request, and the label the request is traced under (\<open>ApiCall::message\<close>).\<close>

fun rpc_method :: "rpc_call \<Rightarrow> string" where
  "rpc_method Net_version = ''net_version''"
| "rpc_method (Eth_getTransactionCount a b) = ''eth_getTransactionCount''"
| "rpc_method (Eth_getLogs f) = ''eth_getLogs''"
| "rpc_method Eth_blockNumber = ''eth_blockNumber''"
| "rpc_method (Eth_getBalance a b) = ''eth_getBalance''"
| "rpc_method (Eth_sendRawTransaction tx) = ''eth_sendRawTransaction''"
| "rpc_method (Eth_call r b) = ''eth_call''"

fun api_message :: "rpc_call \<Rightarrow> string" where
  "api_message Net_version = ''net_version''"
| "api_message (Eth_getTransactionCount a b) = ''net_version''"
| "api_message (Eth_getLogs f) = ''eth_getLogs''"
| "api_message Eth_blockNumber = ''eth_blockNumber''"
| "api_message (Eth_getBalance a b) = ''eth_getBalance''"
| "api_message (Eth_sendRawTransaction tx) = ''eth_sendRawTransaction''"
| "api_message (Eth_call r b) = ''eth_call''"

section \<open>Filters\<close>

definition web3_topic :: "h256 list \<Rightarrow> h256 list option" where
  "web3_topic t = (if t = [] then None else Some t)"

definition web3_filter :: "topic_filter \<Rightarrow> address list \<Rightarrow> log_filter" where
  "web3_filter flt addresses =
     default_filter\<lparr> flt_address := Some addresses,
       flt_topics := Some (web3_topic (tf_topic0 flt), web3_topic (tf_topic1 flt),
                           web3_topic (tf_topic2 flt), web3_topic (tf_topic3 flt)) \<rparr>"

section \<open>The signed hash\<close>

definition eth_data_preimage :: "bytes \<Rightarrow> bytes" where
  "eth_data_preimage data =
     ascii ([CHR 0x19] @ ''Ethereum Signed Message:'' @ [CHR 0x0A] @ decimal (length data)) @ data"

definition eth_data_hash :: "(bytes \<Rightarrow> h256) \<Rightarrow> bytes \<Rightarrow> h256" where
  "eth_data_hash keccak data = keccak (eth_data_preimage data)"

section \<open>Lemmas\<close>

text \<open>What a request does to the connection: it appends itself, and nothing else.\<close>

definition chain_extends :: "chain \<Rightarrow> chain \<Rightarrow> bool" where
  "chain_extends c c' \<longleftrightarrow> suffix (ch_calls c) (ch_calls c')"

lemma chain_extends_refl [simp, intro]: "chain_extends c c"
  by (simp add: chain_extends_def)

lemma chain_extends_trans [trans]: "chain_extends c d \<Longrightarrow> chain_extends d e \<Longrightarrow> chain_extends c e"
  by (auto simp: chain_extends_def intro: suffix_order.trans)

lemma chain_extends_nonce [simp]: "chain_extends c (d\<lparr>ch_nonce := n\<rparr>) = chain_extends c d"
  by (simp add: chain_extends_def)

lemma chain_extends_nonce_left [simp]: "chain_extends (c\<lparr>ch_nonce := n\<rparr>) d = chain_extends c d"
  by (simp add: chain_extends_def)

lemma chain_extends_mem: "chain_extends c d \<Longrightarrow> x \<in> set (ch_calls c) \<Longrightarrow> x \<in> set (ch_calls d)"
  by (auto simp: chain_extends_def dest: set_mono_suffix)

lemma execute_calls:
  "execute out call c = (f, c') \<Longrightarrow>
     ch_calls c' = call # ch_calls c \<and> ch_nonce c' = ch_nonce c \<and> f = out (ch_calls c')"
  by (auto simp: execute_def Let_def)

lemma execute_extends: "execute out call c = (f, c') \<Longrightarrow> chain_extends c c'"
  by (auto dest!: execute_calls simp: chain_extends_def intro: suffix_ConsI)

text \<open>
  Evidence in the requests of a connection. A future is \<open>awaiting\<close> a request when it is what is left
  of the replies the transport gave for it; a value is \<open>answered\<close>, an RPC error \<open>refused\<close>, when it
  is one of these replies. All of them survive later requests.
\<close>

definition awaiting :: "(rpc_call list \<Rightarrow> 'a fut) \<Rightarrow> rpc_call \<Rightarrow> chain \<Rightarrow> 'a fut \<Rightarrow> bool" where
  "awaiting out call c f \<longleftrightarrow> (\<exists>h. suffix (call # h) (ch_calls c) \<and> suffix f (out (call # h)))"

definition answered :: "(rpc_call list \<Rightarrow> 'a fut) \<Rightarrow> rpc_call \<Rightarrow> chain \<Rightarrow> 'a \<Rightarrow> bool" where
  "answered out call c v \<longleftrightarrow>
     (\<exists>h. suffix (call # h) (ch_calls c) \<and> Inner (A_Value v) \<in> set (out (call # h)))"

definition refused :: "(rpc_call list \<Rightarrow> 'a fut) \<Rightarrow> rpc_call \<Rightarrow> chain \<Rightarrow> rpc_error \<Rightarrow> bool" where
  "refused out call c e \<longleftrightarrow>
     (\<exists>h. suffix (call # h) (ch_calls c) \<and> Inner (A_Fail (W_Rpc e)) \<in> set (out (call # h)))"

lemma awaiting_extends: "awaiting out call c f \<Longrightarrow> chain_extends c d \<Longrightarrow> awaiting out call d f"
  unfolding awaiting_def chain_extends_def by (meson suffix_order.trans)

lemma answered_extends: "answered out call c v \<Longrightarrow> chain_extends c d \<Longrightarrow> answered out call d v"
  unfolding answered_def chain_extends_def by (meson suffix_order.trans)

lemma refused_extends: "refused out call c e \<Longrightarrow> chain_extends c d \<Longrightarrow> refused out call d e"
  unfolding refused_def chain_extends_def by (meson suffix_order.trans)

lemma execute_awaiting: "execute out call c = (f, d) \<Longrightarrow> awaiting out call d f"
  by (auto dest!: execute_calls simp: awaiting_def)

lemma awaiting_poll: "awaiting out call c f \<Longrightarrow> poll_fut f = (r, g) \<Longrightarrow> awaiting out call c g"
  by (cases f) (auto simp: awaiting_def dest: suffix_ConsD)

lemma awaiting_Ready:
  "awaiting out call c f \<Longrightarrow> poll_fut f = (Ok (Ready v), g) \<Longrightarrow> answered out call c v"
  by (auto dest!: poll_fut_Ready simp: awaiting_def answered_def suffix_def)

lemma awaiting_refused:
  "awaiting out call c f \<Longrightarrow> poll_fut f = (Err e, g) \<Longrightarrow> kind e = Web3 (W_Rpc k) \<Longrightarrow>
   refused out call c k"
  by (auto dest!: poll_fut_rpc_error simp: awaiting_def refused_def suffix_def)

text \<open>\<open>trim_filter1\<close> removes the trailing nulls and only those.\<close>

lemma trim_filter1_split: "\<exists>n. vals = trim_filter1 vals @ replicate n JNull"
proof (induction vals rule: trim_filter1.induct)
  case (1 vals)
  show ?case
  proof (cases "vals \<noteq> [] \<and> last vals = JNull")
    case True
    with "1.IH" obtain n where n: "butlast vals = trim_filter1 (butlast vals) @ replicate n JNull"
      by blast
    have "vals = butlast vals @ [JNull]"
      using True by (metis append_butlast_last_id)
    also have "\<dots> = trim_filter1 (butlast vals) @ replicate (Suc n) JNull"
      by (subst n) (simp flip: replicate_append_same)
    also have "trim_filter1 (butlast vals) = trim_filter1 vals"
      using True by (simp add: trim_filter1.simps [of vals])
    finally show ?thesis by blast
  next
    case False
    then have "trim_filter1 vals = vals"
      by (auto simp: trim_filter1.simps [of vals])
    then show ?thesis
      by (intro exI [of _ 0]) simp
  qed
qed

lemma trim_filter1_last: "trim_filter1 vals \<noteq> [] \<Longrightarrow> last (trim_filter1 vals) \<noteq> JNull"
proof (induction vals rule: trim_filter1.induct)
  case (1 vals)
  then show ?case
    by (auto simp: trim_filter1.simps [of vals])
qed

text \<open>The preimage of the signed hash determines the data.\<close>

lemma eth_data_preimage_inject: "eth_data_preimage a = eth_data_preimage b \<longleftrightarrow> a = b"
proof
  assume eq: "eth_data_preimage a = eth_data_preimage b"
  have "length (decimal (length a)) + length a = length (decimal (length b)) + length b"
    using arg_cong [OF eq, of length] by (simp add: eth_data_preimage_def)
  then have "length a = length b"
    using length_decimal_mono [of "length a" "length b"] length_decimal_mono [of "length b" "length a"]
    by linarith
  with eq show "a = b"
    by (simp add: eth_data_preimage_def)
qed simp

end
