(* ===== verification/LogStream.thy ===== *)
theory LogStream
  imports Api
begin

text \<open>
  The log stream of \<^verbatim>\<open>bridge/src/api.rs\<close>: it asks for the best block number at every tick of its
  timer and, when enough blocks have been confirmed since the last query, fetches the logs of
  exactly the new blocks. The properties: every poll returns; the ranges of the yielded items follow
  each other without gap or overlap from the block the stream was started after; every range was
  confirmed when it was fetched; and the logs of an item are what the node answered for its range.
\<close>

section \<open>Definitions\<close>

record log_stream_init =
  lsi_after :: u64
  lsi_filter :: log_filter
  lsi_request_timeout :: duration
  lsi_poll_interval :: duration
  lsi_confirmations :: usize

record log_stream_item =
  it_from :: u64
  it_to :: u64
  it_logs :: "log list"

datatype log_stream_state =
  LS_Wait
| LS_FetchBlockNumber "u256 fut"
| LS_FetchLogs u64 u64 "log list fut"
| LS_NextItem "log_stream_item option"

record log_stream =
  ls_interval :: "tick list"
  ls_state :: log_stream_state
  ls_after :: u64
  ls_filter :: log_filter
  ls_confirmations :: usize
  ls_request_timeout :: duration

text \<open>\<open>interval\<close> stands for the timer's \<open>timer.interval(init.poll_interval)\<close>.\<close>

definition log_stream :: "(duration \<Rightarrow> tick list) \<Rightarrow> log_stream_init \<Rightarrow> log_stream" where
  "log_stream interval init =
     \<lparr> ls_interval = interval (lsi_poll_interval init),
       ls_state = LS_Wait,
       ls_after = lsi_after init,
       ls_filter = lsi_filter init,
       ls_confirmations = lsi_confirmations init,
       ls_request_timeout = lsi_request_timeout init \<rparr>"

text \<open>The filter of one query: \<open>filter.clone().from_block(..).to_block(..).build()\<close>.\<close>

definition range_filter :: "log_filter \<Rightarrow> u64 \<Rightarrow> u64 \<Rightarrow> log_filter" where
  "range_filter flt from to =
     flt\<lparr> flt_from_block := Some (Number from), flt_to_block := Some (Number to) \<rparr>"

definition log_stream_body ::
    "transport \<Rightarrow> log_stream \<times> chain \<Rightarrow> (log_stream \<times> chain, log_stream_item option poll) ctl" where
  "log_stream_body tr = (\<lambda>(s, c).
     case ls_state s of
       LS_Wait \<Rightarrow>
         (case interval_poll (ls_interval s) of (r, iv) \<Rightarrow>
          try_stream r (Return (s\<lparr>ls_interval := iv\<rparr>, c)) (\<lambda>_.
            case api_block_number tr c of (f, d) \<Rightarrow>
              Continue (s\<lparr>ls_interval := iv, ls_state := LS_FetchBlockNumber f\<rparr>, d)))
     | LS_FetchBlockNumber f \<Rightarrow>
         (case poll_fut f of (r, g) \<Rightarrow>
          try_ready r (Return (s\<lparr>ls_state := LS_FetchBlockNumber g\<rparr>, c)) (\<lambda>block.
            let last_block = low_u64 block;
                last_confirmed_block = saturating_sub last_block (ls_confirmations s)
            in if last_confirmed_block > ls_after s
               then let from = ls_after s + 1;
                        flt = range_filter (ls_filter s) from last_confirmed_block
                    in case api_logs tr flt c of (h, d) \<Rightarrow>
                         Continue (s\<lparr>ls_state := LS_FetchLogs from last_confirmed_block h\<rparr>, d)
               else Continue (s\<lparr>ls_state := LS_Wait\<rparr>, c)))
     | LS_FetchLogs from to f \<Rightarrow>
         (case poll_fut f of (r, g) \<Rightarrow>
          try_ready r (Return (s\<lparr>ls_state := LS_FetchLogs from to g\<rparr>, c)) (\<lambda>logs.
            let item = \<lparr> it_from = from, it_to = to, it_logs = logs \<rparr>
            in Continue (s\<lparr>ls_after := to, ls_state := LS_NextItem (Some item)\<rparr>, c)))
     | LS_NextItem item \<Rightarrow>
         (case item of
            None \<Rightarrow> Continue (s\<lparr>ls_state := LS_Wait\<rparr>, c)
          | Some it \<Rightarrow> Return (s\<lparr>ls_state := LS_NextItem None\<rparr>, c) (Ok (Ready (Some it)))))"

definition log_stream_poll ::
    "transport \<Rightarrow> log_stream \<times> chain \<Rightarrow> ((log_stream \<times> chain) \<times> log_stream_item option poll) option"
where
  "log_stream_poll tr = poll_loop (log_stream_body tr)"

section \<open>Specification\<close>

text \<open>The ranges of the items follow each other from \<open>a\<close> (exclusive) to \<open>b\<close> (inclusive).\<close>

fun tiles :: "u64 \<Rightarrow> log_stream_item list \<Rightarrow> u64 \<Rightarrow> bool" where
  "tiles a [] b \<longleftrightarrow> a = b"
| "tiles a (it # its) b \<longleftrightarrow> it_from it = a + 1 \<and> a < it_to it \<and> tiles (it_to it) its b"

text \<open>An item holds what the node answered for its range, and its last block was confirmed.\<close>

definition confirmed :: "transport \<Rightarrow> usize \<Rightarrow> chain \<Rightarrow> u64 \<Rightarrow> bool" where
  "confirmed tr conf c b \<longleftrightarrow>
     (\<exists>n. answered (tr_block_number tr) Eth_blockNumber c n \<and>
          unat b = unat (low_u64 n) - unat conf)"

definition logs_query :: "transport \<Rightarrow> log_filter \<Rightarrow> u64 \<Rightarrow> u64 \<Rightarrow> rpc_call" where
  "logs_query tr flt from to =
     Eth_getLogs (trim_filter (tr_serialize_filter tr) (range_filter flt from to))"

definition item_ok :: "transport \<Rightarrow> log_filter \<Rightarrow> usize \<Rightarrow> chain \<Rightarrow> log_stream_item \<Rightarrow> bool" where
  "item_ok tr flt conf c it \<longleftrightarrow>
     answered (tr_logs tr) (logs_query tr flt (it_from it) (it_to it)) c (it_logs it) \<and>
     confirmed tr conf c (it_to it)"

text \<open>The invariant of the stream after it has yielded \<open>its\<close>.\<close>

definition ls_inv ::
    "transport \<Rightarrow> u64 \<Rightarrow> log_filter \<Rightarrow> usize \<Rightarrow> log_stream_item list \<Rightarrow> log_stream \<times> chain \<Rightarrow> bool" where
  "ls_inv tr a flt conf its = (\<lambda>(s, c).
     ls_filter s = flt \<and> ls_confirmations s = conf \<and> (\<forall>it\<in>set its. item_ok tr flt conf c it) \<and>
     (case ls_state s of
        LS_Wait \<Rightarrow> tiles a its (ls_after s)
      | LS_FetchBlockNumber f \<Rightarrow>
          tiles a its (ls_after s) \<and> awaiting (tr_block_number tr) Eth_blockNumber c f
      | LS_FetchLogs from to f \<Rightarrow>
          tiles a its (ls_after s) \<and> from = ls_after s + 1 \<and> ls_after s < to \<and>
          confirmed tr conf c to \<and> awaiting (tr_logs tr) (logs_query tr flt from to) c f
      | LS_NextItem None \<Rightarrow> tiles a its (ls_after s)
      | LS_NextItem (Some it) \<Rightarrow> tiles a (its @ [it]) (ls_after s) \<and> item_ok tr flt conf c it))"

definition ls_rely :: "log_stream \<times> chain \<Rightarrow> log_stream \<times> chain \<Rightarrow> bool" where
  "ls_rely = (\<lambda>(s, c) (s', c'). s' = s \<and> chain_extends c c')"

definition ls_rank :: "log_stream \<times> chain \<Rightarrow> nat" where
  "ls_rank = (\<lambda>(s, c). 4 * length (ls_interval s) +
     (case ls_state s of LS_Wait \<Rightarrow> 0 | LS_FetchBlockNumber _ \<Rightarrow> 3 | LS_FetchLogs _ _ _ \<Rightarrow> 2
      | LS_NextItem _ \<Rightarrow> 1))"

section \<open>Lemmas\<close>

lemma tiles_append: "tiles a (xs @ ys) b \<longleftrightarrow> (\<exists>m. tiles a xs m \<and> tiles m ys b)"
  by (induction xs arbitrary: a) auto

lemma confirmed_extends: "confirmed tr conf c b \<Longrightarrow> chain_extends c d \<Longrightarrow> confirmed tr conf d b"
  unfolding confirmed_def by (blast intro: answered_extends)

lemma item_ok_extends: "item_ok tr flt conf c it \<Longrightarrow> chain_extends c d \<Longrightarrow> item_ok tr flt conf d it"
  unfolding item_ok_def by (blast intro: answered_extends confirmed_extends)

lemma api_block_number_awaiting:
  "api_block_number tr c = (f, d) \<Longrightarrow>
     awaiting (tr_block_number tr) Eth_blockNumber d f \<and> chain_extends c d"
  unfolding api_block_number_def by (blast intro: execute_awaiting execute_extends)

lemma api_logs_awaiting:
  "api_logs tr (range_filter flt from to) c = (f, d) \<Longrightarrow>
     awaiting (tr_logs tr) (logs_query tr flt from to) d f \<and> chain_extends c d"
  unfolding api_logs_def logs_query_def Let_def by (blast intro: execute_awaiting execute_extends)

text \<open>The other users of the connection keep the invariant.\<close>

lemma ls_inv_extends: "ls_inv tr a flt conf its (s, c) \<Longrightarrow> chain_extends c d \<Longrightarrow> ls_inv tr a flt conf its (s, d)"
  unfolding ls_inv_def
  by (auto intro: awaiting_extends confirmed_extends item_ok_extends
      split: log_stream_state.splits option.splits)

text \<open>How one iteration moves, by state.\<close>

lemma ls_body_Continue:
  assumes "log_stream_body tr (s, c) = Continue (s', c')"
  obtains
    (tick) f iv where "ls_state s = LS_Wait" "ls_interval s = T_Tick # iv"
      "api_block_number tr c = (f, c')"
      "s' = s\<lparr>ls_interval := iv, ls_state := LS_FetchBlockNumber f\<rparr>"
  | (fetch) f n g h where "ls_state s = LS_FetchBlockNumber f" "poll_fut f = (Ok (Ready n), g)"
      "ls_after s < saturating_sub (low_u64 n) (ls_confirmations s)"
      "api_logs tr (range_filter (ls_filter s) (ls_after s + 1)
         (saturating_sub (low_u64 n) (ls_confirmations s))) c = (h, c')"
      "s' = s\<lparr>ls_state := LS_FetchLogs (ls_after s + 1)
         (saturating_sub (low_u64 n) (ls_confirmations s)) h\<rparr>"
  | (nothing_new) f n g where "ls_state s = LS_FetchBlockNumber f" "poll_fut f = (Ok (Ready n), g)"
      "\<not> ls_after s < saturating_sub (low_u64 n) (ls_confirmations s)"
      "s' = s\<lparr>ls_state := LS_Wait\<rparr>" "c' = c"
  | (fetched) lo hi f ls g where "ls_state s = LS_FetchLogs lo hi f"
      "poll_fut f = (Ok (Ready ls), g)" "c' = c"
      "s' = s\<lparr>ls_after := hi, ls_state := LS_NextItem (Some \<lparr>it_from = lo, it_to = hi, it_logs = ls\<rparr>)\<rparr>"
  | (again) "ls_state s = LS_NextItem None" "s' = s\<lparr>ls_state := LS_Wait\<rparr>" "c' = c"
proof (cases "ls_state s")
  case LS_Wait
  then show ?thesis
    using assms tick
    by (auto simp: log_stream_body_def dest!: interval_poll_Some elim!: try_stream.elims
        split: prod.splits)
next
  case (LS_FetchBlockNumber f)
  then show ?thesis
    using assms fetch nothing_new
    by (auto simp: log_stream_body_def Let_def elim!: try_ready.elims split: prod.splits if_splits)
next
  case (LS_FetchLogs lo hi f)
  then show ?thesis
    using assms fetched
    by (auto simp: log_stream_body_def Let_def elim!: try_ready.elims split: prod.splits)
next
  case (LS_NextItem it)
  then show ?thesis
    using assms again by (auto simp: log_stream_body_def split: option.splits)
qed

lemma ls_body_not_Diverge: "log_stream_body tr s \<noteq> Diverge"
  by (auto simp: log_stream_body_def Let_def elim!: try_ready.elims try_stream.elims
      split: prod.splits log_stream_state.splits option.splits if_splits)

text \<open>Every iteration keeps the invariant; a return keeps it and accounts for the item.\<close>

definition ls_post ::
    "transport \<Rightarrow> u64 \<Rightarrow> log_filter \<Rightarrow> usize \<Rightarrow> log_stream_item list \<Rightarrow>
     log_stream \<times> chain \<Rightarrow> log_stream_item option poll \<Rightarrow> bool" where
  "ls_post tr a flt conf its t r \<longleftrightarrow>
     (\<forall>it. r = Ok (Ready (Some it)) \<longrightarrow> ls_inv tr a flt conf (its @ [it]) t) \<and>
     (r = Ok NotReady \<or> r = Ok (Ready None) \<longrightarrow> ls_inv tr a flt conf its t)"

lemma ls_continue_inv:
  assumes "ls_inv tr a flt conf its (s, c)" and "log_stream_body tr (s, c) = Continue (s', c')"
  shows "ls_inv tr a flt conf its (s', c')"
  using assms(2)
proof (cases rule: ls_body_Continue)
  case (tick f iv)
  then have "awaiting (tr_block_number tr) Eth_blockNumber c' f" "chain_extends c c'"
    by (auto dest: api_block_number_awaiting)
  moreover have "ls_inv tr a flt conf its (s, c')"
    using assms(1) calculation(2) by (rule ls_inv_extends)
  ultimately show ?thesis
    using tick(1,4) by (auto simp: ls_inv_def)
next
  case (fetch f n g h)
  let ?to = "saturating_sub (low_u64 n) (ls_confirmations s)"
  have flt: "ls_filter s = flt" "ls_confirmations s = conf"
    using assms(1) by (auto simp: ls_inv_def)
  then have h: "awaiting (tr_logs tr) (logs_query tr flt (ls_after s + 1) ?to) c' h" "chain_extends c c'"
    using fetch(4) by (auto dest: api_logs_awaiting)
  have "awaiting (tr_block_number tr) Eth_blockNumber c f"
    using assms(1) fetch(1) by (auto simp: ls_inv_def)
  then have "confirmed tr conf c ?to"
    using fetch(2) flt(2) by (auto simp: confirmed_def dest: awaiting_Ready)
  then have "confirmed tr conf c' ?to"
    using h(2) by (rule confirmed_extends)
  moreover have "ls_inv tr a flt conf its (s, c')"
    using assms(1) h(2) by (rule ls_inv_extends)
  ultimately show ?thesis
    using fetch(1,3,5) h(1) by (auto simp: ls_inv_def)
next
  case (nothing_new f n g)
  then show ?thesis
    using assms(1) by (auto simp: ls_inv_def)
next
  case (fetched lo hi f ls g)
  then have "answered (tr_logs tr) (logs_query tr flt lo hi) c ls"
    using assms(1) by (auto simp: ls_inv_def dest: awaiting_Ready)
  then show ?thesis
    using assms(1) fetched by (auto simp: ls_inv_def item_ok_def tiles_append)
next
  case again
  then show ?thesis
    using assms(1) by (auto simp: ls_inv_def)
qed

lemma ls_return_post:
  assumes "ls_inv tr a flt conf its (s, c)" and "log_stream_body tr (s, c) = Return t r"
  shows "ls_post tr a flt conf its t r"
proof (cases "ls_state s")
  case LS_Wait
  then show ?thesis
    using assms
    by (auto simp: ls_post_def log_stream_body_def ls_inv_def elim!: try_stream.elims split: prod.splits)
next
  case (LS_FetchBlockNumber f)
  then show ?thesis
    using assms
    by (auto simp: ls_post_def log_stream_body_def ls_inv_def Let_def dest: awaiting_poll
        elim!: try_ready.elims split: prod.splits if_splits)
next
  case (LS_FetchLogs lo hi f)
  then show ?thesis
    using assms
    by (auto simp: ls_post_def log_stream_body_def ls_inv_def Let_def dest: awaiting_poll
        elim!: try_ready.elims split: prod.splits)
next
  case (LS_NextItem it)
  then show ?thesis
    using assms
    by (auto simp: ls_post_def log_stream_body_def ls_inv_def split: option.splits)
qed

interpretation log_stream_loop:
  poll_body "log_stream_body tr" "ls_inv tr a flt conf its" "ls_post tr a flt conf its"
  for tr a flt conf its
proof
  show "ls_inv tr a flt conf its s \<Longrightarrow> log_stream_body tr s = Continue t \<Longrightarrow> ls_inv tr a flt conf its t"
    for s t by (cases s; cases t) (auto intro: ls_continue_inv)
  show "ls_inv tr a flt conf its s \<Longrightarrow> log_stream_body tr s = Return t r \<Longrightarrow> ls_post tr a flt conf its t r"
    for s t r by (cases s) (auto intro: ls_return_post)
qed

text \<open>A poll only adds requests to the connection.\<close>

lemma ls_body_extends:
  "log_stream_body tr (s, c) = Continue (s', c') \<Longrightarrow> chain_extends c c'"
  "log_stream_body tr (s, c) = Return (s', c') r \<Longrightarrow> c' = c"
  by (auto elim!: ls_body_Continue dest!: api_block_number_awaiting api_logs_awaiting)
    (auto simp: log_stream_body_def Let_def elim!: try_ready.elims try_stream.elims
      split: prod.splits log_stream_state.splits option.splits if_splits)

interpretation log_stream_requests:
  poll_body "log_stream_body tr" "\<lambda>(s, c). chain_extends c0 c" "\<lambda>(s, c) r. chain_extends c0 c" for tr c0
  by unfold_locales (auto dest: ls_body_extends intro: chain_extends_trans)

lemma log_stream_poll_extends:
  "log_stream_poll tr (s, c) = Some ((s', c'), r) \<Longrightarrow> chain_extends c c'"
  using log_stream_requests.poll_post [of tr "(s, c)" "(s', c')" r c] by (simp add: log_stream_poll_def)

interpretation log_stream_total: poll_ranked "log_stream_body tr" "\<lambda>_. True" ls_rank for tr
proof
  show "log_stream_body tr s \<noteq> Diverge" for s
    by (rule ls_body_not_Diverge)
  show "log_stream_body tr s = Continue t \<Longrightarrow> True \<and> ls_rank t < ls_rank s" for s t
    by (cases s; cases t) (auto simp: ls_rank_def elim!: ls_body_Continue)
qed

interpretation log_stream_items:
  stream_inv "log_stream_poll tr" ls_rely "ls_inv tr a flt conf" for tr a flt conf
proof
  show "ls_inv tr a flt conf xs s \<Longrightarrow> log_stream_poll tr s = Some (t, Ok (Ready (Some x))) \<Longrightarrow>
      ls_inv tr a flt conf (xs @ [x]) t" for xs s t x
    using log_stream_loop.poll_post [of tr s t] by (auto simp: log_stream_poll_def ls_post_def)
  show "ls_inv tr a flt conf xs s \<Longrightarrow> log_stream_poll tr s = Some (t, Ok NotReady) \<Longrightarrow>
      ls_inv tr a flt conf xs t" for xs s t
    using log_stream_loop.poll_post [of tr s t] by (auto simp: log_stream_poll_def ls_post_def)
  show "ls_inv tr a flt conf xs s \<Longrightarrow> ls_rely s t \<Longrightarrow> ls_inv tr a flt conf xs t" for xs s t
    by (auto simp: ls_rely_def intro: ls_inv_extends)
qed

lemma log_stream_idle:
  assumes "ls_inv tr a flt conf its (s, c)" and "log_stream_poll tr (s, c) = Some (t, r)"
    and "r = Ok NotReady \<or> r = Ok (Ready None)"
  shows "ls_inv tr a flt conf its t"
  using log_stream_loop.poll_post [of tr "(s, c)" t r] assms by (auto simp: log_stream_poll_def ls_post_def)

lemma ls_inv_start: "ls_inv tr (lsi_after init) (lsi_filter init) (lsi_confirmations init) []
    (log_stream interval init, c)"
  by (simp add: ls_inv_def log_stream_def)

lemma log_stream_poll_total: "\<exists>t r. log_stream_poll tr s = Some (t, r)"
  unfolding log_stream_poll_def by (rule log_stream_total.poll_returns) simp

lemma log_stream_poll_not_None [simp]: "log_stream_poll tr s \<noteq> None"
  using log_stream_poll_total [of tr s] by auto

lemma ls_inv_good:
  "ls_inv tr a flt conf its (s, c) \<Longrightarrow> (\<exists>b. tiles a its b) \<and> (\<forall>it\<in>set its. item_ok tr flt conf c it)"
  by (auto simp: ls_inv_def tiles_append split: log_stream_state.splits option.splits)

text \<open>Where a tiling ends.\<close>

lemma tiles_end: "tiles a its b \<Longrightarrow> b = (if its = [] then a else it_to (last its))"
  by (induction its arbitrary: a) auto

lemma tiles_le: "tiles a its b \<Longrightarrow> a \<le> b"
proof (induction its arbitrary: a)
  case (Cons it its)
  then have "a < it_to it" "it_to it \<le> b" by auto
  then show ?case by simp
qed simp

lemma tiles_first:
  assumes "tiles a (it # its) b"
  shows "it_from it \<le> n \<longleftrightarrow> a < n" and "a < it_to it" and "it_to it \<le> b"
  using assms unat_Suc_no_wrap [of a "it_to it"]
  by (auto simp: word_le_nat_alt word_less_nat_alt dest: tiles_le)

lemma tiles_range:
  assumes "tiles a its b" and "it \<in> set its"
  shows "a < it_from it \<and> it_from it \<le> it_to it \<and> it_to it \<le> b"
  using assms
proof (induction its arbitrary: a)
  case (Cons x its)
  note first = tiles_first [OF Cons.prems(1)]
  show ?case
  proof (cases "it = x")
    case True
    then show ?thesis using first(1) [of "it_from x"] first(1) [of "it_to x"] first(2,3) by simp
  next
    case False
    then show ?thesis using Cons first(2) by (auto intro: order.strict_trans)
  qed
qed simp

lemma tiles_cover:
  "tiles a its b \<Longrightarrow> a < n \<and> n \<le> b \<longleftrightarrow> (\<exists>it\<in>set its. it_from it \<le> n \<and> n \<le> it_to it)"
proof (induction its arbitrary: a)
  case (Cons it its)
  note first = tiles_first [OF Cons.prems]
  have IH: "it_to it < n \<and> n \<le> b \<longleftrightarrow> (\<exists>it\<in>set its. it_from it \<le> n \<and> n \<le> it_to it)"
    using Cons by simp
  show ?case
  proof (cases "n \<le> it_to it")
    case True
    then show ?thesis
      using first(1) [of n] first(3) IH by auto
  next
    case False
    then have "it_to it < n" and "a < n"
      using first(2) by auto
    then show ?thesis
      using False IH by simp
  qed
qed (auto dest: leD)

lemma tiles_disjoint:
  assumes "tiles a its b" and "i < j" and "j < length its"
  shows "it_to (its ! i) < it_from (its ! j)"
  using assms
proof (induction its arbitrary: a i j)
  case (Cons it its)
  obtain k where k: "j = Suc k" "its ! k \<in> set its"
    using Cons.prems by (cases j) auto
  then show ?case
    using Cons tiles_range [of "it_to it" its b "its ! k"] by (cases i) auto
qed simp

lemma tiles_count:
  assumes "tiles a its b"
  shows "card {i. i < length its \<and> it_from (its ! i) \<le> n \<and> n \<le> it_to (its ! i)} =
    (if a < n \<and> n \<le> b then 1 else 0)" (is "card ?I = _")
proof (cases "a < n \<and> n \<le> b")
  case True
  then obtain i where i: "i \<in> ?I"
    using tiles_cover [OF assms, of n] by (auto simp: in_set_conv_nth)
  have "j = i" if "j \<in> ?I" for j
    using that i tiles_disjoint [OF assms, of i j] tiles_disjoint [OF assms, of j i]
    by (cases i j rule: linorder_cases) auto
  with i have "?I = {i}" by blast
  then have "card ?I = 1" by (simp only: card.insert finite.emptyI card.empty) simp
  then show ?thesis using True by simp
next
  case False
  then have "?I = {}"
    using tiles_cover [OF assms, of n] nth_mem by blast
  then have "card ?I = 0" by (simp only: card.empty)
  then show ?thesis using False by (simp only: if_False)
qed

lemma log_stream_run_tiles:
  assumes "stream_run (log_stream_poll tr) ls_rely (log_stream interval init, c) its (s, d)"
  obtains b where "tiles (lsi_after init) its b"
    "\<forall>it\<in>set its. item_ok tr (lsi_filter init) (lsi_confirmations init) d it"
  using log_stream_items.run_inv [OF assms ls_inv_start] by (auto dest: ls_inv_good)

section \<open>Properties\<close>

text \<open>
  C16. Whatever the node answers, whatever the timer does and whatever else is requested on the
  connection in between: the items a log stream has yielded cover consecutive block ranges, the
  first starting right after the block the stream was created with, so no block is skipped and none
  is scanned twice; and each item holds exactly what the node answered to the query for its range,
  whose last block had the required number of confirmations by an answer of the node.
\<close>

theorem log_stream_tiles:
  assumes "stream_run (log_stream_poll tr) ls_rely (log_stream interval init, c) its (s, d)"
  shows "\<exists>b. tiles (lsi_after init) its b \<and>
    (\<forall>it\<in>set its. item_ok tr (lsi_filter init) (lsi_confirmations init) d it)"
  using log_stream_run_tiles [OF assms] by blast

text \<open>
  The block ranges of the items of a log stream partition the blocks it has got through: a block
  lies in the range of exactly one item if it is after the starting block and not after the block
  reached, and in the range of none otherwise.
\<close>

lemma log_stream_blocks_once:
  assumes "stream_run (log_stream_poll tr) ls_rely (log_stream interval init, c) its (s, d)"
  shows "\<exists>b. \<forall>n. card {i. i < length its \<and> it_from (its ! i) \<le> n \<and> n \<le> it_to (its ! i)} =
    (if lsi_after init < n \<and> n \<le> b then 1 else 0)"
  by (rule log_stream_run_tiles [OF assms]) (use tiles_count in blast)


text \<open>
  C32. A poll that finds a tick of the timer, a best block far enough ahead and the logs yields the
  item of exactly the new confirmed blocks, makes these two requests and no others, and remembers
  the last block of the range.
\<close>

theorem log_stream_poll_yields:
  assumes "ls_state s = LS_Wait" and "ls_interval s = T_Tick # iv"
    and "tr_block_number tr (Eth_blockNumber # ch_calls c) = Inner (A_Value n) # rs"
    and "to = saturating_sub (low_u64 n) (ls_confirmations s)" and "ls_after s < to"
    and "calls = logs_query tr (ls_filter s) (ls_after s + 1) to # Eth_blockNumber # ch_calls c"
    and "tr_logs tr calls = Inner (A_Value lgs) # qs"
  shows "log_stream_poll tr (s, c) = Some (
     (s\<lparr>ls_interval := iv, ls_after := to, ls_state := LS_NextItem None\<rparr>, c\<lparr>ch_calls := calls\<rparr>),
     Ok (Ready (Some \<lparr> it_from = ls_after s + 1, it_to = to, it_logs = lgs \<rparr>)))"
  using assms
  by (simp add: log_stream_poll_def poll_loop.simps log_stream_body_def request_defs logs_query_def Let_def)

end
