(* ===== verification/Database.thy ===== *)
theory Database
  imports Config
begin

text \<open>
  \<^verbatim>\<open>bridge/src/database.rs\<close>: the progress record of the bridge and its file. TOML serialization is
  a parameter (\<open>to_toml\<close>, \<open>from_toml\<close>); what is modelled is what the program does with it: how a
  missing or unreadable file is reported, and how a file is written.
\<close>

record database =
  home_contract_address :: address
  foreign_contract_address :: address
  home_deploy :: "u64 option"
  foreign_deploy :: "u64 option"
  checked_deposit_relay :: u64
  checked_withdraw_relay :: u64
  checked_withdraw_confirm :: u64

text \<open>\<open>#[derive(Default)]\<close>.\<close>

definition default_database :: database where
  "default_database =
     \<lparr> home_contract_address = 0, foreign_contract_address = 0, home_deploy = None,
       foreign_deploy = None, checked_deposit_relay = 0, checked_withdraw_relay = 0,
       checked_withdraw_confirm = 0 \<rparr>"

text \<open>\<open>impl FromStr\<close> and \<open>impl Display\<close>.\<close>

definition database_from_str :: "(string \<Rightarrow> string + database) \<Rightarrow> string \<Rightarrow> database result" where
  "database_from_str from_toml s =
     (case from_toml s of
        Inl e \<Rightarrow> Err (chain_err (from_kind (Toml e)) ''Cannot parse database'')
      | Inr d \<Rightarrow> Ok d)"

definition database_to_string :: "(database \<Rightarrow> string) \<Rightarrow> database \<Rightarrow> string" where
  "database_to_string to_toml d = to_toml d"

text \<open>
  \<open>Database::load\<close>. A file system answers an open with an error or a file, and a read with an error
  or its contents; \<open>show_path\<close> is the debug form of a path.
\<close>

definition database_load ::
    "(string \<Rightarrow> string + database) \<Rightarrow> (path \<Rightarrow> string) \<Rightarrow>
     (path \<Rightarrow> io_error + (io_error + string)) \<Rightarrow> path \<Rightarrow> database result" where
  "database_load from_toml show_path open_file p =
     (case open_file p of
        Inl err \<Rightarrow>
          if io_kind err = NotFound then Err (from_kind (MissingFile (show_path p)))
          else Err (chain_err (from_kind (Io err)) ''Cannot open database'')
      | Inr (Inl err) \<Rightarrow> Err (from_kind (Io err))
      | Inr (Inr buffer) \<Rightarrow> database_from_str from_toml buffer)"

text \<open>
  \<open>Database::save\<close> writes the printed database to a writer. For a file opened at its start without
  truncation the written text replaces a prefix of the old contents (\<open>write_all\<close>). \<open>io\<close> is the
  outcome of the write: it succeeds, or it fails after some characters have been written.
\<close>

definition overwrite :: "string \<Rightarrow> string \<Rightarrow> string" where
  "overwrite new old = new @ drop (length new) old"

definition database_save ::
    "(database \<Rightarrow> string) \<Rightarrow> (io_error \<times> nat) option \<Rightarrow> database \<Rightarrow> string \<Rightarrow> unit result \<times> string"
where
  "database_save to_toml io d old =
     (let text = database_to_string to_toml d in
      (case io of
         Some (e, written) \<Rightarrow> (Err (from_kind (Io e)), overwrite (take written text) old)
       | None \<Rightarrow> (Ok (), overwrite text old)))"

lemma overwrite_exact: "length old \<le> length new \<Longrightarrow> overwrite new old = new"
  by (simp add: overwrite_def)

lemma overwrite_stale: "length new < length old \<Longrightarrow> overwrite new old \<noteq> new"
  by (simp add: overwrite_def)

end
