(* ===== verification/App.thy ===== *)
theory App
  imports LogStream Database
begin

text \<open>
  \<^verbatim>\<open>bridge/src/app.rs\<close> (the \<open>App\<close> every component holds) and \<^verbatim>\<open>bridge/src/transaction.rs\<close>, with the
  state the components share. The parts of \<open>App\<close> that other libraries implement (connections,
  timer, keystore, transaction encoding, hashing) are fields holding arbitrary functions.
\<close>

section \<open>Transactions\<close>

text \<open>\<open>ethcore_transaction::{Action, Transaction}\<close>.\<close>

datatype action = Create | Call address

record transaction =
  tx_nonce :: u256
  tx_gas_price :: u256
  tx_gas :: u256
  tx_action :: action
  tx_value :: u256
  tx_data :: bytes

type_synonym ec_signature = bytes
type_synonym h520 = "520 word"

record app =
  app_config :: config
  app_database_path :: path
  app_home :: transport
  app_foreign :: transport
  app_contracts :: contracts
  app_timer_interval :: "string \<Rightarrow> duration \<Rightarrow> tick list"
  app_keystore_sign :: "address \<Rightarrow> h256 \<Rightarrow> string + ec_signature"
  app_into_electrum :: "ec_signature \<Rightarrow> h520"
  app_tx_hash :: "transaction \<Rightarrow> u64 \<Rightarrow> h256"
  app_tx_rlp :: "transaction \<Rightarrow> ec_signature \<Rightarrow> u64 \<Rightarrow> bytes option"
  app_keccak :: "bytes \<Rightarrow> h256"
  app_wakeups :: "rpc_call list \<Rightarrow> nat list list"
  app_log_info :: bool

text \<open>
  \<open>prepare_raw_transaction\<close>: hash, sign, attach the signature and RLP-encode.
  \<open>SignedTransaction::new\<close> rejects a signature no key can have made; \<open>unwrap\<close> then panics.
\<close>

definition prepare_raw_transaction :: "transaction \<Rightarrow> app \<Rightarrow> node \<Rightarrow> u64 \<Rightarrow> bytes result" where
  "prepare_raw_transaction tx app node chain_id =
     (let hash = app_tx_hash app tx chain_id in
      (case app_keystore_sign app (n_account node) hash of
         Inl e \<Rightarrow> Err (from_kind (SignError e))
       | Inr sig \<Rightarrow>
           expect ''called `Result::unwrap()` on an `Err` value'' (app_tx_rlp app tx sig chain_id)))"

section \<open>Shared state\<close>

text \<open>
  The cells behind \<open>Arc\<close>s that the streams of one bridge share: the two connections with their
  nonces, the two known balances, the two gas prices, and the shutdown flag.
\<close>

record world =
  w_home :: chain
  w_foreign :: chain
  w_home_balance :: "u256 option"
  w_foreign_balance :: "u256 option"
  w_home_gas_price :: u64
  w_foreign_gas_price :: u64
  w_running :: bool

text \<open>The cells other than the connections, which no relay writes.\<close>

definition cells :: "world \<Rightarrow> u256 option \<times> u256 option \<times> u64 \<times> u64 \<times> bool" where
  "cells w = (w_home_balance w, w_foreign_balance w, w_home_gas_price w, w_foreign_gas_price w, w_running w)"

lemma cells_chains [simp]: "cells (w\<lparr>w_home := c\<rparr>) = cells w" "cells (w\<lparr>w_foreign := c\<rparr>) = cells w"
  by (simp_all add: cells_def)

text \<open>What other streams may do between two polls of one of them: anything but unmake requests.\<close>

definition world_extends :: "world \<Rightarrow> world \<Rightarrow> bool" where
  "world_extends w w' \<longleftrightarrow>
     chain_extends (w_home w) (w_home w') \<and> chain_extends (w_foreign w) (w_foreign w')"

lemma world_extends_refl [simp, intro]: "world_extends w w"
  by (simp add: world_extends_def)

lemma world_extends_trans [trans]: "world_extends u v \<Longrightarrow> world_extends v w \<Longrightarrow> world_extends u w"
  by (auto simp: world_extends_def intro: chain_extends_trans)

lemma world_extends_home [simp]:
  "chain_extends (w_home w) c \<Longrightarrow> world_extends w (w\<lparr>w_home := c\<rparr>)"
  by (simp add: world_extends_def)

lemma world_extends_foreign [simp]:
  "chain_extends (w_foreign w) c \<Longrightarrow> world_extends w (w\<lparr>w_foreign := c\<rparr>)"
  by (simp add: world_extends_def)

end
