(* ===== verification/Nonce.thy ===== *)
theory Nonce
  imports App
begin

text \<open>
  \<^verbatim>\<open>bridge/src/bridge/nonce.rs\<close>: sending a transaction under the nonce the node's users share. A
  check takes the shared nonce and advances the cell, signs and sends; when the node answers that
  the nonce is stale, the check asks the node for the current one and sends again.
\<close>

section \<open>Transaction senders\<close>

text \<open>The trait \<open>TransactionSender\<close> and its two implementations.\<close>

record 't sender =
  se_send :: "bytes \<Rightarrow> chain \<Rightarrow> 't fut \<times> chain"
  se_ignore :: "h256 \<Rightarrow> 't"

definition SendRawTransaction :: "transport \<Rightarrow> h256 sender" where
  "SendRawTransaction tr = \<lparr> se_send = send_raw_transaction tr, se_ignore = (\<lambda>hash. hash) \<rparr>"

definition TransactionWithConfirmation :: "transport \<Rightarrow> duration \<Rightarrow> usize \<Rightarrow> receipt sender" where
  "TransactionWithConfirmation tr poll_interval confirmations =
     \<lparr> se_send = (\<lambda>tx. send_raw_transaction_with_confirmation tr tx poll_interval confirmations),
       se_ignore = (\<lambda>hash. default_receipt\<lparr>rc_transaction_hash := hash\<rparr>) \<rparr>"

text \<open>
  The contract of the trait: sending is one raw-transaction request, answered by \<open>out\<close>, and touches
  nothing else.
\<close>

locale transaction_sender =
  fixes se :: "'t sender"
    and out :: "rpc_call list \<Rightarrow> 't fut"
  assumes send_execute: "se_send se raw = execute out (Eth_sendRawTransaction raw)"
begin

lemma send_calls:
  "se_send se raw c = (f, d) \<Longrightarrow>
     ch_calls d = Eth_sendRawTransaction raw # ch_calls c \<and> ch_nonce d = ch_nonce c"
  by (auto simp: send_execute dest: execute_calls)

lemma send_extends: "se_send se raw c = (f, d) \<Longrightarrow> chain_extends c d"
  by (auto simp: send_execute dest: execute_extends)

lemma send_awaiting: "se_send se raw c = (f, d) \<Longrightarrow> awaiting out (Eth_sendRawTransaction raw) d f"
  by (auto simp: send_execute dest: execute_awaiting)

end

interpretation raw_sender: transaction_sender "SendRawTransaction tr" "tr_send_raw_transaction tr" for tr
  by unfold_locales (simp add: SendRawTransaction_def send_raw_transaction_def)

interpretation confirmed_sender:
  transaction_sender "TransactionWithConfirmation tr poll_interval confirmations"
    "tr_send_with_confirmation tr poll_interval confirmations"
  for tr poll_interval confirmations
  by unfold_locales
    (simp add: TransactionWithConfirmation_def send_raw_transaction_with_confirmation_def)

section \<open>The nonce check\<close>

datatype 't nonce_check_state =
  NC_Ready
| NC_Reacquire
| NC_NonceRequest "u256 fut"
| NC_Nonce u256
| NC_TransactionRequest "'t fut"

record 't nonce_check =
  nc_state :: "'t nonce_check_state"
  nc_node :: node
  nc_transaction :: transaction
  nc_chain_id :: u64

definition send_transaction_with_nonce :: "node \<Rightarrow> transaction \<Rightarrow> u64 \<Rightarrow> 't nonce_check" where
  "send_transaction_with_nonce node tx chain_id =
     \<lparr> nc_state = NC_Ready, nc_node = node, nc_transaction = tx, nc_chain_id = chain_id \<rparr>"

text \<open>\<open>rpc_err.code == ErrorCode::ServerError(-32010) && rpc_err.message.ends_with(text)\<close>.\<close>

definition server_error_ends :: "rpc_error \<Rightarrow> string \<Rightarrow> bool" where
  "server_error_ends e text \<longleftrightarrow> rpc_code e = ServerError (-32010) \<and> ends_with (rpc_message e) text"

definition nonce_check_body ::
    "app \<Rightarrow> transport \<Rightarrow> 't sender \<Rightarrow> 't nonce_check \<times> chain \<Rightarrow> ('t nonce_check \<times> chain, 't poll) ctl"
where
  "nonce_check_body app tr se = (\<lambda>(s, c).
     case nc_state s of
       NC_Ready \<Rightarrow>
         (let result = NC_Nonce (ch_nonce c);
              d = c\<lparr>ch_nonce := ch_nonce c + 1\<rparr>
          in Continue (s\<lparr>nc_state := result\<rparr>, d))
     | NC_Reacquire \<Rightarrow>
         (case eth_get_transaction_count tr (n_account (nc_node s)) None c of (f, d) \<Rightarrow>
            Continue (s\<lparr>nc_state := NC_NonceRequest f\<rparr>, d))
     | NC_NonceRequest f \<Rightarrow>
         (case poll_fut f of (r, g) \<Rightarrow>
          try_ready r (Return (s\<lparr>nc_state := NC_NonceRequest g\<rparr>, c)) (\<lambda>nonce.
            Continue (s\<lparr>nc_state := NC_Nonce nonce\<rparr>, c\<lparr>ch_nonce := nonce\<rparr>)))
     | NC_Nonce nonce \<Rightarrow>
         (let tx = (nc_transaction s)\<lparr>tx_nonce := nonce\<rparr>;
              s = s\<lparr>nc_transaction := tx\<rparr>
          in case prepare_raw_transaction tx app (nc_node s) (nc_chain_id s) of
               Ok raw \<Rightarrow> (case se_send se raw c of (f, d) \<Rightarrow>
                            Continue (s\<lparr>nc_state := NC_TransactionRequest f\<rparr>, d))
             | Err e \<Rightarrow> Return (s, c) (Err e)
             | Panic m \<Rightarrow> Return (s, c) (Panic m))
     | NC_TransactionRequest f \<Rightarrow>
         (case poll_fut f of (r, g) \<Rightarrow>
          let s = s\<lparr>nc_state := NC_TransactionRequest g\<rparr> in
          case r of
            Ok (Ready t) \<Rightarrow> Return (s, c) (Ok (Ready t))
          | Ok NotReady \<Rightarrow> Return (s, c) (Ok NotReady)
          | Err e \<Rightarrow>
              (case kind e of
                 Web3 (W_Rpc rpc_err) \<Rightarrow>
                   if server_error_ends rpc_err ''incrementing the nonce.''
                   then Continue (s\<lparr>nc_state := NC_Reacquire\<rparr>, c)
                   else if server_error_ends rpc_err ''already imported.''
                   then Return (s, c)
                     (Ok (Ready (se_ignore se (app_tx_hash app (nc_transaction s) (nc_chain_id s)))))
                   else Return (s, c) (Err (from_kind (Web3 (W_Rpc rpc_err))))
               | _ \<Rightarrow> Return (s, c) (Err e))
          | Panic m \<Rightarrow> Return (s, c) (Panic m)))"

definition nonce_check_poll ::
    "app \<Rightarrow> transport \<Rightarrow> 't sender \<Rightarrow> 't nonce_check \<times> chain \<Rightarrow>
     (('t nonce_check \<times> chain) \<times> 't poll) option" where
  "nonce_check_poll app tr se = poll_loop (nonce_check_body app tr se)"

section \<open>Invariant\<close>

text \<open>
  The node has accepted a transaction when, for some raw form of it (with whatever nonce it was
  given), it answered a send with a value, or with the error that it already has the transaction.
\<close>

definition accepted ::
    "app \<Rightarrow> (rpc_call list \<Rightarrow> 't fut) \<Rightarrow> node \<Rightarrow> u64 \<Rightarrow> transaction \<Rightarrow> chain \<Rightarrow> bool" where
  "accepted app out node chain_id tx c \<longleftrightarrow>
     (\<exists>n raw. prepare_raw_transaction (tx\<lparr>tx_nonce := n\<rparr>) app node chain_id = Ok raw \<and>
        ((\<exists>v. answered out (Eth_sendRawTransaction raw) c v) \<or>
         (\<exists>e. refused out (Eth_sendRawTransaction raw) c e \<and> server_error_ends e ''already imported.'')))"

lemma accepted_extends:
  "accepted app out node chain_id tx c \<Longrightarrow> chain_extends c d \<Longrightarrow> accepted app out node chain_id tx d"
  unfolding accepted_def by (blast intro: answered_extends refused_extends)

lemma accepted_nonce [simp]:
  "accepted app out node chain_id (tx\<lparr>tx_nonce := n\<rparr>) c = accepted app out node chain_id tx c"
  by (simp add: accepted_def)

text \<open>
  The check keeps its transaction up to the nonce, it never undoes a request, and what it waits for
  after a send is the answer to the raw form of its transaction.
\<close>

definition nc_inv ::
    "app \<Rightarrow> (rpc_call list \<Rightarrow> 't fut) \<Rightarrow> node \<Rightarrow> u64 \<Rightarrow> transaction \<Rightarrow> chain \<Rightarrow> 't nonce_check \<times> chain \<Rightarrow> bool"
where
  "nc_inv app out node chain_id tx c0 = (\<lambda>(s, c).
     nc_node s = node \<and> nc_chain_id s = chain_id \<and>
     (\<exists>n. nc_transaction s = tx\<lparr>tx_nonce := n\<rparr>) \<and> chain_extends c0 c \<and>
     (case nc_state s of
        NC_TransactionRequest f \<Rightarrow>
          (\<exists>raw. prepare_raw_transaction (nc_transaction s) app node chain_id = Ok raw \<and>
                 awaiting out (Eth_sendRawTransaction raw) c f)
      | _ \<Rightarrow> True))"

definition nc_post ::
    "app \<Rightarrow> (rpc_call list \<Rightarrow> 't fut) \<Rightarrow> node \<Rightarrow> u64 \<Rightarrow> transaction \<Rightarrow> chain \<Rightarrow> 't nonce_check \<times> chain \<Rightarrow>
     't poll \<Rightarrow> bool" where
  "nc_post app out node chain_id tx c0 t r \<longleftrightarrow>
     nc_inv app out node chain_id tx c0 t \<and>
     ((\<exists>v. r = Ok (Ready v)) \<longrightarrow> accepted app out node chain_id tx (snd t))"

lemma nc_inv_start:
  "nc_inv app out node chain_id tx c (send_transaction_with_nonce node tx chain_id, c)"
  by (auto simp: nc_inv_def send_transaction_with_nonce_def intro!: exI [of _ "tx_nonce tx"])

lemma nc_inv_extends:
  "nc_inv app out node chain_id tx c0 (s, c) \<Longrightarrow> chain_extends c d \<Longrightarrow> nc_inv app out node chain_id tx c0 (s, d)"
  unfolding nc_inv_def
  by (auto intro: chain_extends_trans awaiting_extends split: nonce_check_state.splits)

lemma nc_inv_rebase:
  "nc_inv app out node chain_id tx c0 (s, c) \<Longrightarrow> nc_inv app out node chain_id tx c (s, c)"
  by (auto simp: nc_inv_def)

lemma nc_inv_chain: "nc_inv app out node chain_id tx c0 (s, c) \<Longrightarrow> chain_extends c0 c"
  by (simp add: nc_inv_def)

text \<open>A check on the job of getting a transaction accepted.\<close>

definition nc_job ::
    "app \<Rightarrow> (rpc_call list \<Rightarrow> 't fut) \<Rightarrow> node \<Rightarrow> u64 \<Rightarrow> transaction \<Rightarrow> 't nonce_check \<times> chain \<Rightarrow> bool" where
  "nc_job app out node chain_id tx = (\<lambda>(s, c). nc_inv app out node chain_id tx c (s, c))"

lemma nc_job_start: "nc_job app out node chain_id tx (send_transaction_with_nonce node tx chain_id, c)"
  by (simp add: nc_job_def nc_inv_start)

text \<open>How the outcome of a send ends the check.\<close>

lemma nc_send_Return:
  assumes "nc_state s = NC_TransactionRequest f" and "nonce_check_body app tr se (s, c) = Return t r"
  obtains g where "t = (s\<lparr>nc_state := NC_TransactionRequest g\<rparr>, c)" "\<And>v. r \<noteq> Ok (Ready v)"
      "\<exists>q. poll_fut f = (q, g)"
  | g v where "t = (s\<lparr>nc_state := NC_TransactionRequest g\<rparr>, c)" "r = Ok (Ready v)"
      "poll_fut f = (Ok (Ready v), g)"
  | g e k where "t = (s\<lparr>nc_state := NC_TransactionRequest g\<rparr>, c)"
      "poll_fut f = (Err e, g)" "kind e = Web3 (W_Rpc k)" "server_error_ends k ''already imported.''"
      "r = Ok (Ready (se_ignore se (app_tx_hash app (nc_transaction s) (nc_chain_id s))))"
  using assms
  by (auto simp: nonce_check_body_def Let_def split: prod.splits result.splits
      async.splits error_kind.splits web3_error.splits if_splits)

context transaction_sender
begin

lemma nc_continue_inv:
  assumes "nc_inv app out node chain_id tx c0 (s, c)"
    and "nonce_check_body app tr se (s, c) = Continue (s', c')"
  shows "nc_inv app out node chain_id tx c0 (s', c')"
proof (cases "nc_state s")
  case (NC_Nonce n)
  then obtain raw f where
    raw: "prepare_raw_transaction ((nc_transaction s)\<lparr>tx_nonce := n\<rparr>) app node chain_id = Ok raw"
    and f: "se_send se raw c = (f, c')"
    and s': "s' = s\<lparr>nc_transaction := (nc_transaction s)\<lparr>tx_nonce := n\<rparr>, nc_state := NC_TransactionRequest f\<rparr>"
    using assms by (auto simp: nonce_check_body_def Let_def nc_inv_def split: result.splits prod.splits)
  then show ?thesis
    using assms(1) send_extends [OF f] send_awaiting [OF f]
    by (auto simp: nc_inv_def intro: chain_extends_trans)
next
  case NC_Reacquire
  then show ?thesis
    using assms
    by (auto simp: nonce_check_body_def eth_get_transaction_count_def nc_inv_def
        dest!: execute_extends intro: chain_extends_trans split: prod.splits)
next
  case (NC_NonceRequest f)
  then show ?thesis
    using assms
    by (auto simp: nonce_check_body_def nc_inv_def elim!: try_ready.elims split: prod.splits)
next
  case (NC_TransactionRequest f)
  then show ?thesis
    using assms
    by (auto simp: nonce_check_body_def nc_inv_def Let_def split: prod.splits result.splits
        async.splits error_kind.splits web3_error.splits if_splits)
qed (use assms in \<open>auto simp: nonce_check_body_def nc_inv_def\<close>)

lemma nc_return_post:
  assumes "nc_inv app out node chain_id tx c0 (s, c)"
    and "nonce_check_body app tr se (s, c) = Return t r"
  shows "nc_post app out node chain_id tx c0 t r"
proof (cases "nc_state s")
  case (NC_TransactionRequest f)
  then obtain n raw where n: "nc_transaction s = tx\<lparr>tx_nonce := n\<rparr>"
      and raw: "prepare_raw_transaction (tx\<lparr>tx_nonce := n\<rparr>) app node chain_id = Ok raw"
      and f: "awaiting out (Eth_sendRawTransaction raw) c f"
    using assms(1) by (auto simp: nc_inv_def)
  have inv: "nc_inv app out node chain_id tx c0 (s\<lparr>nc_state := NC_TransactionRequest g\<rparr>, c)"
    if "poll_fut f = (q, g)" for q g
    using that assms(1) NC_TransactionRequest by (auto simp: nc_inv_def dest: awaiting_poll)
  have answer: "accepted app out node chain_id tx c" if "poll_fut f = (Ok (Ready v), g)" for v g
    using that raw f unfolding accepted_def by (blast dest: awaiting_Ready)
  have imported: "accepted app out node chain_id tx c"
    if "poll_fut f = (Err e, g)" "kind e = Web3 (W_Rpc k)" "server_error_ends k ''already imported.''" for e g k
    using that raw f unfolding accepted_def by (blast dest: awaiting_refused)
  show ?thesis
    using NC_TransactionRequest assms(2)
  proof (cases rule: nc_send_Return)
    case (1 g)
    then show ?thesis using inv by (auto simp: nc_post_def)
  next
    case (2 g v)
    then show ?thesis using inv answer by (auto simp: nc_post_def)
  next
    case (3 g e k)
    then show ?thesis using inv imported by (auto simp: nc_post_def)
  qed
next
  case (NC_Nonce n)
  then show ?thesis
    using assms
    by (auto simp: nonce_check_body_def nc_post_def nc_inv_def Let_def split: prod.splits result.splits)
next
  case (NC_NonceRequest f)
  then show ?thesis
    using assms
    by (auto simp: nonce_check_body_def nc_post_def nc_inv_def elim!: try_ready.elims split: prod.splits)
qed (use assms in \<open>auto simp: nonce_check_body_def split: prod.splits\<close>)

sublocale nonce_loop:
  poll_body "nonce_check_body app tr se" "nc_inv app out node chain_id tx c0" "nc_post app out node chain_id tx c0"
  for app tr node chain_id tx c0
proof
  show "nc_inv app out node chain_id tx c0 s \<Longrightarrow> nonce_check_body app tr se s = Continue t \<Longrightarrow>
      nc_inv app out node chain_id tx c0 t" for s t
    by (cases s; cases t) (auto intro: nc_continue_inv)
  show "nc_inv app out node chain_id tx c0 s \<Longrightarrow> nonce_check_body app tr se s = Return t r \<Longrightarrow>
      nc_post app out node chain_id tx c0 t r" for s t r
    by (cases s) (auto intro: nc_return_post)
qed

lemma nonce_check_post:
  "nonce_check_poll app tr se (s, c) = Some (t, r) \<Longrightarrow> nc_inv app out node chain_id tx c0 (s, c) \<Longrightarrow>
   nc_post app out node chain_id tx c0 t r"
  unfolding nonce_check_poll_def by (rule nonce_loop.poll_post)

sublocale jobs:
  tracked_future "nonce_check_poll app tr se" "nc_job app out node chain_id" "accepted app out node chain_id"
    chain_extends
  for app tr node chain_id
proof
  fix k f c g d and r :: "'t poll"
  assume "nc_job app out node chain_id k (f, c)" and "nonce_check_poll app tr se (f, c) = Some ((g, d), r)"
  then have "nc_post app out node chain_id k c (g, d) r"
    unfolding nc_job_def by (auto intro: nonce_check_post)
  then show "nc_job app out node chain_id k (g, d) \<and> chain_extends c d"
    by (auto simp: nc_post_def nc_job_def intro: nc_inv_rebase dest: nc_inv_chain)
next
  fix k f c g d and t :: 't
  assume "nc_job app out node chain_id k (f, c)"
    and "nonce_check_poll app tr se (f, c) = Some ((g, d), Ok (Ready t))"
  then show "accepted app out node chain_id k d"
    unfolding nc_job_def by (auto simp: nc_post_def dest!: nonce_check_post)
next
  fix k f c d
  assume "nc_job app out node chain_id k (f, c)" and "chain_extends c d"
  then show "nc_job app out node chain_id k (f, d)"
    by (auto simp: nc_job_def intro: nc_inv_rebase nc_inv_extends)
qed (auto intro: chain_extends_trans accepted_extends)

end

section \<open>Termination\<close>

text \<open>
  The check can only go round while the node answers sends with stale-nonce errors. If it does so
  only for sends among the first \<open>K\<close> requests of the connection, every poll returns.
\<close>

definition stale_reply :: "'a fut \<Rightarrow> bool" where
  "stale_reply f \<longleftrightarrow>
     (\<exists>e g. f = Inner (A_Fail (W_Rpc e)) # g \<and> server_error_ends e ''incrementing the nonce.'')"

definition nc_rank :: "nat \<Rightarrow> 't nonce_check \<times> chain \<Rightarrow> nat" where
  "nc_rank K = (\<lambda>(s, c).
     case nc_state s of
       NC_Ready \<Rightarrow> 4 * (Suc K - length (ch_calls c)) + 4
     | NC_Reacquire \<Rightarrow> 4 * (Suc K - length (ch_calls c)) + 5
     | NC_NonceRequest _ \<Rightarrow> 4 * (Suc K - length (ch_calls c)) + 4
     | NC_Nonce _ \<Rightarrow> 4 * (Suc K - length (ch_calls c)) + 3
     | NC_TransactionRequest f \<Rightarrow>
         (if stale_reply f then 4 * (Suc K - length (ch_calls c)) + 6 else 0))"

lemma nc_body_not_Diverge: "nonce_check_body app tr se s \<noteq> Diverge"
  by (auto simp: nonce_check_body_def Let_def elim!: try_ready.elims
      split: prod.splits nonce_check_state.splits result.splits async.splits error_kind.splits
      web3_error.splits if_splits)

text \<open>Going round from a send takes a stale reply.\<close>

lemma nc_resend_stale:
  assumes "nc_state s = NC_TransactionRequest f"
    and "nonce_check_body app tr se (s, c) = Continue (s', c')"
  shows "stale_reply f" and "nc_state s' = NC_Reacquire" and "c' = c"
proof -
  obtain r g where pf: "poll_fut f = (r, g)"
    by fastforce
  with assms obtain e k where k: "r = Err e" "kind e = Web3 (W_Rpc k)"
      "server_error_ends k ''incrementing the nonce.''" "nc_state s' = NC_Reacquire" "c' = c"
    by (auto simp: nonce_check_body_def Let_def split: result.splits async.splits
        error_kind.splits web3_error.splits if_splits)
  have "f = Inner (A_Fail (W_Rpc k)) # g"
    using pf k(1,2) by (auto dest: poll_fut_rpc_error)
  with k show "stale_reply f" "nc_state s' = NC_Reacquire" "c' = c"
    by (auto simp: stale_reply_def)
qed

text \<open>The hypothesis on the node: a send that is not among the first \<open>K\<close> requests is not stale.\<close>

definition settles :: "nat \<Rightarrow> 't sender \<Rightarrow> bool" where
  "settles K se \<longleftrightarrow>
     (\<forall>raw c. K \<le> length (ch_calls c) \<longrightarrow> \<not> stale_reply (fst (se_send se raw c)))"

context transaction_sender
begin

lemma nc_rank_less:
  assumes "settles K se" and step: "nonce_check_body app tr se (s, c) = Continue (s', c')"
  shows "nc_rank K (s', c') < nc_rank K (s, c)"
proof (cases "nc_state s")
  case NC_Ready
  then show ?thesis
    using step by (auto simp: nonce_check_body_def nc_rank_def)
next
  case NC_Reacquire
  then have "nc_state s' = NC_NonceRequest (tr_transaction_count tr (ch_calls c'))"
    and "length (ch_calls c') = Suc (length (ch_calls c))"
    using step
    by (auto simp: nonce_check_body_def eth_get_transaction_count_def dest!: execute_calls
        split: prod.splits)
  then show ?thesis
    using NC_Reacquire by (simp add: nc_rank_def)
next
  case (NC_NonceRequest f)
  then show ?thesis
    using step
    by (auto simp: nonce_check_body_def nc_rank_def elim!: try_ready.elims split: prod.splits)
next
  case (NC_Nonce n)
  then obtain raw f where f: "se_send se raw c = (f, c')" and s': "nc_state s' = NC_TransactionRequest f"
    using step by (auto simp: nonce_check_body_def Let_def split: result.splits prod.splits)
  have len: "length (ch_calls c') = Suc (length (ch_calls c))"
    using send_calls [OF f] by simp
  have "stale_reply f \<Longrightarrow> length (ch_calls c) < K"
    using assms(1) f unfolding settles_def by (metis fst_conv not_le)
  then show ?thesis
    using NC_Nonce s' len by (cases "stale_reply f") (auto simp: nc_rank_def)
next
  case (NC_TransactionRequest f)
  then show ?thesis
    using nc_resend_stale [OF NC_TransactionRequest step] by (simp add: nc_rank_def)
qed

lemma nonce_check_returns:
  assumes "settles K se"
  shows "\<exists>t r. nonce_check_poll app tr se s = Some (t, r)"
proof -
  have "poll_ranked (nonce_check_body app tr se) (\<lambda>_. True) (nc_rank K)"
  proof
    show "nonce_check_body app tr se u \<noteq> Diverge" for u
      by (rule nc_body_not_Diverge)
    show "nonce_check_body app tr se u = Continue v \<Longrightarrow> True \<and> nc_rank K v < nc_rank K u" for u v
      using nc_rank_less [OF assms, of app tr "fst u" "snd u" "fst v" "snd v"] by simp
  qed
  then show ?thesis
    unfolding nonce_check_poll_def by (rule poll_ranked.poll_returns) simp
qed

end

section \<open>Properties\<close>

text \<open>What happens on the connection between two polls of a check.\<close>

definition nc_rely :: "'t nonce_check \<times> chain \<Rightarrow> 't nonce_check \<times> chain \<Rightarrow> bool" where
  "nc_rely = (\<lambda>(s, c) (s', c'). s' = s \<and> chain_extends c c')"

context transaction_sender
begin

lemma nonce_check_run:
  assumes "future_run (nonce_check_poll app tr se) nc_rely (s, c) (t, d)" and "nc_job app out node chain_id tx (s, c)"
  shows "nc_job app out node chain_id tx (t, d)"
  using assms
proof (induction "(t, d)" arbitrary: t d rule: future_run.induct)
  case created
  then show ?case by simp
next
  case (pending u)
  then show ?case
    using jobs.P_poll by (cases u) blast
next
  case (wait u)
  then show ?case
    using jobs.P_ext by (cases u) (auto simp: nc_rely_def)
qed

lemma nonce_check_run_accepted:
  assumes "future_run (nonce_check_poll app tr se) nc_rely (send_transaction_with_nonce node tx chain_id, c) (s, d)"
    and "nonce_check_poll app tr se (s, d) = Some ((t, e), Ok (Ready v))"
  shows "accepted app out node chain_id tx e"
  using jobs.Q_poll [OF nonce_check_run [OF assms(1) nc_job_start] assms(2)] .

end

text \<open>
  C15. A transaction is reported as sent only when the node has it: whatever the node answers and
  whatever other checks do on the connection in between, when a nonce check completes, the node has
  answered a send of this very transaction, signed under some nonce, with a hash or with the error
  that it had already imported it.
\<close>

theorem nonce_check_accepted:
  assumes "future_run (nonce_check_poll app tr (SendRawTransaction tr)) nc_rely
      (send_transaction_with_nonce node tx chain_id, c) (s, d)"
    and "nonce_check_poll app tr (SendRawTransaction tr) (s, d) = Some ((t, e), Ok (Ready v))"
  shows "accepted app (tr_send_raw_transaction tr) node chain_id tx e"
  using assms by (rule raw_sender.nonce_check_run_accepted)

text \<open>
  C31. A poll of a nonce check returns, from any state, when the node stops answering sends with
  stale-nonce errors at some point. (Without that it need not: a node that always answers so, at
  once, keeps the loop of the poll going.)
\<close>

theorem nonce_check_poll_returns:
  assumes "settles K (SendRawTransaction tr)"
  shows "\<exists>t r. nonce_check_poll app tr (SendRawTransaction tr) s = Some (t, r)"
  using assms by (rule raw_sender.nonce_check_returns)

text \<open>
  A new check signs with the shared nonce, advances the shared nonce by one (modulo
  \<open>2\<^sup>256\<close>) and makes a single request, the send; the hash the node answers is its result.
\<close>

lemma nonce_check_sends:
  assumes "nc_state s = NC_Ready"
    and "tx = (nc_transaction s)\<lparr>tx_nonce := ch_nonce c\<rparr>"
    and "prepare_raw_transaction tx app (nc_node s) (nc_chain_id s) = Ok raw"
    and "calls = Eth_sendRawTransaction raw # ch_calls c"
    and "tr_send_raw_transaction tr calls = Inner (A_Value h) # rs"
  shows "nonce_check_poll app tr (SendRawTransaction tr) (s, c) =
    Some ((s\<lparr>nc_transaction := tx, nc_state := NC_TransactionRequest rs\<rparr>,
           \<lparr>ch_nonce = ch_nonce c + 1, ch_calls = calls\<rparr>), Ok (Ready h))"
  using assms
  by (simp add: nonce_check_poll_def poll_loop.simps nonce_check_body_def SendRawTransaction_def
      request_defs Let_def)

text \<open>
  C29. On a stale-nonce answer the check asks the node for the transaction count of its account, signs
  again with that nonce and sends again. The shared nonce is set to the nonce just used, not to the
  one after it.
\<close>

theorem nonce_check_reacquires:
  assumes "nc_state s = NC_TransactionRequest (Inner (A_Fail (W_Rpc e)) # rs)"
    and "rpc_code e = ServerError (-32010)" and "ends_with (rpc_message e) ''incrementing the nonce.''"
    and "asked = Eth_getTransactionCount (n_account (nc_node s)) Pending # ch_calls c"
    and "tr_transaction_count tr asked = Inner (A_Value n) # qs"
    and "tx = (nc_transaction s)\<lparr>tx_nonce := n\<rparr>"
    and "prepare_raw_transaction tx app (nc_node s) (nc_chain_id s) = Ok raw"
    and "calls = Eth_sendRawTransaction raw # asked"
    and "tr_send_raw_transaction tr calls = Inner (A_Value h) # ps"
  shows "nonce_check_poll app tr (SendRawTransaction tr) (s, c) =
    Some ((s\<lparr>nc_transaction := tx, nc_state := NC_TransactionRequest ps\<rparr>,
           \<lparr>ch_nonce = n, ch_calls = calls\<rparr>), Ok (Ready h))"
  using assms
  by (simp add: nonce_check_poll_def poll_loop.simps nonce_check_body_def SendRawTransaction_def
      server_error_ends_def request_defs Let_def from_kind_def)


text \<open>
  Every other failure of a send ends the check with that failure and without another request: an
  error of the client, an RPC error that is neither of the two the check knows, a timeout.
\<close>

lemma nonce_check_fails:
  assumes "nc_state s = NC_TransactionRequest (r # rs)"
    and "r = Inner (A_Fail w) \<and>
         (\<forall>e. w = W_Rpc e \<longrightarrow> \<not> server_error_ends e ''incrementing the nonce.'' \<and>
               \<not> server_error_ends e ''already imported.'') \<and> err = from_kind (Web3 w)
       \<or> r = Timed u \<and> err = from_kind (Timeout ''communication timeout'')"
  shows "nonce_check_poll app tr se (s, c) =
    Some ((s\<lparr>nc_state := NC_TransactionRequest rs\<rparr>, c), Err err)"
  using assms
  by (cases w; cases u) (auto simp: nonce_check_poll_def poll_loop.simps nonce_check_body_def Let_def
      from_kind_def from_timeout_error_def)

end
