(* ===== verification/Relay.thy ===== *)
theory Relay
  imports Nonce
begin

text \<open>
  What the three relays have in common: the checkpoints they report (\<open>BridgeChecked\<close> of
  \<^verbatim>\<open>bridge/src/bridge/mod.rs\<close>), a batch of transactions sent with \<open>futures_unordered(..).collect()\<close>,
  and the specification they all meet: a checkpoint is reported for a range of blocks only when
  every log of the range has been handled, and ranges are taken in order.
\<close>

datatype bridge_checked = DepositRelay u64 | WithdrawRelay u64 | WithdrawConfirm u64

type_synonym batch = "(h256 nonce_check, h256) collect"

text \<open>The transactions of a relay: the fields every relay sets in the same way.\<close>

definition relay_transaction :: "u256 \<Rightarrow> u256 \<Rightarrow> address \<Rightarrow> bytes \<Rightarrow> transaction" where
  "relay_transaction gas gas_price contract payload =
     \<lparr> tx_nonce = 0, tx_gas_price = gas_price, tx_gas = gas, tx_action = Call contract,
       tx_value = 0, tx_data = payload \<rparr>"

definition batch_poll ::
    "app \<Rightarrow> transport \<Rightarrow> batch \<times> chain \<Rightarrow> ((batch \<times> chain) \<times> h256 list poll) option" where
  "batch_poll app tr = collect_poll (nonce_check_poll app tr (SendRawTransaction tr))"

abbreviation batch_tracked ::
    "app \<Rightarrow> transport \<Rightarrow> node \<Rightarrow> u64 \<Rightarrow> transaction list \<Rightarrow> batch \<Rightarrow> chain \<Rightarrow> bool" where
  "batch_tracked app tr node chain_id txs b c \<equiv>
     tracked (nc_job app (tr_send_raw_transaction tr) node chain_id)
       (accepted app (tr_send_raw_transaction tr) node chain_id) txs (co_pending b) c"

lemma batch_tracked_start:
  "batch_tracked app tr node chain_id txs
     (futures_unordered_collect (map (\<lambda>tx. send_transaction_with_nonce node tx chain_id) txs) ws) c"
  by (simp add: futures_unordered_collect_def tracked_start nc_job_start)

lemma batch_poll_tracked:
  assumes "batch_poll app tr (b, c) = Some ((b', d), r)" and "batch_tracked app tr node chain_id txs b c"
  shows "chain_extends c d" and "batch_tracked app tr node chain_id txs b' d"
    and "r = Ok (Ready v) \<Longrightarrow> tx \<in> set txs \<Longrightarrow> accepted app (tr_send_raw_transaction tr) node chain_id tx d"
  using assms unfolding batch_poll_def by (blast dest: raw_sender.jobs.collect_tracked)+

lemma batch_tracked_extends:
  "batch_tracked app tr node chain_id txs b c \<Longrightarrow> chain_extends c d \<Longrightarrow> batch_tracked app tr node chain_id txs b d"
  by (rule raw_sender.jobs.tracked_ext)

section \<open>The work of a batch\<close>

text \<open>
  \<open>duty lg tx\<close> says that \<open>tx\<close> is a transaction a log calls for, \<open>exempt lg\<close> that it calls for none. A
  log has been relayed when the node has accepted such a transaction; a batch is at work on a list
  of logs when each of them is exempt or has its transaction among those the batch gets accepted.
\<close>

definition relayed ::
    "app \<Rightarrow> transport \<Rightarrow> node \<Rightarrow> u64 \<Rightarrow> (log \<Rightarrow> bool) \<Rightarrow> (log \<Rightarrow> transaction \<Rightarrow> bool) \<Rightarrow> chain \<Rightarrow> log \<Rightarrow> bool"
where
  "relayed app tr node chain_id exempt duty c lg \<longleftrightarrow>
     exempt lg \<or> (\<exists>tx. duty lg tx \<and> accepted app (tr_send_raw_transaction tr) node chain_id tx c)"

definition batch_busy ::
    "app \<Rightarrow> transport \<Rightarrow> node \<Rightarrow> u64 \<Rightarrow> (log \<Rightarrow> bool) \<Rightarrow> (log \<Rightarrow> transaction \<Rightarrow> bool) \<Rightarrow> batch \<Rightarrow> chain \<Rightarrow>
     log list \<Rightarrow> bool" where
  "batch_busy app tr node chain_id exempt duty b c lgs \<longleftrightarrow>
     (\<exists>txs. (\<forall>lg\<in>set lgs. exempt lg \<or> (\<exists>tx\<in>set txs. duty lg tx)) \<and>
        batch_tracked app tr node chain_id txs b c)"

lemma relayed_mono:
  assumes "relayed app tr node chain_id exempt duty c lg" and "chain_extends c d"
    and "\<And>tx. duty lg tx \<Longrightarrow> duty' lg tx"
  shows "relayed app tr node chain_id exempt duty' d lg"
  using assms unfolding relayed_def by (blast intro: accepted_extends)

lemma batch_busy_mono:
  assumes "batch_busy app tr node chain_id exempt duty b c lgs" and "chain_extends c d"
    and "\<And>lg tx. duty lg tx \<Longrightarrow> duty' lg tx"
  shows "batch_busy app tr node chain_id exempt duty' b d lgs"
  using assms unfolding batch_busy_def by (blast intro: batch_tracked_extends)

lemma batch_busy_start:
  assumes "\<And>lg. lg \<in> set lgs \<Longrightarrow> exempt lg \<or> (\<exists>tx\<in>set txs. duty lg tx)"
  shows "batch_busy app tr node chain_id exempt duty
    (futures_unordered_collect (map (\<lambda>tx. send_transaction_with_nonce node tx chain_id) txs) ws) c lgs"
  unfolding batch_busy_def using assms by (blast intro: batch_tracked_start)

lemma batch_busy_poll:
  assumes "batch_poll app tr (b, c) = Some ((b', d), r)"
    and "batch_busy app tr node chain_id exempt duty b c lgs"
  shows "chain_extends c d" and "batch_busy app tr node chain_id exempt duty b' d lgs"
    and "r = Ok (Ready v) \<Longrightarrow> lg \<in> set lgs \<Longrightarrow> relayed app tr node chain_id exempt duty d lg"
proof -
  obtain txs where txs: "\<forall>lg\<in>set lgs. exempt lg \<or> (\<exists>tx\<in>set txs. duty lg tx)"
      and t: "batch_tracked app tr node chain_id txs b c"
    using assms(2) by (auto simp: batch_busy_def)
  note polled = batch_poll_tracked [OF assms(1) t]
  show "chain_extends c d" by (rule polled)
  show "batch_busy app tr node chain_id exempt duty b' d lgs"
    using txs polled(2) by (auto simp: batch_busy_def)
  show "relayed app tr node chain_id exempt duty d lg" if "r = Ok (Ready v)" and "lg \<in> set lgs"
    using that txs polled(3) unfolding relayed_def by blast
qed

section \<open>The specification of a relay\<close>

text \<open>
  A relay is idle, busy with the logs of an item that ends at some block (\<open>busy\<close> says what it keeps
  of them), or about to report a block.
\<close>

datatype phase = Idle | Busy u64 "log list \<Rightarrow> bool" | Yielding u64

definition all_handled :: "(log \<Rightarrow> bool) \<Rightarrow> log_stream_item \<Rightarrow> bool" where
  "all_handled handled it \<longleftrightarrow> (\<forall>lg\<in>set (it_logs it). handled lg)"

definition relay_inv ::
    "(log_stream_item list \<Rightarrow> bool) \<Rightarrow> (log \<Rightarrow> bool) \<Rightarrow> (u64 \<Rightarrow> bridge_checked) \<Rightarrow> phase \<Rightarrow>
     bridge_checked list \<Rightarrow> bool" where
  "relay_inv streamed handled checked ph obs \<longleftrightarrow>
     (\<exists>its. (\<forall>it\<in>set its. all_handled handled it) \<and> obs = map (checked \<circ> it_to) its \<and>
        (case ph of
           Idle \<Rightarrow> streamed its
         | Busy block busy \<Rightarrow> (\<exists>it. streamed (its @ [it]) \<and> block = it_to it \<and> busy (it_logs it))
         | Yielding block \<Rightarrow>
             (\<exists>it. streamed (its @ [it]) \<and> block = it_to it \<and> all_handled handled it)))"

lemma all_handled_mono: "(\<And>lg. h lg \<Longrightarrow> h' lg) \<Longrightarrow> all_handled h it \<Longrightarrow> all_handled h' it"
  by (auto simp: all_handled_def)

text \<open>The parts of the specification may be weakened together, as requests are added.\<close>

definition phase_le :: "phase \<Rightarrow> phase \<Rightarrow> bool" where
  "phase_le ph ph' \<longleftrightarrow> ph' = ph \<or>
     (\<exists>n busy busy'. ph = Busy n busy \<and> ph' = Busy n busy' \<and> (\<forall>ls. busy ls \<longrightarrow> busy' ls))"

lemma relay_inv_mono:
  assumes "relay_inv streamed handled checked ph obs" and "phase_le ph ph'"
    and streamed: "\<And>its. streamed its \<Longrightarrow> streamed' its"
    and handled: "\<And>lg. handled lg \<Longrightarrow> handled' lg"
  shows "relay_inv streamed' handled' checked ph' obs"
proof -
  have h: "all_handled handled it \<Longrightarrow> all_handled handled' it" for it
    using handled by (rule all_handled_mono)
  have "relay_inv streamed' handled' checked ph obs"
    using assms(1) streamed h unfolding relay_inv_def by (cases ph) (simp; blast)+
  then show ?thesis
    using assms(2) unfolding phase_le_def relay_inv_def by (elim disjE exE conjE) (simp; blast)+
qed

lemma relay_inv_fetch:
  assumes "relay_inv streamed handled checked Idle obs"
    and "\<And>its. streamed its \<Longrightarrow> streamed' (its @ [it])" and "busy (it_logs it)"
    and "\<And>lg. handled lg \<Longrightarrow> handled' lg"
  shows "relay_inv streamed' handled' checked (Busy (it_to it) busy) obs"
proof -
  have "all_handled handled x \<Longrightarrow> all_handled handled' x" for x
    using assms(4) by (rule all_handled_mono)
  then show ?thesis
    using assms(1-3) unfolding relay_inv_def by auto
qed

lemma relay_inv_done:
  assumes "relay_inv streamed handled checked (Busy block busy) obs"
    and "\<And>lg. handled lg \<Longrightarrow> handled' lg"
    and "\<And>ls lg. busy ls \<Longrightarrow> lg \<in> set ls \<Longrightarrow> handled' lg"
  shows "relay_inv streamed handled' checked (Yielding block) obs"
proof -
  obtain its it where "\<forall>it\<in>set its. all_handled handled it" "obs = map (checked \<circ> it_to) its"
      "streamed (its @ [it])" "block = it_to it" "busy (it_logs it)"
    using assms(1) by (auto simp: relay_inv_def)
  then show ?thesis
    unfolding relay_inv_def using assms(2,3)
    by (auto simp: all_handled_def intro!: exI [of _ its] exI [of _ it])
qed

lemma relay_inv_yield:
  assumes "relay_inv streamed handled checked (Yielding block) obs"
  shows "relay_inv streamed handled checked Idle (obs @ [checked block])"
proof -
  obtain its it where "\<forall>it\<in>set its. all_handled handled it" "obs = map (checked \<circ> it_to) its"
      "streamed (its @ [it])" "block = it_to it" "all_handled handled it"
    using assms by (auto simp: relay_inv_def)
  then show ?thesis
    unfolding relay_inv_def by (auto intro!: exI [of _ "its @ [it]"])
qed

lemmas relay_inv_steps = relay_inv_fetch relay_inv_done relay_inv_yield

text \<open>What the specification says of the reported checkpoints.\<close>

lemma relay_inv_checkpoints:
  assumes "relay_inv streamed handled checked ph obs"
    and "\<And>its. streamed its \<Longrightarrow> (\<exists>b. tiles a its b) \<and> (\<forall>it\<in>set its. good it)"
  shows "\<exists>its b. obs = map (checked \<circ> it_to) its \<and> tiles a its b \<and>
    (\<forall>it\<in>set its. good it \<and> (\<forall>lg\<in>set (it_logs it). handled lg))"
proof -
  obtain its where its: "\<forall>it\<in>set its. all_handled handled it" "obs = map (checked \<circ> it_to) its"
      "\<exists>ys. streamed (its @ ys)"
    using assms(1) unfolding relay_inv_def by (cases ph) (fastforce intro: exI [of _ "[]"])+
  then obtain b where "tiles a its b" "\<forall>it\<in>set its. good it"
    using assms(2) by (fastforce simp: tiles_append)
  with its show ?thesis
    by (auto simp: all_handled_def)
qed

text \<open>A poll of the batch of a busy relay.\<close>

lemma relay_inv_batch:
  assumes inv: "relay_inv streamed (relayed app tr node chain_id exempt duty c) checked
      (Busy block (batch_busy app tr node chain_id exempt duty b c)) obs"
    and p: "batch_poll app tr (b, c) = Some ((b', d), r)"
    and streamed: "\<forall>its. chain_extends c d \<longrightarrow> streamed its \<longrightarrow> streamed' its"
  shows "chain_extends c d"
    and "relay_inv streamed' (relayed app tr node chain_id exempt duty d) checked
      (Busy block (batch_busy app tr node chain_id exempt duty b' d)) obs"
    and "r = Ok (Ready v) \<Longrightarrow>
      relay_inv streamed' (relayed app tr node chain_id exempt duty d) checked (Yielding block) obs"
proof -
  obtain lgs where "batch_busy app tr node chain_id exempt duty b c lgs"
    using inv by (auto simp: relay_inv_def)
  note ext = batch_busy_poll(1) [OF p this]
  have later: "relayed app tr node chain_id exempt duty c lg \<Longrightarrow> relayed app tr node chain_id exempt duty d lg" for lg
    by (erule relayed_mono [OF _ ext])
  have s: "streamed its \<Longrightarrow> streamed' its" for its
    using streamed ext by blast
  show "chain_extends c d" by (rule ext)
  have "phase_le (Busy block (batch_busy app tr node chain_id exempt duty b c))
      (Busy block (batch_busy app tr node chain_id exempt duty b' d))"
    unfolding phase_le_def using batch_busy_poll(2) [OF p] by blast
  then show "relay_inv streamed' (relayed app tr node chain_id exempt duty d) checked
      (Busy block (batch_busy app tr node chain_id exempt duty b' d)) obs"
    by (rule relay_inv_mono [OF inv _ s later])
  assume r: "r = Ok (Ready v)"
  have "relay_inv streamed (relayed app tr node chain_id exempt duty d) checked (Yielding block) obs"
    by (rule relay_inv_done [OF inv]) (erule later, erule batch_busy_poll(3) [OF p _ r])
  then show "relay_inv streamed' (relayed app tr node chain_id exempt duty d) checked (Yielding block) obs"
    by (rule relay_inv_mono) (simp add: phase_le_def, erule s, assumption)
qed

section \<open>The contract of a relay\<close>

text \<open>What the other parts of the bridge may do between two polls of a relay.\<close>

definition relay_rely :: "'s \<times> world \<Rightarrow> 's \<times> world \<Rightarrow> bool" where
  "relay_rely = (\<lambda>(s, w) (s', w'). s' = s \<and> world_extends w w')"

definition relay_post ::
    "(bridge_checked list \<Rightarrow> 's \<times> world \<Rightarrow> bool) \<Rightarrow> bridge_checked list \<Rightarrow> world \<Rightarrow>
     's \<times> world \<Rightarrow> bridge_checked option poll \<Rightarrow> bool" where
  "relay_post I obs w0 t r \<longleftrightarrow>
     world_extends w0 (snd t) \<and>
     (\<forall>n. r = Ok (Ready (Some n)) \<longrightarrow> I (obs @ [n]) t) \<and>
     (r = Ok NotReady \<or> r = Ok (Ready None) \<longrightarrow> I obs t)"

lemma relay_post_base: "relay_post I obs w t r \<Longrightarrow> world_extends w0 w \<Longrightarrow> relay_post I obs w0 t r"
  unfolding relay_post_def by (blast intro: world_extends_trans)

text \<open>
  A relay is a loop body with an invariant of its state and the checkpoints reported so far, which
  every round and every return keeps and which more requests by others cannot break; it writes none
  of the shared cells but its connections. Then polls and runs keep it too.
\<close>

locale relay_machine =
  fixes body :: "'s \<times> world \<Rightarrow> ('s \<times> world, bridge_checked option poll) ctl"
    and inv :: "bridge_checked list \<Rightarrow> 's \<times> world \<Rightarrow> bool"
  assumes body_continue: "inv obs (s, w) \<Longrightarrow> body (s, w) = Continue t \<Longrightarrow> inv obs t \<and> world_extends w (snd t)"
    and body_return: "inv obs (s, w) \<Longrightarrow> body (s, w) = Return t r \<Longrightarrow> relay_post inv obs w t r"
    and inv_extends: "inv obs (s, w) \<Longrightarrow> world_extends w v \<Longrightarrow> inv obs (s, v)"
    and continue_cells: "body (s, w) = Continue t \<Longrightarrow> cells (snd t) = cells w"
    and return_cells: "body (s, w) = Return t r \<Longrightarrow> cells (snd t) = cells w"
begin

sublocale rounds:
  poll_body body "\<lambda>(s, w). inv obs (s, w) \<and> world_extends w0 w" "relay_post inv obs w0" for obs w0
proof (unfold_locales, goal_cases)
  case (1 s t)
  then show ?case
    using body_continue by (cases s; cases t) (fastforce intro: world_extends_trans)
next
  case (2 s t r)
  then show ?case
    by (cases s) (auto intro: relay_post_base dest: body_return)
qed

lemma poll_keeps: "poll_loop body (s, w) = Some (t, r) \<Longrightarrow> inv obs (s, w) \<Longrightarrow> relay_post inv obs w t r"
  by (rule rounds.poll_post) auto

sublocale own: poll_body body "\<lambda>(s, w). cells w = cs" "\<lambda>t r. cells (snd t) = cs" for cs
  by unfold_locales (auto dest: continue_cells return_cells)

lemma poll_cells: "poll_loop body (s, w) = Some (t, r) \<Longrightarrow> cells (snd t) = cells w"
  by (rule own.poll_post) auto

sublocale checks: stream_inv "poll_loop body" relay_rely inv
proof (unfold_locales, goal_cases)
  case (1 xs s t x)
  then show ?case
    using poll_keeps [of "fst s" "snd s"] by (auto simp: relay_post_def)
next
  case (2 xs s t)
  then show ?case
    using poll_keeps [of "fst s" "snd s"] by (auto simp: relay_post_def)
next
  case (3 xs s t)
  then show ?case
    by (auto simp: relay_rely_def intro: inv_extends)
qed

end

section \<open>Termination and funds\<close>

text \<open>A poll of a batch returns when the node stops answering with stale-nonce errors.\<close>

lemma batch_poll_returns:
  assumes "settles K (SendRawTransaction tr)"
  shows "batch_poll app tr s \<noteq> None"
proof -
  obtain b c where s: "s = (b, c)" by fastforce
  have "\<exists>p. drive (nonce_check_poll app tr (SendRawTransaction tr)) is fs ts c = Some p"
    for "is" fs ts
    by (rule drive_returns [where ok = "\<lambda>_ _. True"])
      (use raw_sender.nonce_check_returns [OF assms, of app tr] in fastforce, simp)
  then show ?thesis
    unfolding s batch_poll_def collect_poll_def Let_def by (force split: option.splits prod.splits)
qed

text \<open>The funds a relay needs for a batch, in the program's 256-bit arithmetic and exactly.\<close>

definition balance_required :: "u64 \<Rightarrow> u64 \<Rightarrow> nat \<Rightarrow> u256" where
  "balance_required gas gas_price len = u256_of gas * u256_of gas_price * word_of_nat len"

lemma unat_balance_required:
  assumes "len < 2 ^ 64"
  shows "unat (balance_required gas gas_price len) = unat gas * unat gas_price * len"
proof -
  have "word_of_nat len = u256_of (word_of_nat len)"
    using assms by (simp add: u256_of_def word_unat_eq_iff unsigned_ucast_eq take_bit_eq_mod unat_of_nat)
  moreover have "unat (word_of_nat len :: u64) = len"
    using assms by (simp add: unat_of_nat)
  ultimately show ?thesis
    unfolding balance_required_def by (simp only: unat_mult3_u256)
qed

end
