(* ===== verification/DepositRelay.thy ===== *)
theory DepositRelay
  imports Relay
begin

text \<open>
  \<^verbatim>\<open>bridge/src/bridge/deposit_relay.rs\<close>: for every \<open>Deposit\<close> event on the home chain a call of
  \<open>ForeignBridge.deposit\<close> is sent to the foreign chain, and the block up to which this has been done
  is reported.
\<close>

section \<open>Definitions\<close>

definition deposits_filter :: "contracts \<Rightarrow> address \<Rightarrow> log_filter" where
  "deposits_filter ct addr = web3_filter (home_deposit_filter ct) [addr]"

definition deposit_relay_payload :: "contracts \<Rightarrow> log \<Rightarrow> bytes result" where
  "deposit_relay_payload ct lg =
     (let raw = \<lparr> rl_topics = lg_topics lg, rl_data = lg_data lg \<rparr> in
      and_then (home_deposit_parse_log ct raw) (\<lambda>dl.
      and_then (expect ''log to be mined and contain `transaction_hash`'' (lg_transaction_hash lg)) (\<lambda>hash.
      Ok (foreign_deposit_input ct (dl_recipient dl) (dl_value dl) hash))))"

datatype deposit_relay_state =
  DR_Wait
| DR_RelayDeposits batch u64
| DR_Yield "u64 option"

record deposit_relay =
  dr_logs :: log_stream
  dr_state :: deposit_relay_state
  dr_foreign_contract :: address
  dr_foreign_chain_id :: u64

definition deposit_logs_init :: "app \<Rightarrow> database \<Rightarrow> log_stream_init" where
  "deposit_logs_init app init =
     \<lparr> lsi_after = checked_deposit_relay init,
       lsi_filter = deposits_filter (app_contracts app) (home_contract_address init),
       lsi_request_timeout = n_request_timeout (cfg_home (app_config app)),
       lsi_poll_interval = n_poll_interval (cfg_home (app_config app)),
       lsi_confirmations = n_required_confirmations (cfg_home (app_config app)) \<rparr>"

definition create_deposit_relay :: "app \<Rightarrow> database \<Rightarrow> u64 \<Rightarrow> deposit_relay" where
  "create_deposit_relay app init foreign_chain_id =
     \<lparr> dr_logs = log_stream (app_timer_interval app ''deposit_relay'') (deposit_logs_init app init),
       dr_state = DR_Wait,
       dr_foreign_contract = foreign_contract_address init,
       dr_foreign_chain_id = foreign_chain_id \<rparr>"

definition deposit_gas :: "app \<Rightarrow> u256" where
  "deposit_gas app = u256_of (tc_gas (txs_deposit_relay (cfg_txs (app_config app))))"

definition deposit_relay_body ::
    "app \<Rightarrow> deposit_relay \<times> world \<Rightarrow> (deposit_relay \<times> world, bridge_checked option poll) ctl" where
  "deposit_relay_body app = (\<lambda>(s, w).
     case dr_state s of
       DR_Wait \<Rightarrow>
         (case w_foreign_balance w of
            None \<Rightarrow> Return (s, w) (Ok NotReady)
          | Some foreign_balance \<Rightarrow>
              inner (log_stream_poll (app_home app) (dr_logs s, w_home w)) (\<lambda>((ls, c), r).
              let s = s\<lparr>dr_logs := ls\<rparr>; w = w\<lparr>w_home := c\<rparr> in
              try_stream (map_err (contextualize ''polling home for deposits'') r) (Return (s, w)) (\<lambda>item.
              let gas = deposit_gas app;
                  gas_price = u256_of (w_foreign_gas_price w);
                  balance_required = gas * gas_price * word_of_nat (length (it_logs item))
              in if balance_required > foreign_balance
                 then Return (s, w) (Err (from_kind InsufficientFunds))
                 else case try_map (deposit_relay_payload (app_contracts app)) (it_logs item) of
                   Err e \<Rightarrow> Return (s, w) (Err e)
                 | Panic m \<Rightarrow> Return (s, w) (Panic m)
                 | Ok payloads \<Rightarrow>
                     let deposits = map (\<lambda>payload.
                           send_transaction_with_nonce (cfg_foreign (app_config app))
                             (relay_transaction gas gas_price (dr_foreign_contract s) payload)
                             (dr_foreign_chain_id s)) payloads
                     in Continue (s\<lparr>dr_state := DR_RelayDeposits
                          (futures_unordered_collect deposits (app_wakeups app (ch_calls (w_foreign w))))
                          (it_to item)\<rparr>, w))))
     | DR_RelayDeposits future block \<Rightarrow>
         inner (batch_poll app (app_foreign app) (future, w_foreign w)) (\<lambda>((future, c), r).
         let w = w\<lparr>w_foreign := c\<rparr> in
         try_ready (map_err (contextualize ''relaying deposit to foreign'') r)
           (Return (s\<lparr>dr_state := DR_RelayDeposits future block\<rparr>, w)) (\<lambda>_.
         Continue (s\<lparr>dr_state := DR_Yield (Some block)\<rparr>, w)))
     | DR_Yield block \<Rightarrow>
         (case block of
            None \<Rightarrow> Continue (s\<lparr>dr_state := DR_Wait\<rparr>, w)
          | Some v \<Rightarrow> Return (s\<lparr>dr_state := DR_Yield None\<rparr>, w) (Ok (Ready (Some (DepositRelay v))))))"

definition deposit_relay_poll ::
    "app \<Rightarrow> deposit_relay \<times> world \<Rightarrow> ((deposit_relay \<times> world) \<times> bridge_checked option poll) option" where
  "deposit_relay_poll app = poll_loop (deposit_relay_body app)"

section \<open>Specification\<close>

text \<open>
  A deposit log calls for a call of \<open>ForeignBridge.deposit\<close> with its payload, under some gas price. It
  has been handled when the node of the foreign chain has accepted such a transaction.
\<close>

definition deposit_duty :: "app \<Rightarrow> address \<Rightarrow> log \<Rightarrow> transaction \<Rightarrow> bool" where
  "deposit_duty app contract lg tx \<longleftrightarrow>
     (\<exists>payload gas_price. deposit_relay_payload (app_contracts app) lg = Ok payload \<and>
        tx = relay_transaction (deposit_gas app) gas_price contract payload)"

abbreviation deposit_handled :: "app \<Rightarrow> address \<Rightarrow> u64 \<Rightarrow> chain \<Rightarrow> log \<Rightarrow> bool" where
  "deposit_handled app contract chain_id \<equiv>
     relayed app (app_foreign app) (cfg_foreign (app_config app)) chain_id (\<lambda>_. False) (deposit_duty app contract)"

abbreviation deposit_busy :: "app \<Rightarrow> address \<Rightarrow> u64 \<Rightarrow> batch \<Rightarrow> chain \<Rightarrow> log list \<Rightarrow> bool" where
  "deposit_busy app contract chain_id \<equiv>
     batch_busy app (app_foreign app) (cfg_foreign (app_config app)) chain_id (\<lambda>_. False) (deposit_duty app contract)"

fun dr_phase :: "app \<Rightarrow> address \<Rightarrow> u64 \<Rightarrow> chain \<Rightarrow> deposit_relay_state \<Rightarrow> phase" where
  "dr_phase app contract chain_id c DR_Wait = Idle"
| "dr_phase app contract chain_id c (DR_RelayDeposits b n) = Busy n (deposit_busy app contract chain_id b c)"
| "dr_phase app contract chain_id c (DR_Yield None) = Idle"
| "dr_phase app contract chain_id c (DR_Yield (Some n)) = Yielding n"

definition dr_inv ::
    "app \<Rightarrow> database \<Rightarrow> u64 \<Rightarrow> bridge_checked list \<Rightarrow> deposit_relay \<times> world \<Rightarrow> bool" where
  "dr_inv app init chain_id obs = (\<lambda>(s, w).
     let contract = foreign_contract_address init; li = deposit_logs_init app init in
     dr_foreign_contract s = contract \<and> dr_foreign_chain_id s = chain_id \<and>
     relay_inv
       (\<lambda>its. ls_inv (app_home app) (lsi_after li) (lsi_filter li) (lsi_confirmations li) its
                (dr_logs s, w_home w))
       (deposit_handled app contract chain_id (w_foreign w))
       DepositRelay (dr_phase app contract chain_id (w_foreign w) (dr_state s)) obs)"

section \<open>Lemmas\<close>

lemma dr_phase_extends:
  "chain_extends c d \<Longrightarrow> phase_le (dr_phase app contract chain_id c st) (dr_phase app contract chain_id d st)"
proof (induction app contract chain_id c st rule: dr_phase.induct)
  case (2 app contract chain_id c b n)
  then show ?case
    unfolding phase_le_def by (auto intro: batch_busy_mono)
qed (simp_all add: phase_le_def)

lemma dr_inv_extends:
  assumes "dr_inv app init chain_id obs (s, w)" and "world_extends w v"
  shows "dr_inv app init chain_id obs (s, v)"
  using assms unfolding dr_inv_def world_extends_def Let_def prod.case
  by (elim conjE) (intro conjI, assumption, assumption,
      erule relay_inv_mono, auto intro: dr_phase_extends ls_inv_extends relayed_mono)

text \<open>The batch started for an item is at work on its logs.\<close>

lemma deposit_busy_start:
  assumes "try_map (deposit_relay_payload (app_contracts app)) lgs = Ok payloads"
  shows "deposit_busy app contract chain_id
     (futures_unordered_collect (map (\<lambda>payload. send_transaction_with_nonce (cfg_foreign (app_config app))
        (relay_transaction (deposit_gas app) gas_price contract payload) chain_id) payloads) ws) c lgs"
proof -
  let ?tx = "relay_transaction (deposit_gas app) gas_price contract"
  have "lg \<in> set lgs \<Longrightarrow> \<exists>tx\<in>set (map ?tx payloads). deposit_duty app contract lg tx" for lg
    using try_map_mem [OF assms, of lg] by (auto simp: deposit_duty_def)
  then show ?thesis
    using batch_busy_start [where txs = "map ?tx payloads" and lgs = lgs] by (simp add: comp_def)
qed

text \<open>A poll of the log stream, of the batch, and the report of a block.\<close>

lemma dr_stream_step:
  assumes "dr_inv app init chain_id obs (s, w)" and "dr_state s = DR_Wait"
    and "log_stream_poll (app_home app) (dr_logs s, w_home w) = Some ((ls, c), r)"
  shows "world_extends w (w\<lparr>w_home := c\<rparr>)"
    and "r = Ok NotReady \<or> r = Ok (Ready None) \<Longrightarrow>
      dr_inv app init chain_id obs (s\<lparr>dr_logs := ls\<rparr>, w\<lparr>w_home := c\<rparr>)"
    and "r = Ok (Ready (Some it)) \<Longrightarrow>
      deposit_busy app (foreign_contract_address init) chain_id b (w_foreign w) (it_logs it) \<Longrightarrow>
      dr_inv app init chain_id obs (s\<lparr>dr_logs := ls, dr_state := DR_RelayDeposits b (it_to it)\<rparr>, w\<lparr>w_home := c\<rparr>)"
proof -
  show "world_extends w (w\<lparr>w_home := c\<rparr>)"
    using log_stream_poll_extends [OF assms(3)] by simp
  show "dr_inv app init chain_id obs (s\<lparr>dr_logs := ls\<rparr>, w\<lparr>w_home := c\<rparr>)"
    if "r = Ok NotReady \<or> r = Ok (Ready None)"
    using assms that log_stream_idle [of "app_home app"]
    by (auto simp: dr_inv_def Let_def phase_le_def elim!: relay_inv_mono)
  show "dr_inv app init chain_id obs (s\<lparr>dr_logs := ls, dr_state := DR_RelayDeposits b (it_to it)\<rparr>, w\<lparr>w_home := c\<rparr>)"
    if "r = Ok (Ready (Some it))"
      and "deposit_busy app (foreign_contract_address init) chain_id b (w_foreign w) (it_logs it)"
    using assms that log_stream_items.inv_item [of "app_home app"]
    by (auto simp: dr_inv_def Let_def elim!: relay_inv_fetch)
qed

lemma dr_batch_step:
  assumes "dr_inv app init chain_id obs (s, w)" and "dr_state s = DR_RelayDeposits b n"
    and "batch_poll app (app_foreign app) (b, w_foreign w) = Some ((b', c), r)"
  shows "world_extends w (w\<lparr>w_foreign := c\<rparr>)"
    and "dr_inv app init chain_id obs (s\<lparr>dr_state := DR_RelayDeposits b' n\<rparr>, w\<lparr>w_foreign := c\<rparr>)"
    and "r = Ok (Ready v) \<Longrightarrow>
      dr_inv app init chain_id obs (s\<lparr>dr_state := DR_Yield (Some n)\<rparr>, w\<lparr>w_foreign := c\<rparr>)"
proof -
  let ?k = "foreign_contract_address init" and ?li = "deposit_logs_init app init"
  let ?streamed = "\<lambda>its. ls_inv (app_home app) (lsi_after ?li) (lsi_filter ?li) (lsi_confirmations ?li) its
      (dr_logs s, w_home w)"
  have "relay_inv ?streamed (deposit_handled app ?k chain_id (w_foreign w)) DepositRelay
       (Busy n (deposit_busy app ?k chain_id b (w_foreign w))) obs"
    using assms(1,2) by (simp add: dr_inv_def Let_def)
  note polled = relay_inv_batch [where streamed' = ?streamed, OF this assms(3), simplified]
  show "world_extends w (w\<lparr>w_foreign := c\<rparr>)"
    using polled(1) by simp
  show "dr_inv app init chain_id obs (s\<lparr>dr_state := DR_RelayDeposits b' n\<rparr>, w\<lparr>w_foreign := c\<rparr>)"
    using assms(1) polled(2) by (simp add: dr_inv_def Let_def)
  show "dr_inv app init chain_id obs (s\<lparr>dr_state := DR_Yield (Some n)\<rparr>, w\<lparr>w_foreign := c\<rparr>)"
    if "r = Ok (Ready v)"
    using assms(1) polled(3) [OF that] by (simp add: dr_inv_def Let_def)
qed

lemma dr_continue:
  assumes inv: "dr_inv app init chain_id obs (s, w)"
    and step: "deposit_relay_body app (s, w) = Continue t"
  shows "dr_inv app init chain_id obs t \<and> world_extends w (snd t)"
proof (cases "dr_state s")
  case DR_Wait
  have k: "dr_foreign_contract s = foreign_contract_address init" "dr_foreign_chain_id s = chain_id"
    using inv by (simp_all add: dr_inv_def Let_def)
  obtain bal ls c r where bal: "w_foreign_balance w = Some bal"
    and p: "log_stream_poll (app_home app) (dr_logs s, w_home w) = Some ((ls, c), r)"
    using step DR_Wait by (auto simp: deposit_relay_body_def inner_def split: option.splits)
  with step DR_Wait obtain it where r: "r = Ok (Ready (Some it))"
    by (cases r) (auto simp: deposit_relay_body_def Let_def elim!: try_stream.elims)
  then show ?thesis
    using step DR_Wait bal p k dr_stream_step(1) [OF inv DR_Wait p]
      dr_stream_step(3) [OF inv DR_Wait p r deposit_busy_start]
    by (auto simp: deposit_relay_body_def Let_def split: if_splits result.splits)
next
  case (DR_RelayDeposits b n)
  obtain b' c r where p: "batch_poll app (app_foreign app) (b, w_foreign w) = Some ((b', c), r)"
    using step DR_RelayDeposits by (auto simp: deposit_relay_body_def inner_def split: option.splits)
  with step DR_RelayDeposits obtain v where "r = Ok (Ready v)"
    by (cases r) (auto simp: deposit_relay_body_def Let_def elim!: try_ready.elims)
  then show ?thesis
    using step DR_RelayDeposits p dr_batch_step [OF inv DR_RelayDeposits p]
    by (auto simp: deposit_relay_body_def Let_def)
next
  case (DR_Yield b)
  then show ?thesis
    using inv step by (auto simp: deposit_relay_body_def dr_inv_def Let_def split: option.splits)
qed

lemma dr_return:
  assumes inv: "dr_inv app init chain_id obs (s, w)"
    and step: "deposit_relay_body app (s, w) = Return t r"
  shows "relay_post (dr_inv app init chain_id) obs w t r"
proof (cases "dr_state s")
  case DR_Wait
  show ?thesis
  proof (cases "w_foreign_balance w")
    case None
    then show ?thesis
      using inv step DR_Wait by (auto simp: deposit_relay_body_def relay_post_def)
  next
    case (Some bal)
    then obtain ls c q where p: "log_stream_poll (app_home app) (dr_logs s, w_home w) = Some ((ls, c), q)"
      using step DR_Wait by (auto simp: deposit_relay_body_def inner_def split: option.splits)
    have t: "t = (s\<lparr>dr_logs := ls\<rparr>, w\<lparr>w_home := c\<rparr>) \<and>
      (r = Ok NotReady \<or> r = Ok (Ready None) \<longrightarrow> q = Ok NotReady \<or> q = Ok (Ready None)) \<and>
      (\<forall>n. r \<noteq> Ok (Ready (Some n)))"
      using step DR_Wait Some p
      by (cases q) (auto simp: deposit_relay_body_def Let_def elim!: try_stream.elims
          split: if_splits result.splits)
    then show ?thesis
      using dr_stream_step(1,2) [OF inv DR_Wait p] by (auto simp: relay_post_def)
  qed
next
  case (DR_RelayDeposits b n)
  obtain b' c q where p: "batch_poll app (app_foreign app) (b, w_foreign w) = Some ((b', c), q)"
    using step DR_RelayDeposits by (auto simp: deposit_relay_body_def inner_def split: option.splits)
  have "t = (s\<lparr>dr_state := DR_RelayDeposits b' n\<rparr>, w\<lparr>w_foreign := c\<rparr>) \<and> (\<forall>n. r \<noteq> Ok (Ready (Some n)))"
    using step DR_RelayDeposits p
    by (cases q) (auto simp: deposit_relay_body_def Let_def elim!: try_ready.elims)
  then show ?thesis
    using dr_batch_step(1,2) [OF inv DR_RelayDeposits p] by (auto simp: relay_post_def)
next
  case (DR_Yield b)
  then show ?thesis
    using inv step
    by (auto simp: deposit_relay_body_def relay_post_def dr_inv_def Let_def dest: relay_inv_yield
        split: option.splits)
qed

lemma dr_cells:
  "deposit_relay_body app (s, w) = Continue t \<Longrightarrow> cells (snd t) = cells w"
  "deposit_relay_body app (s, w) = Return t r \<Longrightarrow> cells (snd t) = cells w"
  by (auto simp: deposit_relay_body_def inner_def Let_def elim!: try_stream.elims try_ready.elims
      split: deposit_relay_state.splits option.splits result.splits prod.splits if_splits)

interpretation deposits: relay_machine "deposit_relay_body app" "dr_inv app init chain_id" for app init chain_id
  by unfold_locales (fact dr_continue, fact dr_return, fact dr_inv_extends, (fact dr_cells)+)

lemma dr_inv_start: "dr_inv app init chain_id [] (create_deposit_relay app init chain_id, w)"
  by (simp add: dr_inv_def Let_def create_deposit_relay_def relay_inv_def ls_inv_start)

text \<open>A poll goes at most once through its states.\<close>

fun dr_rank :: "deposit_relay_state \<Rightarrow> nat" where
  "dr_rank (DR_Yield None) = 3"
| "dr_rank DR_Wait = 2"
| "dr_rank (DR_RelayDeposits b n) = 1"
| "dr_rank (DR_Yield (Some n)) = 0"

lemma deposit_relay_returns:
  assumes "settles K (SendRawTransaction (app_foreign app))"
  shows "\<exists>t r. poll_loop (deposit_relay_body app) s = Some (t, r)"
proof -
  have "poll_ranked (deposit_relay_body app) (\<lambda>_. True) (\<lambda>(s, w). dr_rank (dr_state s))"
  proof
    show "deposit_relay_body app u \<noteq> Diverge" for u
      by (auto simp: batch_poll_returns [OF assms] deposit_relay_body_def Let_def inner_def elim!: try_stream.elims try_ready.elims
          split: deposit_relay_state.splits option.splits result.splits if_splits prod.splits)
    show "deposit_relay_body app u = Continue v \<Longrightarrow>
        True \<and> (case v of (s, w) \<Rightarrow> dr_rank (dr_state s)) < (case u of (s, w) \<Rightarrow> dr_rank (dr_state s))" for u v
      by (auto simp: deposit_relay_body_def Let_def inner_def elim!: try_stream.elims try_ready.elims
          split: deposit_relay_state.splits option.splits result.splits if_splits prod.splits)
  qed
  then show ?thesis
    by (rule poll_ranked.poll_returns) simp
qed

text \<open>What the invariant says of the checkpoints reported so far.\<close>

lemma dr_inv_checkpoints:
  assumes "dr_inv app init chain_id obs (s, v)"
  shows "\<exists>its b. obs = map (DepositRelay \<circ> it_to) its \<and> tiles (checked_deposit_relay init) its b \<and>
    (\<forall>it\<in>set its.
       item_ok (app_home app) (deposits_filter (app_contracts app) (home_contract_address init))
         (n_required_confirmations (cfg_home (app_config app))) (w_home v) it \<and>
       (\<forall>lg\<in>set (it_logs it).
          deposit_handled app (foreign_contract_address init) chain_id (w_foreign v) lg))"
  using assms unfolding dr_inv_def Let_def prod.case deposit_logs_init_def log_stream_init.simps
  by (elim conjE) (rule relay_inv_checkpoints, assumption, erule ls_inv_good)

section \<open>Properties\<close>

text \<open>
  C4. The checkpoints of the deposit relay are safe: however the nodes answer and whatever the other
  parts of the bridge do in between, the reported checkpoints are the last blocks of consecutive
  block ranges that start right after the block in the database; each range was confirmed and its
  logs are what the home node answered; and for every deposit log up to the last checkpoint the
  foreign node has accepted the call of \<open>ForeignBridge.deposit\<close> for it. Nothing is skipped.
\<close>

theorem deposit_relay_checkpoints:
  assumes "stream_run (deposit_relay_poll app) relay_rely (create_deposit_relay app init chain_id, w) obs (s, v)"
  shows "\<exists>its b. obs = map (DepositRelay \<circ> it_to) its \<and> tiles (checked_deposit_relay init) its b \<and>
    (\<forall>it\<in>set its.
       item_ok (app_home app) (deposits_filter (app_contracts app) (home_contract_address init))
         (n_required_confirmations (cfg_home (app_config app))) (w_home v) it \<and>
       (\<forall>lg\<in>set (it_logs it).
          deposit_handled app (foreign_contract_address init) chain_id (w_foreign v) lg))"
  by (rule dr_inv_checkpoints [OF deposits.checks.run_inv [OF assms [unfolded deposit_relay_poll_def] dr_inv_start]])

text \<open>
  When the funds of the validator on the foreign chain do not cover gas, gas price and number of
  the deposits found, the relay fails with \<open>InsufficientFunds\<close> and sends nothing; the products do
  not overflow, so this is the exact comparison.
\<close>

lemma deposit_relay_insufficient_funds:
  assumes "dr_state s = DR_Wait" and "w_foreign_balance w = Some balance"
    and "log_stream_poll (app_home app) (dr_logs s, w_home w) = Some ((ls, c), Ok (Ready (Some it)))"
    and "length (it_logs it) < 2 ^ 64"
    and "unat (tc_gas (txs_deposit_relay (cfg_txs (app_config app)))) * unat (w_foreign_gas_price w) *
         length (it_logs it) > unat balance"
  shows "deposit_relay_poll app (s, w) =
    Some ((s\<lparr>dr_logs := ls\<rparr>, w\<lparr>w_home := c\<rparr>), Err (from_kind InsufficientFunds))"
  using assms unat_balance_required [OF assms(4)]
  by (simp add: deposit_relay_poll_def poll_loop.simps deposit_relay_body_def deposit_gas_def
      balance_required_def word_less_nat_alt Let_def)

text \<open>
  Every poll of the deposit relay returns when the foreign node stops answering sends with
  stale-nonce errors at some point.
\<close>

lemma deposit_relay_poll_returns:
  assumes "settles K (SendRawTransaction (app_foreign app))"
  shows "\<exists>t r. deposit_relay_poll app s = Some (t, r)"
  unfolding deposit_relay_poll_def using assms by (rule deposit_relay_returns)

end
