(* ===== verification/Examples.thy ===== *)
theory Examples
  imports DepositRelay
begin

text \<open>
  A small concrete setting (two nodes that answer at once, a validator, one log) and the theorems of
  the components applied in it, so that their hypotheses are seen to hold together. Everything is
  evaluated by rewriting with the definitions of the model.
\<close>

section \<open>The setting\<close>

definition demo_log :: log where
  "demo_log = \<lparr> lg_topics = [1], lg_data = [2, 3], lg_transaction_hash = Some 77 \<rparr>"

definition demo_transport :: transport where
  "demo_transport =
     \<lparr> tr_net_version = (\<lambda>_. [Inner (A_Value ''42'')]),
       tr_transaction_count = (\<lambda>_. [Inner (A_Value 7)]),
       tr_logs = (\<lambda>_. [Inner (A_Value [demo_log])]),
       tr_block_number = (\<lambda>_. [Inner (A_Value 20)]),
       tr_balance = (\<lambda>_. [Inner (A_Value 1000000)]),
       tr_send_raw_transaction = (\<lambda>_. [Inner (A_Value 99)]),
       tr_send_with_confirmation =
         (\<lambda>_ _ _. [Inner (A_Value \<lparr> rc_transaction_hash = 99, rc_block_number = 5,
                                  rc_contract_address = Some 1234 \<rparr>)]),
       tr_call = (\<lambda>_. [Inner (A_Value [1])]),
       tr_serialize_filter = (\<lambda>_. JObject [(''topics'', JArray [JString ''t'', JNull])]) \<rparr>"

definition demo_topics :: topic_filter where
  "demo_topics = \<lparr> tf_topic0 = [1], tf_topic1 = [], tf_topic2 = [], tf_topic3 = [] \<rparr>"

definition demo_contracts :: contracts where
  "demo_contracts =
     \<lparr> home_deposit_filter = demo_topics,
       home_deposit_parse_log = (\<lambda>_. Ok \<lparr> dl_recipient = 5, dl_value = 6 \<rparr>),
       home_withdraw_input = (\<lambda>vs rs ss m. vs @ m),
       home_constructor = (\<lambda>bin req accounts cost. bin),
       foreign_withdraw_filter = demo_topics,
       foreign_withdraw_parse_log = (\<lambda>_. Ok \<lparr> wl_recipient = 5, wl_value = 6, wl_home_gas_price = 7 \<rparr>),
       foreign_collected_signatures_filter = demo_topics,
       foreign_collected_signatures_parse_log = (\<lambda>_. Ok \<lparr> cs_authority_responsible_for_relay = 9,
          cs_message_hash = 8, cs_number_of_collected_signatures = 1 \<rparr>),
       foreign_deposit_input = (\<lambda>recipient value hash. be_bytes 2 recipient @ be_bytes 2 value),
       foreign_submit_signature_input = (\<lambda>sig m. take 2 m),
       foreign_signature_input = (\<lambda>hash index. be_bytes 4 index),
       foreign_signature_output = (\<lambda>_. Ok (replicate 65 1)),
       foreign_message_input = (\<lambda>hash. [0, 0, 0, 0] @ be_bytes 32 hash),
       foreign_message_output = (\<lambda>_. Ok (replicate 116 2)),
       foreign_constructor = (\<lambda>bin req accounts cost. bin) \<rparr>"

definition demo_node :: node where
  "demo_node =
     \<lparr> n_account = 9, n_contract_bin = Some [1], n_request_timeout = 5, n_poll_interval = 1,
       n_required_confirmations = 2, n_rpc_host = ''https://rpc'', n_rpc_port = 443,
       n_password = ''pw'', n_gas_price_oracle_url = None, n_gas_price_speed = Fast,
       n_gas_price_timeout = 5, n_default_gas_price = 3, n_concurrent_http_requests = 64 \<rparr>"

definition demo_config :: config where
  "demo_config =
     (let tc = \<lparr> tc_gas = 10, tc_gas_price = 0 \<rparr> in
     \<lparr> cfg_home = demo_node, cfg_foreign = demo_node,
       cfg_authorities = \<lparr> au_accounts = Some [9], au_required_signatures = Some 1 \<rparr>,
       cfg_txs = \<lparr> txs_home_deploy = Some tc, txs_foreign_deploy = Some tc, txs_deposit_relay = tc,
                   txs_withdraw_confirm = tc, txs_withdraw_relay = tc \<rparr>,
       cfg_estimated_gas_cost_of_withdraw = Some 0, cfg_keystore = ''keys'' \<rparr>)"

definition demo_app :: app where
  "demo_app =
     \<lparr> app_config = demo_config, app_database_path = ''db'', app_home = demo_transport,
       app_foreign = demo_transport, app_contracts = demo_contracts,
       app_timer_interval = (\<lambda>_ _. [T_Tick, T_Tick]),
       app_keystore_sign = (\<lambda>_ _. Inr [1]), app_into_electrum = (\<lambda>_. 1),
       app_tx_hash = (\<lambda>tx _. tx_nonce tx),
       app_tx_rlp = (\<lambda>tx sig chain_id. Some (be_bytes 1 (tx_nonce tx) @ tx_data tx)),
       app_keccak = (\<lambda>_. 3), app_wakeups = (\<lambda>_. [[0]]), app_log_info = True \<rparr>"

definition demo_chain :: chain where
  "demo_chain = \<lparr> ch_nonce = 4, ch_calls = [] \<rparr>"

definition demo_world :: world where
  "demo_world =
     \<lparr> w_home = demo_chain, w_foreign = demo_chain, w_home_balance = Some 1000000,
       w_foreign_balance = Some 1000000, w_home_gas_price = 3, w_foreign_gas_price = 3,
       w_running = True \<rparr>"

definition demo_database :: database where
  "demo_database =
     \<lparr> home_contract_address = 100, foreign_contract_address = 200, home_deploy = None,
       foreign_deploy = None, checked_deposit_relay = 10, checked_withdraw_relay = 10,
       checked_withdraw_confirm = 10 \<rparr>"

definition demo_init :: log_stream_init where
  "demo_init = deposit_logs_init demo_app demo_database"

definition demo_transaction :: transaction where
  "demo_transaction = relay_transaction 10 3 200 [1, 2]"

text \<open>The fields of the setting, so that its parts stay folded while they are evaluated.\<close>

lemma demo_log_fields [simp]:
  "lg_topics demo_log = [1]"
  "lg_data demo_log = [2, 3]"
  "lg_transaction_hash demo_log = Some 77"
  by (simp_all add: demo_log_def)

lemma demo_transport_fields [simp]:
  "tr_net_version demo_transport = (\<lambda>_. [Inner (A_Value ''42'')])"
  "tr_transaction_count demo_transport = (\<lambda>_. [Inner (A_Value 7)])"
  "tr_logs demo_transport = (\<lambda>_. [Inner (A_Value [demo_log])])"
  "tr_block_number demo_transport = (\<lambda>_. [Inner (A_Value 20)])"
  "tr_balance demo_transport = (\<lambda>_. [Inner (A_Value 1000000)])"
  "tr_send_raw_transaction demo_transport = (\<lambda>_. [Inner (A_Value 99)])"
  "tr_send_with_confirmation demo_transport = (\<lambda>_ _ _. [Inner (A_Value \<lparr> rc_transaction_hash = 99, rc_block_number = 5, rc_contract_address = Some 1234 \<rparr>)])"
  "tr_call demo_transport = (\<lambda>_. [Inner (A_Value [1])])"
  "tr_serialize_filter demo_transport = (\<lambda>_. JObject [(''topics'', JArray [JString ''t'', JNull])])"
  by (simp_all add: demo_transport_def)

lemma demo_topics_fields [simp]:
  "tf_topic0 demo_topics = [1]"
  "tf_topic1 demo_topics = []"
  "tf_topic2 demo_topics = []"
  "tf_topic3 demo_topics = []"
  by (simp_all add: demo_topics_def)

lemma demo_contracts_fields [simp]:
  "home_deposit_filter demo_contracts = demo_topics"
  "home_deposit_parse_log demo_contracts = (\<lambda>_. Ok \<lparr> dl_recipient = 5, dl_value = 6 \<rparr>)"
  "home_withdraw_input demo_contracts = (\<lambda>vs rs ss m. vs @ m)"
  "home_constructor demo_contracts = (\<lambda>bin req accounts cost. bin)"
  "foreign_withdraw_filter demo_contracts = demo_topics"
  "foreign_withdraw_parse_log demo_contracts = (\<lambda>_. Ok \<lparr> wl_recipient = 5, wl_value = 6, wl_home_gas_price = 7 \<rparr>)"
  "foreign_collected_signatures_filter demo_contracts = demo_topics"
  "foreign_collected_signatures_parse_log demo_contracts = (\<lambda>_. Ok \<lparr> cs_authority_responsible_for_relay = 9, cs_message_hash = 8, cs_number_of_collected_signatures = 1 \<rparr>)"
  "foreign_deposit_input demo_contracts = (\<lambda>recipient value hash. be_bytes 2 recipient @ be_bytes 2 value)"
  "foreign_submit_signature_input demo_contracts = (\<lambda>sig m. take 2 m)"
  "foreign_signature_input demo_contracts = (\<lambda>hash index. be_bytes 4 index)"
  "foreign_signature_output demo_contracts = (\<lambda>_. Ok (replicate 65 1))"
  "foreign_message_input demo_contracts = (\<lambda>hash. [0, 0, 0, 0] @ be_bytes 32 hash)"
  "foreign_message_output demo_contracts = (\<lambda>_. Ok (replicate 116 2))"
  "foreign_constructor demo_contracts = (\<lambda>bin req accounts cost. bin)"
  by (simp_all add: demo_contracts_def)

lemma demo_node_fields [simp]:
  "n_account demo_node = 9"
  "n_contract_bin demo_node = Some [1]"
  "n_request_timeout demo_node = 5"
  "n_poll_interval demo_node = 1"
  "n_required_confirmations demo_node = 2"
  "n_rpc_host demo_node = ''https://rpc''"
  "n_rpc_port demo_node = 443"
  "n_password demo_node = ''pw''"
  "n_gas_price_oracle_url demo_node = None"
  "n_gas_price_speed demo_node = Fast"
  "n_gas_price_timeout demo_node = 5"
  "n_default_gas_price demo_node = 3"
  "n_concurrent_http_requests demo_node = 64"
  by (simp_all add: demo_node_def)

lemma demo_app_fields [simp]:
  "app_config demo_app = demo_config"
  "app_database_path demo_app = ''db''"
  "app_home demo_app = demo_transport"
  "app_foreign demo_app = demo_transport"
  "app_contracts demo_app = demo_contracts"
  "app_timer_interval demo_app = (\<lambda>_ _. [T_Tick, T_Tick])"
  "app_keystore_sign demo_app = (\<lambda>_ _. Inr [1])"
  "app_into_electrum demo_app = (\<lambda>_. 1)"
  "app_tx_hash demo_app = (\<lambda>tx _. tx_nonce tx)"
  "app_tx_rlp demo_app = (\<lambda>tx sig chain_id. Some (be_bytes 1 (tx_nonce tx) @ tx_data tx))"
  "app_keccak demo_app = (\<lambda>_. 3)"
  "app_wakeups demo_app = (\<lambda>_. [[0]])"
  "app_log_info demo_app = True"
  by (simp_all add: demo_app_def)

lemma demo_chain_fields [simp]:
  "ch_nonce demo_chain = 4"
  "ch_calls demo_chain = []"
  by (simp_all add: demo_chain_def)

lemma demo_world_fields [simp]:
  "w_home demo_world = demo_chain"
  "w_foreign demo_world = demo_chain"
  "w_home_balance demo_world = Some 1000000"
  "w_foreign_balance demo_world = Some 1000000"
  "w_home_gas_price demo_world = 3"
  "w_foreign_gas_price demo_world = 3"
  "w_running demo_world = True"
  by (simp_all add: demo_world_def)

lemma demo_database_fields [simp]:
  "home_contract_address demo_database = 100"
  "foreign_contract_address demo_database = 200"
  "home_deploy demo_database = None"
  "foreign_deploy demo_database = None"
  "checked_deposit_relay demo_database = 10"
  "checked_withdraw_relay demo_database = 10"
  "checked_withdraw_confirm demo_database = 10"
  by (simp_all add: demo_database_def)

lemma demo_config_fields [simp]:
  "cfg_home demo_config = demo_node"
  "cfg_foreign demo_config = demo_node"
  "tc_gas (txs_deposit_relay (cfg_txs demo_config)) = 10"
  "tc_gas (txs_withdraw_confirm (cfg_txs demo_config)) = 10"
  "tc_gas (txs_withdraw_relay (cfg_txs demo_config)) = 10"
  by (simp_all add: demo_config_def Let_def)

lemmas eval_defs =
  log_stream_def log_stream_poll_def poll_loop.simps log_stream_body_def request_defs Let_def
  saturating_sub_def low_u64_def u256_of_def expect_def collect_poll_def futures_unordered_collect_def
  nonce_check_poll_def nonce_check_body_def send_transaction_with_nonce_def SendRawTransaction_def
  prepare_raw_transaction_def batch_poll_def

section \<open>Log streams\<close>

lemma demo_stream_poll:
  "\<exists>s d it. log_stream_poll demo_transport (log_stream (\<lambda>_. [T_Tick]) demo_init, demo_chain) =
     Some ((s, d), Ok (Ready (Some it))) \<and> it_to it = 18"
  by (simp add: demo_init_def deposit_logs_init_def eval_defs)

theorem log_stream_tiles_witness:
  "\<exists>its s d. map it_to its = [18] \<and>
     stream_run (log_stream_poll demo_transport) ls_rely
       (log_stream (\<lambda>_. [T_Tick]) demo_init, demo_chain) its (s, d) \<and>
     (\<exists>b. tiles (lsi_after demo_init) its b \<and>
       (\<forall>it\<in>set its. item_ok demo_transport (lsi_filter demo_init) (lsi_confirmations demo_init) d it))"
proof -
  obtain s d it where
    run: "stream_run (log_stream_poll demo_transport) ls_rely
      (log_stream (\<lambda>_. [T_Tick]) demo_init, demo_chain) [it] (s, d)" and "it_to it = 18"
    using demo_stream_poll stream_run_one by metis
  with log_stream_tiles [OF run] show ?thesis
    by (intro exI [of _ "[it]"] exI [of _ s] exI [of _ d]) simp
qed

theorem log_stream_blocks_once_witness:
  "\<exists>its s d. map it_to its = [18] \<and>
     stream_run (log_stream_poll demo_transport) ls_rely
       (log_stream (\<lambda>_. [T_Tick]) demo_init, demo_chain) its (s, d) \<and>
     (\<exists>b. \<forall>n. card {i. i < length its \<and> it_from (its ! i) \<le> n \<and> n \<le> it_to (its ! i)} =
       (if lsi_after demo_init < n \<and> n \<le> b then 1 else 0))"
proof -
  obtain s d it where
    run: "stream_run (log_stream_poll demo_transport) ls_rely
      (log_stream (\<lambda>_. [T_Tick]) demo_init, demo_chain) [it] (s, d)" and "it_to it = 18"
    using demo_stream_poll stream_run_one by metis
  with log_stream_blocks_once [OF run] show ?thesis
    by (intro exI [of _ "[it]"] exI [of _ s] exI [of _ d]) (simp only: list.map conj.left_neutral simp_thms)
qed

theorem log_stream_poll_yields_witness:
  "\<exists>t. log_stream_poll demo_transport (log_stream (\<lambda>_. [T_Tick]) demo_init, demo_chain) =
     Some (t, Ok (Ready (Some \<lparr> it_from = 11, it_to = 18, it_logs = [demo_log] \<rparr>)))"
  using log_stream_poll_yields [OF _ _ _ refl _ refl, of "log_stream (\<lambda>_. [T_Tick]) demo_init" "[]"
      demo_transport demo_chain 20 "[]" "[demo_log]" "[]"]
  by (simp add: log_stream_def demo_init_def deposit_logs_init_def saturating_sub_def low_u64_def)

section \<open>Nonces\<close>

abbreviation demo_check :: "h256 nonce_check" where
  "demo_check \<equiv> send_transaction_with_nonce demo_node demo_transaction 42"

lemma demo_check_poll:
  "\<exists>s d. nonce_check_poll demo_app demo_transport (SendRawTransaction demo_transport)
     (demo_check, demo_chain) = Some ((s, d), Ok (Ready 99))"
  by (simp add: eval_defs)

theorem nonce_check_accepted_witness:
  "\<exists>s d. nonce_check_poll demo_app demo_transport (SendRawTransaction demo_transport)
       (demo_check, demo_chain) = Some ((s, d), Ok (Ready 99)) \<and>
     accepted demo_app (tr_send_raw_transaction demo_transport) demo_node 42 demo_transaction d"
  using demo_check_poll nonce_check_accepted [OF future_run.created] by metis

lemma demo_settles: "settles 0 (SendRawTransaction demo_transport)"
  by (simp add: settles_def SendRawTransaction_def request_defs stale_reply_def Let_def)

theorem nonce_check_poll_returns_witness:
  "settles 0 (SendRawTransaction demo_transport) \<and>
   (\<exists>t r. nonce_check_poll demo_app demo_transport (SendRawTransaction demo_transport)
     (demo_check, demo_chain) = Some (t, r))"
  using demo_settles nonce_check_poll_returns [OF demo_settles] by blast

theorem nonce_check_sends_witness:
  "\<exists>s. nonce_check_poll demo_app demo_transport (SendRawTransaction demo_transport) (demo_check, demo_chain) =
     Some ((s, \<lparr>ch_nonce = 5, ch_calls = [Eth_sendRawTransaction [4, 1, 2]]\<rparr>), Ok (Ready 99))"
  using nonce_check_sends [OF _ refl _ refl, of demo_check demo_chain demo_app "[4, 1, 2]"
      demo_transport 99 "[]"]
  by (simp add: send_transaction_with_nonce_def prepare_raw_transaction_def expect_def
      demo_transaction_def relay_transaction_def be_bytes_def)

definition demo_stale :: rpc_error where
  "demo_stale = RpcError (ServerError (-32010)) ''Try incrementing the nonce.''"

theorem nonce_check_reacquires_witness:
  "\<exists>s. nonce_check_poll demo_app demo_transport (SendRawTransaction demo_transport)
       (demo_check\<lparr>nc_state := NC_TransactionRequest [Inner (A_Fail (W_Rpc demo_stale))]\<rparr>, demo_chain) =
     Some ((s, \<lparr>ch_nonce = 7, ch_calls = [Eth_sendRawTransaction [7, 1, 2],
       Eth_getTransactionCount 9 Pending]\<rparr>), Ok (Ready 99))"
  using nonce_check_reacquires [OF _ _ _ refl _ refl _ refl,
      of "demo_check\<lparr>nc_state := NC_TransactionRequest [Inner (A_Fail (W_Rpc demo_stale))]\<rparr>"
        demo_stale "[]" demo_transport demo_chain 7 "[]" demo_app "[7, 1, 2]" 99 "[]"]
  by (simp add: send_transaction_with_nonce_def prepare_raw_transaction_def expect_def demo_stale_def
      demo_transaction_def relay_transaction_def be_bytes_def ends_with_def)


theorem nonce_check_fails_witness:
  "\<exists>s. nonce_check_poll demo_app demo_transport (SendRawTransaction demo_transport)
     (demo_check\<lparr>nc_state := NC_TransactionRequest [Timed TimedOut]\<rparr>, demo_chain) =
   Some ((s, demo_chain), Err (from_kind (Timeout ''communication timeout'')))"
  using nonce_check_fails [of "demo_check\<lparr>nc_state := NC_TransactionRequest [Timed TimedOut]\<rparr>"
      "Timed TimedOut" "[]" _ "from_kind (Timeout ''communication timeout'')" TimedOut demo_app demo_transport
      "SendRawTransaction demo_transport" demo_chain]
  by simp

section \<open>Deposit relay\<close>

abbreviation demo_deposit_relay :: deposit_relay where
  "demo_deposit_relay \<equiv> create_deposit_relay demo_app demo_database 42"

lemma demo_deposit_poll:
  "\<exists>s v. deposit_relay_poll demo_app (demo_deposit_relay, demo_world) =
     Some ((s, v), Ok (Ready (Some (DepositRelay 18))))"
  by (simp add: create_deposit_relay_def deposit_logs_init_def deposit_relay_poll_def deposit_relay_body_def
    deposit_gas_def deposit_relay_payload_def eval_defs)

theorem deposit_relay_checkpoints_witness:
  "\<exists>s v its b. stream_run (deposit_relay_poll demo_app) relay_rely (demo_deposit_relay, demo_world)
       [DepositRelay 18] (s, v) \<and>
     [DepositRelay 18] = map (DepositRelay \<circ> it_to) its \<and> tiles 10 its b \<and>
     (\<forall>it\<in>set its. \<forall>lg\<in>set (it_logs it). deposit_handled demo_app 200 42 (w_foreign v) lg)"
proof -
  obtain s v where run: "stream_run (deposit_relay_poll demo_app) relay_rely (demo_deposit_relay, demo_world)
      [DepositRelay 18] (s, v)"
    using demo_deposit_poll stream_run_one by metis
  from deposit_relay_checkpoints [OF run] obtain its b where
    "[DepositRelay 18] = map (DepositRelay \<circ> it_to) its" "tiles 10 its b"
    "\<forall>it\<in>set its. \<forall>lg\<in>set (it_logs it). deposit_handled demo_app 200 42 (w_foreign v) lg"
    unfolding demo_database_fields by (elim exE conjE) (metis (no_types, lifting))
  with run show ?thesis
    by (intro exI [of _ s] exI [of _ v] exI [of _ its] exI [of _ b] conjI)
qed

theorem deposit_relay_insufficient_funds_witness:
  "\<exists>t. deposit_relay_poll demo_app (demo_deposit_relay, demo_world\<lparr>w_foreign_balance := Some 29\<rparr>) =
     Some (t, Err (from_kind InsufficientFunds))"
proof -
  obtain ls c where "log_stream_poll demo_transport (dr_logs demo_deposit_relay, demo_chain) =
      Some ((ls, c), Ok (Ready (Some \<lparr> it_from = 11, it_to = 18, it_logs = [demo_log] \<rparr>)))"
    by (simp add: create_deposit_relay_def deposit_logs_init_def eval_defs)
  then show ?thesis
    using deposit_relay_insufficient_funds [of demo_deposit_relay "demo_world\<lparr>w_foreign_balance := Some 29\<rparr>" 29
        demo_app ls c "\<lparr> it_from = 11, it_to = 18, it_logs = [demo_log] \<rparr>"]
    by (simp add: create_deposit_relay_def)
qed

theorem deposit_relay_poll_returns_witness:
  "settles 0 (SendRawTransaction (app_foreign demo_app)) \<and>
   (\<exists>t r. deposit_relay_poll demo_app (demo_deposit_relay, demo_world) = Some (t, r))"
  using demo_settles deposit_relay_poll_returns [of 0 demo_app] by simp

end
