(* ===== verification/Message.thy ===== *)
theory Message
  imports Contracts
begin

text \<open>
  \<^verbatim>\<open>bridge/src/message_to_mainnet.rs\<close> and \<^verbatim>\<open>bridge/src/signature.rs\<close>: the two fixed-layout byte
  formats that validators sign and relay. Both are shown to be exact inverses of their decoders,
  and their lengths to be those the contracts require.
\<close>

section \<open>Fixed-layout codecs\<close>

text \<open>
  The contract both formats meet: a fixed length, a decoder that accepts exactly that length, and
  the two round trips. Encoding is then injective and decoding is a bijection onto the values.
\<close>

locale fixed_codec =
  fixes enc :: "'a \<Rightarrow> bytes" and dec :: "bytes \<Rightarrow> 'a result" and len :: nat
  assumes enc_length: "length (enc x) = len"
    and dec_enc: "dec (enc x) = Ok x"
    and enc_dec: "dec bs = Ok x \<Longrightarrow> enc x = bs"
    and dec_total: "length bs = len \<Longrightarrow> \<exists>x. dec bs = Ok x"
begin

lemma enc_inject: "enc x = enc y \<longleftrightarrow> x = y"
  using dec_enc by (metis result.inject(1))

lemma dec_Ok_iff: "dec bs = Ok x \<longleftrightarrow> bs = enc x"
  using dec_enc enc_dec by auto

lemma dec_accepts_iff: "(\<exists>x. dec bs = Ok x) \<longleftrightarrow> length bs = len"
  using dec_total enc_dec enc_length by metis

end

section \<open>MessageToMainnet\<close>

record message_to_mainnet =
  m_recipient :: address
  m_value :: u256
  m_sidenet_transaction_hash :: h256
  m_mainnet_gas_price :: u256

definition MESSAGE_LENGTH :: nat where
  "MESSAGE_LENGTH = 116"

definition message_from_bytes :: "bytes \<Rightarrow> message_to_mainnet result" where
  "message_from_bytes bs =
     (if length bs \<noteq> MESSAGE_LENGTH then Panic ''assertion failed: bytes.len() == MESSAGE_LENGTH''
      else Ok \<lparr> m_recipient = be_word (subslice 0 20 bs),
                m_value = be_word (subslice 20 52 bs),
                m_sidenet_transaction_hash = be_word (subslice 52 84 bs),
                m_mainnet_gas_price = be_word (subslice 84 MESSAGE_LENGTH bs) \<rparr>)"

definition message_from_log :: "contracts \<Rightarrow> log \<Rightarrow> message_to_mainnet result" where
  "message_from_log ct web3_log =
     (let raw = \<lparr> rl_topics = lg_topics web3_log, rl_data = lg_data web3_log \<rparr> in
      and_then (foreign_withdraw_parse_log ct raw) (\<lambda>wl.
        (case lg_transaction_hash web3_log of
           None \<Rightarrow> Err (from_kind (Msg ''`log` must be mined and contain `transaction_hash`''))
         | Some hash \<Rightarrow> Ok \<lparr> m_recipient = wl_recipient wl,
                             m_value = wl_value wl,
                             m_sidenet_transaction_hash = hash,
                             m_mainnet_gas_price = wl_home_gas_price wl \<rparr>)))"

definition message_to_bytes :: "message_to_mainnet \<Rightarrow> bytes" where
  "message_to_bytes m =
     (let result = replicate MESSAGE_LENGTH 0;
          result = copy_at 0 (be_bytes 20 (m_recipient m)) result;
          result = copy_at 20 (be_bytes 32 (m_value m)) result;
          result = copy_at 52 (be_bytes 32 (m_sidenet_transaction_hash m)) result;
          result = copy_at 84 (be_bytes 32 (m_mainnet_gas_price m)) result
      in result)"

text \<open>\<open>ethabi::encode\<close> of a single bytes token is a parameter.\<close>

definition message_to_payload :: "(bytes \<Rightarrow> bytes) \<Rightarrow> message_to_mainnet \<Rightarrow> bytes" where
  "message_to_payload ethabi_encode m = ethabi_encode (message_to_bytes m)"

lemma message_to_bytes_append:
  "message_to_bytes m =
     be_bytes 20 (m_recipient m) @ be_bytes 32 (m_value m) @
     be_bytes 32 (m_sidenet_transaction_hash m) @ be_bytes 32 (m_mainnet_gas_price m)"
  by (simp add: message_to_bytes_def copy_at_def MESSAGE_LENGTH_def)

lemma message_from_to_bytes: "message_from_bytes (message_to_bytes m) = Ok m"
  by (simp add: message_from_bytes_def message_to_bytes_append MESSAGE_LENGTH_def subslice_def
      codec_simps)

lemma message_to_from_bytes: "message_from_bytes bs = Ok m \<Longrightarrow> message_to_bytes m = bs"
proof -
  assume ok: "message_from_bytes bs = Ok m"
  then have len: "length bs = 116"
    by (auto simp: message_from_bytes_def MESSAGE_LENGTH_def split: if_splits)
  have "message_to_bytes m = subslice 0 20 bs @ subslice 20 52 bs @ subslice 52 84 bs @ subslice 84 116 bs"
    using ok len
    by (auto simp: message_from_bytes_def message_to_bytes_append MESSAGE_LENGTH_def
        be_bytes_be_word split: if_splits)
  also have "\<dots> = subslice 0 116 bs"
    by (simp add: subslice_append)
  finally show ?thesis
    using len subslice_all [of bs] by simp
qed

interpretation message_codec: fixed_codec message_to_bytes message_from_bytes MESSAGE_LENGTH
proof
  show "length (message_to_bytes m) = MESSAGE_LENGTH" for m
    by (simp add: message_to_bytes_append MESSAGE_LENGTH_def)
  show "message_from_bytes (message_to_bytes m) = Ok m" for m
    by (rule message_from_to_bytes)
  show "message_from_bytes bs = Ok m \<Longrightarrow> message_to_bytes m = bs" for bs m
    by (rule message_to_from_bytes)
  show "length bs = MESSAGE_LENGTH \<Longrightarrow> \<exists>m. message_from_bytes bs = Ok m" for bs
    by (simp add: message_from_bytes_def)
qed

section \<open>Signature\<close>

record signature =
  sig_v :: u8
  sig_r :: h256
  sig_s :: h256

definition SIGNATURE_LENGTH :: nat where
  "SIGNATURE_LENGTH = 65"

definition signature_from_bytes :: "bytes \<Rightarrow> signature result" where
  "signature_from_bytes bs =
     (if length bs \<noteq> SIGNATURE_LENGTH then Err (from_kind (Msg ''`bytes`.len() must be 65''))
      else Ok \<lparr> sig_v = bs ! 64,
                sig_r = be_word (subslice 0 32 bs),
                sig_s = be_word (subslice 32 64 bs) \<rparr>)"

definition signature_to_bytes :: "signature \<Rightarrow> bytes" where
  "signature_to_bytes sg =
     (let result = replicate SIGNATURE_LENGTH 0;
          result = copy_at 0 (be_bytes 32 (sig_r sg)) result;
          result = copy_at 32 (be_bytes 32 (sig_s sg)) result;
          result = result[64 := sig_v sg]
      in result)"

definition signature_to_payload :: "(bytes \<Rightarrow> bytes) \<Rightarrow> signature \<Rightarrow> bytes" where
  "signature_to_payload ethabi_encode sg = ethabi_encode (signature_to_bytes sg)"

lemma signature_to_bytes_append:
  "signature_to_bytes sg = be_bytes 32 (sig_r sg) @ be_bytes 32 (sig_s sg) @ [sig_v sg]"
  by (simp add: signature_to_bytes_def copy_at_def SIGNATURE_LENGTH_def list_update_append)

lemma signature_from_to_bytes: "signature_from_bytes (signature_to_bytes sg) = Ok sg"
  by (simp add: signature_from_bytes_def signature_to_bytes_append SIGNATURE_LENGTH_def subslice_def
      nth_append codec_simps)

lemma signature_to_from_bytes: "signature_from_bytes bs = Ok sg \<Longrightarrow> signature_to_bytes sg = bs"
proof -
  assume ok: "signature_from_bytes bs = Ok sg"
  then have len: "length bs = 65"
    by (auto simp: signature_from_bytes_def SIGNATURE_LENGTH_def split: if_splits)
  have last: "[bs ! 64] = subslice 64 65 bs"
    using len Cons_nth_drop_Suc [of 64 bs] by (simp add: subslice_def)
  have "signature_to_bytes sg = subslice 0 32 bs @ subslice 32 64 bs @ subslice 64 65 bs"
    using ok len
    by (auto simp: signature_from_bytes_def signature_to_bytes_append SIGNATURE_LENGTH_def
        be_bytes_be_word simp flip: last split: if_splits)
  also have "\<dots> = subslice 0 65 bs"
    by (simp add: subslice_append)
  finally show ?thesis
    using len subslice_all [of bs] by simp
qed

interpretation signature_codec: fixed_codec signature_to_bytes signature_from_bytes SIGNATURE_LENGTH
proof
  show "length (signature_to_bytes sg) = SIGNATURE_LENGTH" for sg
    by (simp add: signature_to_bytes_append SIGNATURE_LENGTH_def)
  show "signature_from_bytes (signature_to_bytes sg) = Ok sg" for sg
    by (rule signature_from_to_bytes)
  show "signature_from_bytes bs = Ok sg \<Longrightarrow> signature_to_bytes sg = bs" for bs sg
    by (rule signature_to_from_bytes)
  show "length bs = SIGNATURE_LENGTH \<Longrightarrow> \<exists>sg. signature_from_bytes bs = Ok sg" for bs
    by (simp add: signature_from_bytes_def)
qed

section \<open>Properties\<close>

text \<open>
  C28. Both byte formats are exact: a byte string is read as a message, or as a signature, exactly when
  it is the encoding of that value; encodings have 116 and 65 bytes; a string of another length is
  rejected, and every string of the right length is read.
\<close>

theorem message_roundtrip:
  "(message_from_bytes bs = Ok m \<longleftrightarrow> bs = message_to_bytes m) \<and> length (message_to_bytes m) = 116 \<and>
   ((\<exists>m. message_from_bytes bs = Ok m) \<longleftrightarrow> length bs = 116) \<and>
   (signature_from_bytes bs = Ok sg \<longleftrightarrow> bs = signature_to_bytes sg) \<and> length (signature_to_bytes sg) = 65 \<and>
   ((\<exists>sg. signature_from_bytes bs = Ok sg) \<longleftrightarrow> length bs = 65)"
  using message_codec.dec_Ok_iff [of bs m] message_codec.enc_length [of m] message_codec.dec_accepts_iff [of bs]
    signature_codec.dec_Ok_iff [of bs sg] signature_codec.enc_length [of sg] signature_codec.dec_accepts_iff [of bs]
  by (simp add: MESSAGE_LENGTH_def SIGNATURE_LENGTH_def)

end
