(* ===== verification/WithdrawConfirm.thy ===== *)
theory WithdrawConfirm
  imports Relay Message
begin

text \<open>
  \<^verbatim>\<open>bridge/src/bridge/withdraw_confirm.rs\<close>: for every \<open>Withdraw\<close> event on the foreign chain the
  validator signs the message to the home chain that the event stands for and submits the signature
  to \<open>ForeignBridge.submitSignature\<close>; the block up to which this has been done is reported.
\<close>

section \<open>Definitions\<close>

definition withdraws_filter :: "contracts \<Rightarrow> address \<Rightarrow> log_filter" where
  "withdraws_filter ct addr = web3_filter (foreign_withdraw_filter ct) [addr]"

definition withdraw_submit_signature_payload :: "contracts \<Rightarrow> bytes \<Rightarrow> h520 \<Rightarrow> bytes result" where
  "withdraw_submit_signature_payload ct withdraw_message signature =
     (if length withdraw_message \<noteq> MESSAGE_LENGTH
      then Panic ''ForeignBridge never accepts messages with len != 116 bytes; qed''
      else Ok (foreign_submit_signature_input ct (be_bytes 65 signature) withdraw_message))"

datatype withdraw_confirm_state =
  WC_Wait
| WC_ConfirmWithdraws batch u64
| WC_Yield "u64 option"

record withdraw_confirm =
  wc_logs :: log_stream
  wc_state :: withdraw_confirm_state
  wc_foreign_contract :: address
  wc_foreign_chain_id :: u64

definition withdraw_confirm_logs_init :: "app \<Rightarrow> database \<Rightarrow> log_stream_init" where
  "withdraw_confirm_logs_init app init =
     \<lparr> lsi_after = checked_withdraw_confirm init,
       lsi_filter = withdraws_filter (app_contracts app) (foreign_contract_address init),
       lsi_request_timeout = n_request_timeout (cfg_foreign (app_config app)),
       lsi_poll_interval = n_poll_interval (cfg_foreign (app_config app)),
       lsi_confirmations = n_required_confirmations (cfg_foreign (app_config app)) \<rparr>"

definition create_withdraw_confirm :: "app \<Rightarrow> database \<Rightarrow> u64 \<Rightarrow> withdraw_confirm" where
  "create_withdraw_confirm app init foreign_chain_id =
     \<lparr> wc_logs = log_stream (app_timer_interval app ''withdraw_confirm'') (withdraw_confirm_logs_init app init),
       wc_state = WC_Wait,
       wc_foreign_contract = foreign_contract_address init,
       wc_foreign_chain_id = foreign_chain_id \<rparr>"

definition confirm_gas :: "app \<Rightarrow> u256" where
  "confirm_gas app = u256_of (tc_gas (txs_withdraw_confirm (cfg_txs (app_config app))))"

text \<open>
  The message of a log. The arguments of \<open>info!\<close> are evaluated only when that level is logged; then
  the \<open>unwrap\<close> in it panics for a log without a transaction hash.
\<close>

definition withdraw_message :: "app \<Rightarrow> log \<Rightarrow> bytes result" where
  "withdraw_message app lg =
     and_then (if app_log_info app
               then expect ''called `Option::unwrap()` on a `None` value'' (lg_transaction_hash lg)
               else Ok 0) (\<lambda>_.
     and_then (message_from_log (app_contracts app) lg) (\<lambda>m.
     Ok (message_to_bytes m)))"

definition withdraw_signature :: "app \<Rightarrow> bytes \<Rightarrow> h520 result" where
  "withdraw_signature app message =
     (case app_keystore_sign app (n_account (cfg_foreign (app_config app)))
             (eth_data_hash (app_keccak app) message) of
        Inl e \<Rightarrow> Err (from_kind (SignError e))
      | Inr sig \<Rightarrow> Ok (app_into_electrum app sig))"

definition withdraw_confirm_body ::
    "app \<Rightarrow> withdraw_confirm \<times> world \<Rightarrow> (withdraw_confirm \<times> world, bridge_checked option poll) ctl" where
  "withdraw_confirm_body app = (\<lambda>(s, w).
     case wc_state s of
       WC_Wait \<Rightarrow>
         (case w_foreign_balance w of
            None \<Rightarrow> Return (s, w) (Ok NotReady)
          | Some foreign_balance \<Rightarrow>
              inner (log_stream_poll (app_foreign app) (wc_logs s, w_foreign w)) (\<lambda>((ls, c), r).
              let s = s\<lparr>wc_logs := ls\<rparr>; w = w\<lparr>w_foreign := c\<rparr> in
              try_stream (map_err (contextualize ''polling foreign for withdrawals'') r) (Return (s, w)) (\<lambda>item.
              case try_map (withdraw_message app) (it_logs item) of
                Err e \<Rightarrow> Return (s, w) (Err e)
              | Panic m \<Rightarrow> Return (s, w) (Panic m)
              | Ok messages \<Rightarrow>
              (case try_map (withdraw_signature app) messages of
                Err e \<Rightarrow> Return (s, w) (Err e)
              | Panic m \<Rightarrow> Return (s, w) (Panic m)
              | Ok signatures \<Rightarrow>
              (let gas = confirm_gas app;
                   gas_price = u256_of (w_foreign_gas_price w);
                   balance_required = gas * gas_price * word_of_nat (length signatures)
               in if balance_required > foreign_balance
                  then Return (s, w) (Err (from_kind InsufficientFunds))
                  else case try_map (\<lambda>(message, signature).
                              withdraw_submit_signature_payload (app_contracts app) message signature)
                            (zip messages signatures) of
                    Err e \<Rightarrow> Return (s, w) (Err e)
                  | Panic m \<Rightarrow> Return (s, w) (Panic m)
                  | Ok payloads \<Rightarrow>
                      let confirmations = map (\<lambda>payload.
                            send_transaction_with_nonce (cfg_foreign (app_config app))
                              (relay_transaction gas gas_price (wc_foreign_contract s) payload)
                              (wc_foreign_chain_id s)) payloads
                      in Continue (s\<lparr>wc_state := WC_ConfirmWithdraws
                           (futures_unordered_collect confirmations (app_wakeups app (ch_calls (w_foreign w))))
                           (it_to item)\<rparr>, w))))))
     | WC_ConfirmWithdraws future block \<Rightarrow>
         inner (batch_poll app (app_foreign app) (future, w_foreign w)) (\<lambda>((future, c), r).
         let w = w\<lparr>w_foreign := c\<rparr> in
         try_ready (map_err (contextualize ''sending signature submissions to foreign'') r)
           (Return (s\<lparr>wc_state := WC_ConfirmWithdraws future block\<rparr>, w)) (\<lambda>_.
         Continue (s\<lparr>wc_state := WC_Yield (Some block)\<rparr>, w)))
     | WC_Yield block \<Rightarrow>
         (case block of
            None \<Rightarrow> Continue (s\<lparr>wc_state := WC_Wait\<rparr>, w)
          | Some v \<Rightarrow> Return (s\<lparr>wc_state := WC_Yield None\<rparr>, w) (Ok (Ready (Some (WithdrawConfirm v))))))"

definition withdraw_confirm_poll ::
    "app \<Rightarrow> withdraw_confirm \<times> world \<Rightarrow> ((withdraw_confirm \<times> world) \<times> bridge_checked option poll) option"
where
  "withdraw_confirm_poll app = poll_loop (withdraw_confirm_body app)"

section \<open>Specification\<close>

text \<open>
  A withdraw log calls for a submission of the message it stands for, with the signature of the
  validator's foreign account under the hash of exactly that message.
\<close>

definition confirm_duty :: "app \<Rightarrow> address \<Rightarrow> log \<Rightarrow> transaction \<Rightarrow> bool" where
  "confirm_duty app contract lg tx \<longleftrightarrow>
     (\<exists>m sig gas_price.
        message_from_log (app_contracts app) lg = Ok m \<and>
        app_keystore_sign app (n_account (cfg_foreign (app_config app)))
          (eth_data_hash (app_keccak app) (message_to_bytes m)) = Inr sig \<and>
        tx = relay_transaction (confirm_gas app) gas_price contract
          (foreign_submit_signature_input (app_contracts app)
             (be_bytes 65 (app_into_electrum app sig)) (message_to_bytes m)))"

abbreviation confirm_handled :: "app \<Rightarrow> address \<Rightarrow> u64 \<Rightarrow> chain \<Rightarrow> log \<Rightarrow> bool" where
  "confirm_handled app contract chain_id \<equiv>
     relayed app (app_foreign app) (cfg_foreign (app_config app)) chain_id (\<lambda>_. False) (confirm_duty app contract)"

abbreviation confirm_busy :: "app \<Rightarrow> address \<Rightarrow> u64 \<Rightarrow> batch \<Rightarrow> chain \<Rightarrow> log list \<Rightarrow> bool" where
  "confirm_busy app contract chain_id \<equiv>
     batch_busy app (app_foreign app) (cfg_foreign (app_config app)) chain_id (\<lambda>_. False) (confirm_duty app contract)"

fun wc_phase :: "app \<Rightarrow> address \<Rightarrow> u64 \<Rightarrow> chain \<Rightarrow> withdraw_confirm_state \<Rightarrow> phase" where
  "wc_phase app contract chain_id c WC_Wait = Idle"
| "wc_phase app contract chain_id c (WC_ConfirmWithdraws b n) = Busy n (confirm_busy app contract chain_id b c)"
| "wc_phase app contract chain_id c (WC_Yield None) = Idle"
| "wc_phase app contract chain_id c (WC_Yield (Some n)) = Yielding n"

definition wc_inv ::
    "app \<Rightarrow> database \<Rightarrow> u64 \<Rightarrow> bridge_checked list \<Rightarrow> withdraw_confirm \<times> world \<Rightarrow> bool" where
  "wc_inv app init chain_id obs = (\<lambda>(s, w).
     let contract = foreign_contract_address init; li = withdraw_confirm_logs_init app init in
     wc_foreign_contract s = contract \<and> wc_foreign_chain_id s = chain_id \<and>
     relay_inv
       (\<lambda>its. ls_inv (app_foreign app) (lsi_after li) (lsi_filter li) (lsi_confirmations li) its
                (wc_logs s, w_foreign w))
       (confirm_handled app contract chain_id (w_foreign w))
       WithdrawConfirm (wc_phase app contract chain_id (w_foreign w) (wc_state s)) obs)"

section \<open>Lemmas\<close>

lemma wc_phase_extends:
  "chain_extends c d \<Longrightarrow> phase_le (wc_phase app contract chain_id c st) (wc_phase app contract chain_id d st)"
proof (induction app contract chain_id c st rule: wc_phase.induct)
  case (2 app contract chain_id c b n)
  then show ?case
    unfolding phase_le_def by (auto intro: batch_busy_mono)
qed (simp_all add: phase_le_def)

lemma wc_inv_extends:
  assumes "wc_inv app init chain_id obs (s, w)" and "world_extends w v"
  shows "wc_inv app init chain_id obs (s, v)"
  using assms unfolding wc_inv_def world_extends_def Let_def prod.case
  by (elim conjE) (intro conjI, assumption, assumption,
      erule relay_inv_mono, auto intro: wc_phase_extends ls_inv_extends relayed_mono)

text \<open>Messages, signatures and payloads belong to the logs at the same positions.\<close>

lemma withdraw_payload_duty:
  assumes "try_map (withdraw_message app) lgs = Ok messages"
    and "try_map (withdraw_signature app) messages = Ok signatures"
    and "try_map (\<lambda>(message, signature).
      withdraw_submit_signature_payload (app_contracts app) message signature) (zip messages signatures) = Ok payloads"
    and "lg \<in> set lgs"
  shows "\<exists>payload\<in>set payloads.
    confirm_duty app contract lg (relay_transaction (confirm_gas app) gas_price contract payload)"
proof -
  obtain i where i: "i < length lgs" "lg = lgs ! i"
    using assms(4) by (auto simp: in_set_conv_nth)
  then have m: "withdraw_message app lg = Ok (messages ! i)" "i < length messages"
    using assms(1) by (auto simp: try_map_eq_Ok list_all2_conv_all_nth)
  then have sig: "withdraw_signature app (messages ! i) = Ok (signatures ! i)" "i < length signatures"
    using assms(2) by (auto simp: try_map_eq_Ok list_all2_conv_all_nth)
  have "withdraw_submit_signature_payload (app_contracts app) (messages ! i) (signatures ! i) = Ok (payloads ! i)"
    and "i < length payloads"
    using assms(3) m(2) sig(2) by (auto simp: try_map_eq_Ok list_all2_conv_all_nth)
  then show ?thesis
    using m(1) sig(1)
    by (intro bexI [of _ "payloads ! i"])
      (auto simp: withdraw_message_def withdraw_signature_def withdraw_submit_signature_payload_def
        confirm_duty_def split: sum.splits if_splits)
qed

lemma confirm_busy_start:
  assumes "try_map (withdraw_message app) lgs = Ok messages"
    and "try_map (withdraw_signature app) messages = Ok signatures"
    and "try_map (\<lambda>(message, signature).
      withdraw_submit_signature_payload (app_contracts app) message signature) (zip messages signatures) = Ok payloads"
  shows "confirm_busy app contract chain_id
     (futures_unordered_collect (map (\<lambda>payload. send_transaction_with_nonce (cfg_foreign (app_config app))
        (relay_transaction (confirm_gas app) gas_price contract payload) chain_id) payloads) ws) c lgs"
proof -
  let ?tx = "relay_transaction (confirm_gas app) gas_price contract"
  have "lg \<in> set lgs \<Longrightarrow> \<exists>tx\<in>set (map ?tx payloads). confirm_duty app contract lg tx" for lg
    using withdraw_payload_duty [OF assms] by fastforce
  then show ?thesis
    using batch_busy_start [where txs = "map ?tx payloads" and lgs = lgs] by (simp add: comp_def)
qed

text \<open>A poll of the log stream, of the batch, and the report of a block.\<close>

lemma wc_stream_step:
  assumes "wc_inv app init chain_id obs (s, w)" and "wc_state s = WC_Wait"
    and "log_stream_poll (app_foreign app) (wc_logs s, w_foreign w) = Some ((ls, c), r)"
  shows "world_extends w (w\<lparr>w_foreign := c\<rparr>)"
    and "r = Ok NotReady \<or> r = Ok (Ready None) \<Longrightarrow>
      wc_inv app init chain_id obs (s\<lparr>wc_logs := ls\<rparr>, w\<lparr>w_foreign := c\<rparr>)"
    and "r = Ok (Ready (Some it)) \<Longrightarrow>
      confirm_busy app (foreign_contract_address init) chain_id b c (it_logs it) \<Longrightarrow>
      wc_inv app init chain_id obs
        (s\<lparr>wc_logs := ls, wc_state := WC_ConfirmWithdraws b (it_to it)\<rparr>, w\<lparr>w_foreign := c\<rparr>)"
proof -
  have ext: "chain_extends (w_foreign w) c"
    using assms(3) by (rule log_stream_poll_extends)
  then show "world_extends w (w\<lparr>w_foreign := c\<rparr>)" by simp
  show "wc_inv app init chain_id obs (s\<lparr>wc_logs := ls\<rparr>, w\<lparr>w_foreign := c\<rparr>)"
    if "r = Ok NotReady \<or> r = Ok (Ready None)"
    using assms that log_stream_idle [of "app_foreign app"]
    by (auto simp: wc_inv_def Let_def phase_le_def elim!: relay_inv_mono intro: relayed_mono [OF _ ext])
  show "wc_inv app init chain_id obs
      (s\<lparr>wc_logs := ls, wc_state := WC_ConfirmWithdraws b (it_to it)\<rparr>, w\<lparr>w_foreign := c\<rparr>)"
    if "r = Ok (Ready (Some it))" and "confirm_busy app (foreign_contract_address init) chain_id b c (it_logs it)"
    using assms that log_stream_items.inv_item [of "app_foreign app"]
    by (auto simp: wc_inv_def Let_def elim!: relay_inv_fetch intro: relayed_mono [OF _ ext])
qed

lemma wc_batch_step:
  assumes "wc_inv app init chain_id obs (s, w)" and "wc_state s = WC_ConfirmWithdraws b n"
    and "batch_poll app (app_foreign app) (b, w_foreign w) = Some ((b', c), r)"
  shows "world_extends w (w\<lparr>w_foreign := c\<rparr>)"
    and "wc_inv app init chain_id obs (s\<lparr>wc_state := WC_ConfirmWithdraws b' n\<rparr>, w\<lparr>w_foreign := c\<rparr>)"
    and "r = Ok (Ready v) \<Longrightarrow>
      wc_inv app init chain_id obs (s\<lparr>wc_state := WC_Yield (Some n)\<rparr>, w\<lparr>w_foreign := c\<rparr>)"
proof -
  let ?k = "foreign_contract_address init" and ?li = "withdraw_confirm_logs_init app init"
  let ?streamed = "\<lambda>c its. ls_inv (app_foreign app) (lsi_after ?li) (lsi_filter ?li) (lsi_confirmations ?li) its
      (wc_logs s, c)"
  have inv: "relay_inv (?streamed (w_foreign w)) (confirm_handled app ?k chain_id (w_foreign w)) WithdrawConfirm
       (Busy n (confirm_busy app ?k chain_id b (w_foreign w))) obs"
    using assms(1,2) by (simp add: wc_inv_def Let_def)
  have later: "\<forall>its. chain_extends (w_foreign w) c \<longrightarrow> ?streamed (w_foreign w) its \<longrightarrow> ?streamed c its"
    by (blast intro: ls_inv_extends)
  note polled = relay_inv_batch [where streamed' = "?streamed c", OF inv assms(3) later]
  show "world_extends w (w\<lparr>w_foreign := c\<rparr>)"
    using polled(1) by simp
  show "wc_inv app init chain_id obs (s\<lparr>wc_state := WC_ConfirmWithdraws b' n\<rparr>, w\<lparr>w_foreign := c\<rparr>)"
    using assms(1) polled(2) by (simp add: wc_inv_def Let_def)
  show "wc_inv app init chain_id obs (s\<lparr>wc_state := WC_Yield (Some n)\<rparr>, w\<lparr>w_foreign := c\<rparr>)"
    if "r = Ok (Ready v)"
    using assms(1) polled(3) [OF that] by (simp add: wc_inv_def Let_def)
qed

lemma wc_continue:
  assumes inv: "wc_inv app init chain_id obs (s, w)"
    and step: "withdraw_confirm_body app (s, w) = Continue t"
  shows "wc_inv app init chain_id obs t \<and> world_extends w (snd t)"
proof (cases "wc_state s")
  case WC_Wait
  have k: "wc_foreign_contract s = foreign_contract_address init" "wc_foreign_chain_id s = chain_id"
    using inv by (simp_all add: wc_inv_def Let_def)
  obtain bal ls c r where bal: "w_foreign_balance w = Some bal"
    and p: "log_stream_poll (app_foreign app) (wc_logs s, w_foreign w) = Some ((ls, c), r)"
    using step WC_Wait by (auto simp: withdraw_confirm_body_def inner_def split: option.splits)
  with step WC_Wait obtain it where r: "r = Ok (Ready (Some it))"
    by (cases r) (auto simp: withdraw_confirm_body_def Let_def elim!: try_stream.elims)
  then show ?thesis
    using step WC_Wait bal p k wc_stream_step(1) [OF inv WC_Wait p]
      wc_stream_step(3) [OF inv WC_Wait p r confirm_busy_start]
    by (auto simp: withdraw_confirm_body_def Let_def split: if_splits result.splits)
next
  case (WC_ConfirmWithdraws b n)
  obtain b' c r where p: "batch_poll app (app_foreign app) (b, w_foreign w) = Some ((b', c), r)"
    using step WC_ConfirmWithdraws by (auto simp: withdraw_confirm_body_def inner_def split: option.splits)
  with step WC_ConfirmWithdraws obtain v where "r = Ok (Ready v)"
    by (cases r) (auto simp: withdraw_confirm_body_def Let_def elim!: try_ready.elims)
  then show ?thesis
    using step WC_ConfirmWithdraws p wc_batch_step [OF inv WC_ConfirmWithdraws p]
    by (auto simp: withdraw_confirm_body_def Let_def)
next
  case (WC_Yield b)
  then show ?thesis
    using inv step by (auto simp: withdraw_confirm_body_def wc_inv_def Let_def split: option.splits)
qed

lemma wc_return:
  assumes inv: "wc_inv app init chain_id obs (s, w)"
    and step: "withdraw_confirm_body app (s, w) = Return t r"
  shows "relay_post (wc_inv app init chain_id) obs w t r"
proof (cases "wc_state s")
  case WC_Wait
  show ?thesis
  proof (cases "w_foreign_balance w")
    case None
    then show ?thesis
      using inv step WC_Wait by (auto simp: withdraw_confirm_body_def relay_post_def)
  next
    case (Some bal)
    then obtain ls c q where p: "log_stream_poll (app_foreign app) (wc_logs s, w_foreign w) = Some ((ls, c), q)"
      using step WC_Wait by (auto simp: withdraw_confirm_body_def inner_def split: option.splits)
    have t: "t = (s\<lparr>wc_logs := ls\<rparr>, w\<lparr>w_foreign := c\<rparr>) \<and>
      (r = Ok NotReady \<or> r = Ok (Ready None) \<longrightarrow> q = Ok NotReady \<or> q = Ok (Ready None)) \<and>
      (\<forall>n. r \<noteq> Ok (Ready (Some n)))"
      using step WC_Wait Some p
      by (cases q) (auto simp: withdraw_confirm_body_def Let_def elim!: try_stream.elims
          split: if_splits result.splits)
    then show ?thesis
      using wc_stream_step(1,2) [OF inv WC_Wait p] by (auto simp: relay_post_def)
  qed
next
  case (WC_ConfirmWithdraws b n)
  obtain b' c q where p: "batch_poll app (app_foreign app) (b, w_foreign w) = Some ((b', c), q)"
    using step WC_ConfirmWithdraws by (auto simp: withdraw_confirm_body_def inner_def split: option.splits)
  have "t = (s\<lparr>wc_state := WC_ConfirmWithdraws b' n\<rparr>, w\<lparr>w_foreign := c\<rparr>) \<and> (\<forall>n. r \<noteq> Ok (Ready (Some n)))"
    using step WC_ConfirmWithdraws p
    by (cases q) (auto simp: withdraw_confirm_body_def Let_def elim!: try_ready.elims)
  then show ?thesis
    using wc_batch_step(1,2) [OF inv WC_ConfirmWithdraws p] by (auto simp: relay_post_def)
next
  case (WC_Yield b)
  then show ?thesis
    using inv step
    by (auto simp: withdraw_confirm_body_def relay_post_def wc_inv_def Let_def dest: relay_inv_yield
        split: option.splits)
qed

lemma wc_cells:
  "withdraw_confirm_body app (s, w) = Continue t \<Longrightarrow> cells (snd t) = cells w"
  "withdraw_confirm_body app (s, w) = Return t r \<Longrightarrow> cells (snd t) = cells w"
  by (auto simp: withdraw_confirm_body_def inner_def Let_def elim!: try_stream.elims try_ready.elims
      split: withdraw_confirm_state.splits option.splits result.splits prod.splits if_splits)

interpretation confirms: relay_machine "withdraw_confirm_body app" "wc_inv app init chain_id" for app init chain_id
  by unfold_locales (fact wc_continue, fact wc_return, fact wc_inv_extends, (fact wc_cells)+)

lemma wc_inv_start: "wc_inv app init chain_id [] (create_withdraw_confirm app init chain_id, w)"
  by (simp add: wc_inv_def Let_def create_withdraw_confirm_def relay_inv_def ls_inv_start)

text \<open>A poll goes at most once through its states.\<close>

fun wc_rank :: "withdraw_confirm_state \<Rightarrow> nat" where
  "wc_rank (WC_Yield None) = 3"
| "wc_rank WC_Wait = 2"
| "wc_rank (WC_ConfirmWithdraws b n) = 1"
| "wc_rank (WC_Yield (Some n)) = 0"

lemma withdraw_confirm_returns:
  assumes "settles K (SendRawTransaction (app_foreign app))"
  shows "\<exists>t r. poll_loop (withdraw_confirm_body app) s = Some (t, r)"
proof -
  have "poll_ranked (withdraw_confirm_body app) (\<lambda>_. True) (\<lambda>(s, w). wc_rank (wc_state s))"
  proof
    show "withdraw_confirm_body app u \<noteq> Diverge" for u
      by (auto simp: batch_poll_returns [OF assms] withdraw_confirm_body_def Let_def inner_def
          elim!: try_stream.elims try_ready.elims
          split: withdraw_confirm_state.splits option.splits result.splits if_splits prod.splits)
    show "withdraw_confirm_body app u = Continue v \<Longrightarrow>
        True \<and> (case v of (s, w) \<Rightarrow> wc_rank (wc_state s)) < (case u of (s, w) \<Rightarrow> wc_rank (wc_state s))" for u v
      by (auto simp: withdraw_confirm_body_def Let_def inner_def elim!: try_stream.elims try_ready.elims
          split: withdraw_confirm_state.splits option.splits result.splits if_splits prod.splits)
  qed
  then show ?thesis
    by (rule poll_ranked.poll_returns) simp
qed

text \<open>What the invariant says of the checkpoints reported so far.\<close>

lemma wc_inv_checkpoints:
  assumes "wc_inv app init chain_id obs (s, v)"
  shows "\<exists>its b. obs = map (WithdrawConfirm \<circ> it_to) its \<and> tiles (checked_withdraw_confirm init) its b \<and>
    (\<forall>it\<in>set its.
       item_ok (app_foreign app) (withdraws_filter (app_contracts app) (foreign_contract_address init))
         (n_required_confirmations (cfg_foreign (app_config app))) (w_foreign v) it \<and>
       (\<forall>lg\<in>set (it_logs it).
          confirm_handled app (foreign_contract_address init) chain_id (w_foreign v) lg))"
  using assms unfolding wc_inv_def Let_def prod.case withdraw_confirm_logs_init_def log_stream_init.simps
  by (elim conjE) (rule relay_inv_checkpoints, assumption, erule ls_inv_good)

section \<open>Properties\<close>

text \<open>
  C6. The checkpoints of withdraw confirmation are safe: the reported checkpoints are the last blocks
  of consecutive, confirmed block ranges that start right after the block in the database, and for
  every withdraw log up to the last checkpoint the foreign node has accepted a submission of the
  message of exactly that log with a signature of the validator's account over its hash.
\<close>

theorem withdraw_confirm_checkpoints:
  assumes "stream_run (withdraw_confirm_poll app) relay_rely
      (create_withdraw_confirm app init chain_id, w) obs (s, v)"
  shows "\<exists>its b. obs = map (WithdrawConfirm \<circ> it_to) its \<and> tiles (checked_withdraw_confirm init) its b \<and>
    (\<forall>it\<in>set its.
       item_ok (app_foreign app) (withdraws_filter (app_contracts app) (foreign_contract_address init))
         (n_required_confirmations (cfg_foreign (app_config app))) (w_foreign v) it \<and>
       (\<forall>lg\<in>set (it_logs it).
          confirm_handled app (foreign_contract_address init) chain_id (w_foreign v) lg))"
  by (rule wc_inv_checkpoints [OF confirms.checks.run_inv [OF assms [unfolded withdraw_confirm_poll_def] wc_inv_start]])

text \<open>
  The assertion in \<open>withdraw_submit_signature_payload\<close> cannot fail: the messages withdraw
  confirmation builds from logs have the length the contract accepts, so every payload is built.
\<close>

lemma withdraw_message_payload:
  assumes "withdraw_message app lg = Ok message"
  shows "withdraw_submit_signature_payload ct message signature =
    Ok (foreign_submit_signature_input ct (be_bytes 65 signature) message)"
  using assms message_codec.enc_length
  by (auto simp: withdraw_message_def withdraw_submit_signature_payload_def)

text \<open>
  Every poll of withdraw confirmation returns when the foreign node stops answering sends with
  stale-nonce errors at some point.
\<close>

lemma withdraw_confirm_poll_returns:
  assumes "settles K (SendRawTransaction (app_foreign app))"
  shows "\<exists>t r. withdraw_confirm_poll app s = Some (t, r)"
  unfolding withdraw_confirm_poll_def using assms by (rule withdraw_confirm_returns)

text \<open>
  Without a signature there is no submission: when the keystore refuses to sign a message of an
  item, the poll fails with that error and no transaction of the item is sent.
\<close>

lemma withdraw_confirm_sign_error:
  assumes "wc_state s = WC_Wait" and "w_foreign_balance w = Some balance"
    and "log_stream_poll (app_foreign app) (wc_logs s, w_foreign w) = Some ((ls, c), Ok (Ready (Some it)))"
    and "try_map (withdraw_message app) (it_logs it) = Ok (ms @ m # ms')"
    and "\<forall>x\<in>set ms. \<exists>sig. withdraw_signature app x = Ok sig"
    and "app_keystore_sign app (n_account (cfg_foreign (app_config app)))
           (eth_data_hash (app_keccak app) m) = Inl e"
  shows "withdraw_confirm_poll app (s, w) =
    Some ((s\<lparr>wc_logs := ls\<rparr>, w\<lparr>w_foreign := c\<rparr>), Err (from_kind (SignError e)))"
proof -
  have "try_map (withdraw_signature app) (ms @ m # ms') = Err (from_kind (SignError e))"
    using assms(5,6) by (intro try_map_first_Err) (auto simp: withdraw_signature_def)
  then show ?thesis
    using assms(1-4)
    by (simp add: withdraw_confirm_poll_def poll_loop.simps withdraw_confirm_body_def Let_def)
qed

end
