(* ===== verification/Joins.thy ===== *)
theory Joins
  imports Futures
begin

text \<open>
  \<open>futures::future::join_all\<close> and \<open>Future::join\<close>, as the withdraw relay combines its requests: every
  poll runs the parts that are still pending in their order, the first error ends the whole, and the
  whole is ready once all parts are. What each part is about (the key of the part) is kept through
  polls, so the results come at the positions of their requests.
\<close>

section \<open>Definitions\<close>

datatype ('f, 'a) elem = Elem_Pending 'f | Elem_Done 'a

definition elem_poll :: "('f \<Rightarrow> 'a poll \<times> 'f) \<Rightarrow> ('f, 'a) elem \<Rightarrow> ('f, 'a) elem result" where
  "elem_poll poll el = (case el of
      Elem_Done v \<Rightarrow> Ok (Elem_Done v)
    | Elem_Pending f \<Rightarrow>
        (case poll f of (r, g) \<Rightarrow>
          (case r of
             Ok (Ready v) \<Rightarrow> Ok (Elem_Done v)
           | Ok NotReady \<Rightarrow> Ok (Elem_Pending g)
           | Err e \<Rightarrow> Err e
           | Panic m \<Rightarrow> Panic m)))"

fun elem_value :: "('f, 'a) elem \<Rightarrow> 'a option" where
  "elem_value (Elem_Pending f) = None"
| "elem_value (Elem_Done v) = Some v"

fun elem_values :: "('f, 'a) elem list \<Rightarrow> 'a list option" where
  "elem_values [] = Some []"
| "elem_values (e # es) =
     (case elem_value e of
        None \<Rightarrow> None
      | Some v \<Rightarrow> map_option (Cons v) (elem_values es))"

type_synonym ('f, 'a) join_all = "('f, 'a) elem list"

definition join_all :: "'f list \<Rightarrow> ('f, 'a) join_all" where
  "join_all fs = map Elem_Pending fs"

definition join_all_poll ::
    "('f \<Rightarrow> 'a poll \<times> 'f) \<Rightarrow> ('f, 'a) join_all \<Rightarrow> 'a list poll \<times> ('f, 'a) join_all" where
  "join_all_poll poll els = (case try_map (elem_poll poll) els of
      Err e \<Rightarrow> (Err e, [])
    | Panic m \<Rightarrow> (Panic m, [])
    | Ok els' \<Rightarrow>
        (case elem_values els' of
           Some vs \<Rightarrow> (Ok (Ready vs), [])
         | None \<Rightarrow> (Ok NotReady, els')))"

type_synonym ('f, 'a, 'g, 'b) join = "('f, 'a) elem \<times> ('g, 'b) elem"

definition join :: "'f \<Rightarrow> 'g \<Rightarrow> ('f, 'a, 'g, 'b) join" where
  "join f g = (Elem_Pending f, Elem_Pending g)"

definition join_poll ::
    "('f \<Rightarrow> 'a poll \<times> 'f) \<Rightarrow> ('g \<Rightarrow> 'b poll \<times> 'g) \<Rightarrow> ('f, 'a, 'g, 'b) join \<Rightarrow>
     ('a \<times> 'b) poll \<times> ('f, 'a, 'g, 'b) join" where
  "join_poll poll_a poll_b = (\<lambda>(a, b).
     case elem_poll poll_a a of
       Err e \<Rightarrow> (Err e, (a, b))
     | Panic m \<Rightarrow> (Panic m, (a, b))
     | Ok a' \<Rightarrow>
         (case elem_poll poll_b b of
            Err e \<Rightarrow> (Err e, (a', b))
          | Panic m \<Rightarrow> (Panic m, (a', b))
          | Ok b' \<Rightarrow>
              (case (elem_value a', elem_value b') of
                 (Some v, Some u) \<Rightarrow> (Ok (Ready (v, u)), (a', b'))
               | _ \<Rightarrow> (Ok NotReady, (a', b')))))"

section \<open>Keys\<close>

text \<open>
  The contract of a future with a key: pending polls keep \<open>P k\<close>, and a value it gives satisfies \<open>Q k\<close>.
  Joins of such futures meet the contract for lists and pairs of keys.
\<close>

locale keyed_future =
  fixes poll :: "'f \<Rightarrow> 'a poll \<times> 'f"
    and P :: "'k \<Rightarrow> 'f \<Rightarrow> bool"
    and Q :: "'k \<Rightarrow> 'a \<Rightarrow> bool"
  assumes keep: "P k f \<Longrightarrow> poll f = (Ok NotReady, g) \<Longrightarrow> P k g"
    and gives: "P k f \<Longrightarrow> poll f = (Ok (Ready v), g) \<Longrightarrow> Q k v"

fun elem_ok :: "('k \<Rightarrow> 'f \<Rightarrow> bool) \<Rightarrow> ('k \<Rightarrow> 'a \<Rightarrow> bool) \<Rightarrow> 'k \<Rightarrow> ('f, 'a) elem \<Rightarrow> bool" where
  "elem_ok P Q k (Elem_Pending f) = P k f"
| "elem_ok P Q k (Elem_Done v) = Q k v"

lemma elem_ok_mono:
  "elem_ok P Q k e \<Longrightarrow> (\<And>f. P k f \<Longrightarrow> P' k f) \<Longrightarrow> (\<And>v. Q k v \<Longrightarrow> Q' k v) \<Longrightarrow> elem_ok P' Q' k e"
  by (cases e) auto

lemma elem_value_ok: "elem_ok P Q k e \<Longrightarrow> elem_value e = Some v \<Longrightarrow> Q k v"
  by (cases e) auto

lemma elem_values_ok:
  "list_all2 (elem_ok P Q) ks es \<Longrightarrow> elem_values es = Some vs \<Longrightarrow> list_all2 Q ks vs"
  by (induction ks es arbitrary: vs rule: list_all2_induct)
    (auto split: option.splits dest: elem_value_ok)

context keyed_future
begin

lemma elem_poll_ok: "elem_ok P Q k e \<Longrightarrow> elem_poll poll e = Ok e' \<Longrightarrow> elem_ok P Q k e'"
  by (cases e) (auto simp: elem_poll_def intro: keep gives
      split: prod.splits result.splits async.splits)

lemma elems_poll_ok:
  "list_all2 (elem_ok P Q) ks es \<Longrightarrow> try_map (elem_poll poll) es = Ok es' \<Longrightarrow> list_all2 (elem_ok P Q) ks es'"
  by (induction ks es arbitrary: es' rule: list_all2_induct) (auto intro: elem_poll_ok)

lemma join_all_keyed: "keyed_future (join_all_poll poll) (list_all2 (elem_ok P Q)) (list_all2 Q)"
  by unfold_locales
    (auto simp: join_all_poll_def dest: elems_poll_ok elem_values_ok split: result.splits option.splits)

end

lemma join_keyed:
  assumes "keyed_future p P Q" and "keyed_future q R S"
  shows "keyed_future (join_poll p q)
    (\<lambda>(k, l) (a, b). elem_ok P Q k a \<and> elem_ok R S l b) (\<lambda>(k, l) (v, u). Q k v \<and> S l u)"
  by unfold_locales
    (auto simp: join_poll_def split: result.splits option.splits prod.splits
      dest: keyed_future.elem_poll_ok [OF assms(1)] keyed_future.elem_poll_ok [OF assms(2)] elem_value_ok)

lemma join_all_start: "list_all2 P ks fs \<Longrightarrow> list_all2 (elem_ok P Q) ks (join_all fs)"
  by (simp add: join_all_def list_all2_map2)

text \<open>A join gives as many values as it has parts.\<close>

lemma join_all_poll_length:
  assumes "join_all_poll poll els = (Ok (Ready vs), els')"
  shows "length vs = length els"
proof -
  have "elem_values es = Some us \<Longrightarrow> length us = length es" for es :: "('b, 'a) elem list" and us
    by (induction es arbitrary: us) (auto split: option.splits)
  then show ?thesis
    using assms by (auto simp: join_all_poll_def dest!: try_map_length split: result.splits option.splits)
qed

end
