(* ===== verification/WithdrawRelay.thy ===== *)
theory WithdrawRelay
  imports Relay Message Joins
begin

text \<open>
  \<^verbatim>\<open>bridge/src/bridge/withdraw_relay.rs\<close>: for every \<open>CollectedSignatures\<close> event on the foreign chain
  that names this validator as responsible, the message and its signatures are fetched from
  \<open>ForeignBridge\<close> and \<open>HomeBridge.withdraw\<close> is called with them on the home chain; the block up to
  which this has been done is reported.
\<close>

section \<open>Definitions\<close>

definition collected_signatures_filter :: "contracts \<Rightarrow> address list \<Rightarrow> log_filter" where
  "collected_signatures_filter ct addresses = web3_filter (foreign_collected_signatures_filter ct) addresses"

record relay_assignment =
  ra_signature_payloads :: "bytes list"
  ra_message_payload :: bytes

text \<open>
  \<open>signatures_payload\<close>. The number of signatures is read back from an encoded call: the slice after
  the four bytes of the selector, as a \<open>U256\<close> (whose conversion rejects more than 32 bytes).
\<close>

definition u256_from_slice :: "bytes \<Rightarrow> u256 result" where
  "u256_from_slice bs =
     (if length bs > 32 then Panic ''assertion failed: 32 >= slice.len()'' else Ok (be_word bs))"

definition slice_from :: "nat \<Rightarrow> bytes \<Rightarrow> bytes result" where
  "slice_from n bs =
     (if length bs < n then Panic ''slice index starts past the end of the slice'' else Ok (drop n bs))"

definition signatures_payload :: "contracts \<Rightarrow> bool \<Rightarrow> address \<Rightarrow> log \<Rightarrow> relay_assignment option result" where
  "signatures_payload ct log_info my_address lg =
     (let raw = \<lparr> rl_topics = lg_topics lg, rl_data = lg_data lg \<rparr> in
      and_then (foreign_collected_signatures_parse_log ct raw) (\<lambda>cs.
      if cs_authority_responsible_for_relay cs \<noteq> my_address
      then and_then (if log_info
                     then expect ''called `Option::unwrap()` on a `None` value'' (lg_transaction_hash lg)
                     else Ok 0) (\<lambda>_. Ok None)
      else
        and_then (slice_from 4 (foreign_message_input ct (cs_number_of_collected_signatures cs))) (\<lambda>encoded.
        and_then (u256_from_slice encoded) (\<lambda>required_signatures.
        Ok (Some
          \<lparr> ra_signature_payloads =
              map (\<lambda>index. foreign_signature_input ct (cs_message_hash cs) (word_of_nat index))
                [0..<unat (low_u32 required_signatures)],
            ra_message_payload = foreign_message_input ct (cs_message_hash cs) \<rparr>)))))"

type_synonym calls = "(bytes fut, bytes) join_all"
type_synonym fetch = "(calls, bytes list, (calls, bytes list) join_all, bytes list list) join"

datatype withdraw_relay_state =
  WR_Wait
| WR_FetchMessagesSignatures fetch u64
| WR_RelayWithdraws batch u64
| WR_Yield "u64 option"

record withdraw_relay =
  wr_logs :: log_stream
  wr_state :: withdraw_relay_state
  wr_foreign_contract :: address
  wr_home_contract :: address
  wr_home_chain_id :: u64

definition withdraw_relay_logs_init :: "app \<Rightarrow> database \<Rightarrow> log_stream_init" where
  "withdraw_relay_logs_init app init =
     \<lparr> lsi_after = checked_withdraw_relay init,
       lsi_filter = collected_signatures_filter (app_contracts app) [foreign_contract_address init],
       lsi_request_timeout = n_request_timeout (cfg_foreign (app_config app)),
       lsi_poll_interval = n_poll_interval (cfg_foreign (app_config app)),
       lsi_confirmations = n_required_confirmations (cfg_foreign (app_config app)) \<rparr>"

definition create_withdraw_relay :: "app \<Rightarrow> database \<Rightarrow> u64 \<Rightarrow> withdraw_relay" where
  "create_withdraw_relay app init home_chain_id =
     \<lparr> wr_logs = log_stream (app_timer_interval app ''withdraw_relay'') (withdraw_relay_logs_init app init),
       wr_state = WR_Wait,
       wr_foreign_contract = foreign_contract_address init,
       wr_home_contract = home_contract_address init,
       wr_home_chain_id = home_chain_id \<rparr>"

definition withdraw_gas :: "app \<Rightarrow> u256" where
  "withdraw_gas app = u256_of (tc_gas (txs_withdraw_relay (cfg_txs (app_config app))))"

text \<open>One request for each payload, in order.\<close>

fun request_all :: "('p \<Rightarrow> chain \<Rightarrow> 'f \<times> chain) \<Rightarrow> 'p list \<Rightarrow> chain \<Rightarrow> 'f list \<times> chain" where
  "request_all req [] c = ([], c)"
| "request_all req (p # ps) c =
     (case req p c of (f, d) \<Rightarrow> (case request_all req ps d of (fs, e) \<Rightarrow> (f # fs, e)))"

definition fetch_messages_signatures ::
    "transport \<Rightarrow> address \<Rightarrow> relay_assignment list \<Rightarrow> chain \<Rightarrow> fetch \<times> chain" where
  "fetch_messages_signatures tr contract assignments c =
     (case request_all (api_call tr contract) (map ra_message_payload assignments) c of (message_calls, d) \<Rightarrow>
      (case request_all (\<lambda>payloads d. case request_all (api_call tr contract) payloads d of
                            (calls, e) \<Rightarrow> (join_all calls, e))
              (map ra_signature_payloads assignments) d of (signature_calls, e) \<Rightarrow>
        (join (join_all message_calls) (join_all signature_calls), e)))"

definition fetch_poll :: "fetch \<Rightarrow> (bytes list \<times> bytes list list) poll \<times> fetch" where
  "fetch_poll = join_poll (join_all_poll poll_fut) (join_all_poll (join_all_poll poll_fut))"

definition decode_signature :: "contracts \<Rightarrow> bytes \<Rightarrow> signature result" where
  "decode_signature ct raw = and_then (foreign_signature_output ct raw) signature_from_bytes"

text \<open>The transaction that relays a message with its signatures.\<close>

definition withdraw_transaction ::
    "contracts \<Rightarrow> u256 \<Rightarrow> address \<Rightarrow> bytes \<times> signature list \<Rightarrow> transaction result" where
  "withdraw_transaction ct gas contract = (\<lambda>(message, signatures).
     let payload = home_withdraw_input ct (map sig_v signatures) (map sig_r signatures)
           (map sig_s signatures) message in
     and_then (message_from_bytes message) (\<lambda>m.
     Ok (relay_transaction gas (m_mainnet_gas_price m) contract payload)))"

definition withdraw_relay_body ::
    "app \<Rightarrow> withdraw_relay \<times> world \<Rightarrow> (withdraw_relay \<times> world, bridge_checked option poll) ctl" where
  "withdraw_relay_body app = (\<lambda>(s, w).
     case wr_state s of
       WR_Wait \<Rightarrow>
         inner (log_stream_poll (app_foreign app) (wr_logs s, w_foreign w)) (\<lambda>((ls, c), r).
         let s = s\<lparr>wr_logs := ls\<rparr>; w = w\<lparr>w_foreign := c\<rparr> in
         try_stream (map_err (contextualize ''polling foreign for collected signatures'') r) (Return (s, w)) (\<lambda>item.
         case try_map (signatures_payload (app_contracts app) (app_log_info app)
                 (n_account (cfg_foreign (app_config app)))) (it_logs item) of
           Err e \<Rightarrow> Return (s, w) (Err e)
         | Panic m \<Rightarrow> Return (s, w) (Panic m)
         | Ok assignments \<Rightarrow>
             (case fetch_messages_signatures (app_foreign app) (wr_foreign_contract s)
                     (List.map_filter (\<lambda>a. a) assignments) (w_foreign w) of (future, d) \<Rightarrow>
              Continue (s\<lparr>wr_state := WR_FetchMessagesSignatures future (it_to item)\<rparr>, w\<lparr>w_foreign := d\<rparr>))))
     | WR_FetchMessagesSignatures future block \<Rightarrow>
         (case w_home_balance w of
            None \<Rightarrow> Return (s, w) (Ok NotReady)
          | Some home_balance \<Rightarrow>
              (case fetch_poll future of (r, future') \<Rightarrow>
               let s = s\<lparr>wr_state := WR_FetchMessagesSignatures future' block\<rparr> in
               try_ready (map_err (contextualize ''fetching messages and signatures from foreign'') r)
                 (Return (s, w)) (\<lambda>(messages_raw, signatures_raw).
               if length messages_raw \<noteq> length signatures_raw
               then Return (s, w) (Panic ''assertion failed: messages_raw.len() == signatures_raw.len()'')
               else
               let gas = withdraw_gas app;
                   gas_price = u256_of (w_home_gas_price w);
                   balance_required = gas * gas_price * word_of_nat (length messages_raw)
               in if balance_required > home_balance
                  then Return (s, w) (Err (from_kind InsufficientFunds))
                  else
                  case and_then (try_map (foreign_message_output (app_contracts app)) messages_raw) (\<lambda>messages.
                       and_then (try_map (try_map (decode_signature (app_contracts app))) signatures_raw) (\<lambda>signatures.
                       try_map (withdraw_transaction (app_contracts app) gas (wr_home_contract s))
                         (zip messages signatures))) of
                    Err e \<Rightarrow> Return (s, w) (Err e)
                  | Panic m \<Rightarrow> Return (s, w) (Panic m)
                  | Ok txs \<Rightarrow>
                      let relays = map (\<lambda>tx. send_transaction_with_nonce (cfg_home (app_config app)) tx
                                          (wr_home_chain_id s)) txs
                      in Continue (s\<lparr>wr_state := WR_RelayWithdraws
                           (futures_unordered_collect relays (app_wakeups app (ch_calls (w_home w)))) block\<rparr>, w))))
     | WR_RelayWithdraws future block \<Rightarrow>
         inner (batch_poll app (app_home app) (future, w_home w)) (\<lambda>((future, c), r).
         let w = w\<lparr>w_home := c\<rparr> in
         try_ready (map_err (contextualize ''sending withdrawal to home'') r)
           (Return (s\<lparr>wr_state := WR_RelayWithdraws future block\<rparr>, w)) (\<lambda>_.
         Continue (s\<lparr>wr_state := WR_Yield (Some block)\<rparr>, w)))
     | WR_Yield block \<Rightarrow>
         (case block of
            None \<Rightarrow> Continue (s\<lparr>wr_state := WR_Wait\<rparr>, w)
          | Some v \<Rightarrow> Return (s\<lparr>wr_state := WR_Yield None\<rparr>, w) (Ok (Ready (Some (WithdrawRelay v))))))"

definition withdraw_relay_poll ::
    "app \<Rightarrow> withdraw_relay \<times> world \<Rightarrow> ((withdraw_relay \<times> world) \<times> bridge_checked option poll) option" where
  "withdraw_relay_poll app = poll_loop (withdraw_relay_body app)"

section \<open>Specification\<close>

text \<open>
  A log that names another validator calls for nothing. One that names this validator calls for the
  withdraw transaction made of a message and signatures that the foreign node has answered to the
  calls of its assignment, each signature at its index.
\<close>

abbreviation assignment :: "app \<Rightarrow> log \<Rightarrow> relay_assignment option result" where
  "assignment app \<equiv> signatures_payload (app_contracts app) (app_log_info app) (n_account (cfg_foreign (app_config app)))"

definition not_responsible :: "app \<Rightarrow> log \<Rightarrow> bool" where
  "not_responsible app lg \<longleftrightarrow> assignment app lg = Ok None"

definition contract_call :: "address \<Rightarrow> bytes \<Rightarrow> rpc_call" where
  "contract_call contract payload = Eth_call \<lparr> cr_to = contract, cr_data = Some payload \<rparr> None"

definition call_awaiting :: "transport \<Rightarrow> address \<Rightarrow> chain \<Rightarrow> bytes \<Rightarrow> bytes fut \<Rightarrow> bool" where
  "call_awaiting tr contract c payload f \<longleftrightarrow> awaiting (tr_call tr) (contract_call contract payload) c f"

definition call_answered :: "transport \<Rightarrow> address \<Rightarrow> chain \<Rightarrow> bytes \<Rightarrow> bytes \<Rightarrow> bool" where
  "call_answered tr contract c payload v \<longleftrightarrow> answered (tr_call tr) (contract_call contract payload) c v"

definition withdraw_duty :: "app \<Rightarrow> address \<Rightarrow> address \<Rightarrow> chain \<Rightarrow> log \<Rightarrow> transaction \<Rightarrow> bool" where
  "withdraw_duty app foreign_contract home_contract c lg tx \<longleftrightarrow>
     (\<exists>a message_raw signatures_raw message signatures.
        assignment app lg = Ok (Some a) \<and>
        call_answered (app_foreign app) foreign_contract c (ra_message_payload a) message_raw \<and>
        list_all2 (call_answered (app_foreign app) foreign_contract c) (ra_signature_payloads a) signatures_raw \<and>
        foreign_message_output (app_contracts app) message_raw = Ok message \<and>
        try_map (decode_signature (app_contracts app)) signatures_raw = Ok signatures \<and>
        withdraw_transaction (app_contracts app) (withdraw_gas app) home_contract (message, signatures) = Ok tx)"

text \<open>The requests of a fetch are those of the assignments, each at its position.\<close>

abbreviation calls_ok :: "transport \<Rightarrow> address \<Rightarrow> chain \<Rightarrow> bytes list \<Rightarrow> calls \<Rightarrow> bool" where
  "calls_ok tr contract c \<equiv> list_all2 (elem_ok (call_awaiting tr contract c) (call_answered tr contract c))"

definition fetch_ok :: "transport \<Rightarrow> address \<Rightarrow> chain \<Rightarrow> bytes list \<times> bytes list list \<Rightarrow> fetch \<Rightarrow> bool" where
  "fetch_ok tr contract c = (\<lambda>(messages, signatures) (a, b).
     elem_ok (calls_ok tr contract c) (list_all2 (call_answered tr contract c)) messages a \<and>
     elem_ok (list_all2 (elem_ok (calls_ok tr contract c) (list_all2 (call_answered tr contract c))))
       (list_all2 (list_all2 (call_answered tr contract c))) signatures b)"

definition fetch_answered ::
    "transport \<Rightarrow> address \<Rightarrow> chain \<Rightarrow> bytes list \<times> bytes list list \<Rightarrow> bytes list \<times> bytes list list \<Rightarrow> bool" where
  "fetch_answered tr contract c = (\<lambda>(messages, signatures) (messages_raw, signatures_raw).
     list_all2 (call_answered tr contract c) messages messages_raw \<and>
     list_all2 (list_all2 (call_answered tr contract c)) signatures signatures_raw)"

definition fetch_busy :: "app \<Rightarrow> address \<Rightarrow> fetch \<Rightarrow> chain \<Rightarrow> log list \<Rightarrow> bool" where
  "fetch_busy app contract future c lgs \<longleftrightarrow>
     (\<exists>as. (\<forall>lg\<in>set lgs. not_responsible app lg \<or> (\<exists>a\<in>set as. assignment app lg = Ok (Some a))) \<and>
        fetch_ok (app_foreign app) contract c (map ra_message_payload as, map ra_signature_payloads as) future)"

abbreviation withdraw_handled :: "app \<Rightarrow> address \<Rightarrow> address \<Rightarrow> u64 \<Rightarrow> world \<Rightarrow> log \<Rightarrow> bool" where
  "withdraw_handled app foreign_contract home_contract chain_id w \<equiv>
     relayed app (app_home app) (cfg_home (app_config app)) chain_id (not_responsible app)
       (withdraw_duty app foreign_contract home_contract (w_foreign w)) (w_home w)"

abbreviation withdraw_busy :: "app \<Rightarrow> address \<Rightarrow> address \<Rightarrow> u64 \<Rightarrow> batch \<Rightarrow> world \<Rightarrow> log list \<Rightarrow> bool" where
  "withdraw_busy app foreign_contract home_contract chain_id b w \<equiv>
     batch_busy app (app_home app) (cfg_home (app_config app)) chain_id (not_responsible app)
       (withdraw_duty app foreign_contract home_contract (w_foreign w)) b (w_home w)"

fun wr_phase :: "app \<Rightarrow> address \<Rightarrow> address \<Rightarrow> u64 \<Rightarrow> world \<Rightarrow> withdraw_relay_state \<Rightarrow> phase" where
  "wr_phase app fc hc chain_id w WR_Wait = Idle"
| "wr_phase app fc hc chain_id w (WR_FetchMessagesSignatures f n) = Busy n (fetch_busy app fc f (w_foreign w))"
| "wr_phase app fc hc chain_id w (WR_RelayWithdraws b n) = Busy n (withdraw_busy app fc hc chain_id b w)"
| "wr_phase app fc hc chain_id w (WR_Yield None) = Idle"
| "wr_phase app fc hc chain_id w (WR_Yield (Some n)) = Yielding n"

definition wr_inv ::
    "app \<Rightarrow> database \<Rightarrow> u64 \<Rightarrow> bridge_checked list \<Rightarrow> withdraw_relay \<times> world \<Rightarrow> bool" where
  "wr_inv app init chain_id obs = (\<lambda>(s, w).
     let fc = foreign_contract_address init; hc = home_contract_address init;
         li = withdraw_relay_logs_init app init in
     wr_foreign_contract s = fc \<and> wr_home_contract s = hc \<and> wr_home_chain_id s = chain_id \<and>
     relay_inv
       (\<lambda>its. ls_inv (app_foreign app) (lsi_after li) (lsi_filter li) (lsi_confirmations li) its
                (wr_logs s, w_foreign w))
       (withdraw_handled app fc hc chain_id w)
       WithdrawRelay (wr_phase app fc hc chain_id w (wr_state s)) obs)"

section \<open>Lemmas\<close>

text \<open>Fetches.\<close>

interpretation calls: keyed_future poll_fut "call_awaiting tr contract c" "call_answered tr contract c"
  for tr contract c
  by unfold_locales
    (auto simp: call_awaiting_def call_answered_def intro: awaiting_poll awaiting_Ready)

interpretation fetches: keyed_future fetch_poll "fetch_ok tr contract c" "fetch_answered tr contract c"
  for tr contract c
  unfolding fetch_poll_def fetch_ok_def fetch_answered_def
  by (rule join_keyed [OF calls.join_all_keyed keyed_future.join_all_keyed [OF calls.join_all_keyed]])

lemma call_answered_extends:
  "call_answered tr contract c payload v \<Longrightarrow> chain_extends c d \<Longrightarrow> call_answered tr contract d payload v"
  unfolding call_answered_def by (rule answered_extends)

lemma call_awaiting_extends:
  "call_awaiting tr contract c payload f \<Longrightarrow> chain_extends c d \<Longrightarrow> call_awaiting tr contract d payload f"
  unfolding call_awaiting_def by (rule awaiting_extends)

lemma call_elem_extends:
  assumes "chain_extends c d"
  shows "elem_ok (call_awaiting tr contract c) (call_answered tr contract c) k e \<Longrightarrow>
    elem_ok (call_awaiting tr contract d) (call_answered tr contract d) k e"
  by (erule elem_ok_mono) (blast intro: call_answered_extends call_awaiting_extends assms)+

lemma calls_elem_extends:
  assumes "chain_extends c d"
  shows "elem_ok (calls_ok tr contract c) (list_all2 (call_answered tr contract c)) k e \<Longrightarrow>
    elem_ok (calls_ok tr contract d) (list_all2 (call_answered tr contract d)) k e"
  by (erule elem_ok_mono)
    (blast intro: list_all2_mono call_elem_extends [OF assms] call_answered_extends [OF _ assms])+

lemma fetch_ok_extends:
  assumes "fetch_ok tr contract c k f" and "chain_extends c d"
  shows "fetch_ok tr contract d k f"
  using assms(1) unfolding fetch_ok_def
  by (auto intro: calls_elem_extends [OF assms(2)] elim!: elem_ok_mono
      list_all2_mono simp: call_answered_extends [OF _ assms(2)] call_awaiting_extends [OF _ assms(2)])

lemma withdraw_duty_extends:
  "withdraw_duty app fc hc c lg tx \<Longrightarrow> chain_extends c d \<Longrightarrow> withdraw_duty app fc hc d lg tx"
  unfolding withdraw_duty_def by (blast intro: list_all2_mono call_answered_extends)

lemma fetch_busy_extends:
  "fetch_busy app contract f c lgs \<Longrightarrow> chain_extends c d \<Longrightarrow> fetch_busy app contract f d lgs"
  unfolding fetch_busy_def by (blast intro: fetch_ok_extends)

text \<open>Making the requests.\<close>

lemma request_all_ok:
  assumes req: "\<And>p c f d. req p c = (f, d) \<Longrightarrow> R p d f \<and> chain_extends c d"
    and mono: "\<And>p c d f. R p c f \<Longrightarrow> chain_extends c d \<Longrightarrow> R p d f"
  shows "request_all req ps c = (fs, d) \<Longrightarrow> list_all2 (\<lambda>p f. R p d f) ps fs \<and> chain_extends c d"
proof (induction ps arbitrary: c fs)
  case (Cons p ps)
  then obtain f c' gs where f: "req p c = (f, c')" "request_all req ps c' = (gs, d)" "fs = f # gs"
    by (auto split: prod.splits)
  then show ?case
    using Cons.IH req [OF f(1)] mono by (auto intro: chain_extends_trans)
qed simp

lemma api_call_awaiting:
  "api_call tr contract payload c = (f, d) \<Longrightarrow>
     call_awaiting tr contract d payload f \<and> chain_extends c d"
  unfolding api_call_def call_awaiting_def contract_call_def
  by (blast intro: execute_awaiting execute_extends)

lemma request_calls_ok:
  assumes "(case request_all (api_call tr contract) ps c of (calls, e) \<Rightarrow> (join_all calls, e)) = (f, d)"
  shows "calls_ok tr contract d ps f \<and> chain_extends c d"
proof -
  obtain fs where "request_all (api_call tr contract) ps c = (fs, d)" and f: "f = join_all fs"
    using assms by (auto split: prod.splits)
  then have "list_all2 (\<lambda>p f. call_awaiting tr contract d p f) ps fs \<and> chain_extends c d"
    using request_all_ok [where req = "api_call tr contract" and R = "\<lambda>p d f. call_awaiting tr contract d p f"]
      api_call_awaiting call_awaiting_extends by blast
  then show ?thesis
    using f join_all_start by blast
qed

lemma fetch_start:
  assumes "fetch_messages_signatures tr contract as c = (f, d)"
  shows "fetch_ok tr contract d (map ra_message_payload as, map ra_signature_payloads as) f" and "chain_extends c d"
proof -
  let ?req = "\<lambda>payloads d. case request_all (api_call tr contract) payloads d of (calls, e) \<Rightarrow> (join_all calls, e)"
  obtain ms d' sigs where ms: "request_all (api_call tr contract) (map ra_message_payload as) c = (ms, d')"
      and sigs: "request_all ?req (map ra_signature_payloads as) d' = (sigs, d)"
      and f: "f = join (join_all ms) (join_all sigs)"
    using assms unfolding fetch_messages_signatures_def by (auto split: prod.splits)
  have m: "calls_ok tr contract d' (map ra_message_payload as) (join_all ms)" "chain_extends c d'"
    using request_calls_ok [of tr contract "map ra_message_payload as" c] ms by auto
  have "list_all2 (\<lambda>ps f. calls_ok tr contract d ps f) (map ra_signature_payloads as) sigs \<and> chain_extends d' d"
    using sigs
  proof (rule request_all_ok [where req = ?req and R = "\<lambda>ps d f. calls_ok tr contract d ps f", rotated -1])
    show "?req p c = (f, d) \<Longrightarrow> calls_ok tr contract d p f \<and> chain_extends c d" for p c f d
      by (rule request_calls_ok)
    show "calls_ok tr contract c p f \<Longrightarrow> chain_extends c d \<Longrightarrow> calls_ok tr contract d p f" for p c d f
      by (blast intro: list_all2_mono call_elem_extends)
  qed
  then have s: "list_all2 (calls_ok tr contract d) (map ra_signature_payloads as) sigs" "chain_extends d' d"
    by auto
  have "calls_ok tr contract d (map ra_message_payload as) (join_all ms)"
    using m(1) s(2) by (blast intro: list_all2_mono call_elem_extends)
  moreover have "list_all2 (elem_ok (calls_ok tr contract d) (list_all2 (call_answered tr contract d)))
      (map ra_signature_payloads as) (join_all sigs)"
    using s(1) by (rule join_all_start)
  ultimately show "fetch_ok tr contract d (map ra_message_payload as, map ra_signature_payloads as) f"
    by (simp add: fetch_ok_def f join_def)
  show "chain_extends c d"
    using m(2) s(2) by (rule chain_extends_trans)
qed

lemma fetch_busy_start:
  assumes "try_map (assignment app) lgs = Ok opts"
    and "fetch_messages_signatures (app_foreign app) contract (List.map_filter (\<lambda>a. a) opts) c = (f, d)"
  shows "fetch_busy app contract f d lgs"
proof -
  have "not_responsible app lg \<or> (\<exists>a\<in>set (List.map_filter (\<lambda>a. a) opts). assignment app lg = Ok (Some a))"
    if lg: "lg \<in> set lgs" for lg
  proof -
    obtain opt where "opt \<in> set opts" and "assignment app lg = Ok opt"
      using try_map_mem [OF assms(1) lg] by blast
    then show ?thesis
      by (cases opt) (auto simp: not_responsible_def List.map_filter_def)
  qed
  then show ?thesis
    unfolding fetch_busy_def using fetch_start(1) [OF assms(2)] by blast
qed

text \<open>The transactions made from a completed fetch.\<close>

lemma fetched_duty:
  assumes "fetch_answered (app_foreign app) fc c (map ra_message_payload as, map ra_signature_payloads as)
      (messages_raw, signatures_raw)"
    and "try_map (foreign_message_output (app_contracts app)) messages_raw = Ok messages"
    and "try_map (try_map (decode_signature (app_contracts app))) signatures_raw = Ok signatures"
    and "try_map (withdraw_transaction (app_contracts app) (withdraw_gas app) hc) (zip messages signatures) = Ok txs"
    and "a \<in> set as" and "assignment app lg = Ok (Some a)"
  shows "\<exists>tx\<in>set txs. withdraw_duty app fc hc c lg tx"
proof -
  obtain i where i: "i < length as" "a = as ! i"
    using assms(5) by (auto simp: in_set_conv_nth)
  have raw: "call_answered (app_foreign app) fc c (ra_message_payload a) (messages_raw ! i)"
      "list_all2 (call_answered (app_foreign app) fc c) (ra_signature_payloads a) (signatures_raw ! i)"
      "length messages_raw = length as" "length signatures_raw = length as"
    using assms(1) i by (auto simp: fetch_answered_def list_all2_conv_all_nth)
  then have dec: "foreign_message_output (app_contracts app) (messages_raw ! i) = Ok (messages ! i)"
      "try_map (decode_signature (app_contracts app)) (signatures_raw ! i) = Ok (signatures ! i)"
      "length messages = length as" "length signatures = length as"
    using assms(2,3) i(1) by (auto simp: try_map_eq_Ok dest: list_all2_nthD list_all2_lengthD)
  then have "withdraw_transaction (app_contracts app) (withdraw_gas app) hc (messages ! i, signatures ! i) = Ok (txs ! i)"
      "i < length txs"
    using assms(4) i(1) by (auto simp: try_map_eq_Ok list_all2_conv_all_nth)
  then show ?thesis
    using raw(1,2) dec(1,2) assms(6) unfolding withdraw_duty_def
    by (intro bexI [of _ "txs ! i"]) auto
qed

text \<open>Requests by others keep the invariant.\<close>

lemma withdraw_handled_extends:
  assumes "withdraw_handled app fc hc chain_id w lg" and "world_extends w v"
  shows "withdraw_handled app fc hc chain_id v lg"
  using assms(1) by (rule relayed_mono)
    (use assms(2) in \<open>auto simp: world_extends_def intro: withdraw_duty_extends\<close>)

lemma withdraw_busy_extends:
  assumes "withdraw_busy app fc hc chain_id b w lgs" and "world_extends w v"
  shows "withdraw_busy app fc hc chain_id b v lgs"
  using assms(1) by (rule batch_busy_mono)
    (use assms(2) in \<open>auto simp: world_extends_def intro: withdraw_duty_extends\<close>)

lemma wr_phase_extends:
  "world_extends w v \<Longrightarrow> phase_le (wr_phase app fc hc chain_id w st) (wr_phase app fc hc chain_id v st)"
proof (induction app fc hc chain_id w st rule: wr_phase.induct)
  case (2 app fc hc chain_id w f n)
  then show ?case
    unfolding phase_le_def by (auto simp: world_extends_def intro: fetch_busy_extends)
next
  case (3 app fc hc chain_id w b n)
  then show ?case
    unfolding phase_le_def by (auto intro: withdraw_busy_extends)
qed (simp_all add: phase_le_def)

lemma wr_inv_extends:
  assumes "wr_inv app init chain_id obs (s, w)" and "world_extends w v"
  shows "wr_inv app init chain_id obs (s, v)"
proof -
  have "chain_extends (w_foreign w) (w_foreign v)"
    using assms(2) by (simp add: world_extends_def)
  then show ?thesis
    using assms(1) unfolding wr_inv_def Let_def prod.case
    by (elim conjE) (intro conjI, assumption, assumption, assumption, erule relay_inv_mono,
        rule wr_phase_extends [OF assms(2)], erule ls_inv_extends, assumption,
        erule withdraw_handled_extends [OF _ assms(2)])
qed

text \<open>A poll of the log stream, of a fetch, of the batch, and the report of a block.\<close>

lemma wr_stream_idle:
  assumes "wr_inv app init chain_id obs (s, w)" and "wr_state s = WR_Wait"
    and "log_stream_poll (app_foreign app) (wr_logs s, w_foreign w) = Some ((ls, c), r)"
    and idle: "r = Ok NotReady \<or> r = Ok (Ready None)"
  shows "wr_inv app init chain_id obs (s\<lparr>wr_logs := ls\<rparr>, w\<lparr>w_foreign := c\<rparr>)"
proof -
  let ?li = "withdraw_relay_logs_init app init"
  have "ls_inv (app_foreign app) (lsi_after ?li) (lsi_filter ?li) (lsi_confirmations ?li) its (wr_logs s, w_foreign w) \<Longrightarrow>
      ls_inv (app_foreign app) (lsi_after ?li) (lsi_filter ?li) (lsi_confirmations ?li) its (ls, c)" for its
    using log_stream_idle [OF _ assms(3) idle] .
  moreover have "world_extends w (w\<lparr>w_foreign := c\<rparr>)"
    using log_stream_poll_extends [OF assms(3)] by simp
  then have "withdraw_handled app fc hc chain_id w lg \<Longrightarrow> withdraw_handled app fc hc chain_id (w\<lparr>w_foreign := c\<rparr>) lg"
    for fc hc lg
    using withdraw_handled_extends by blast
  ultimately show ?thesis
    using assms(1,2) by (auto simp: wr_inv_def Let_def phase_le_def elim!: relay_inv_mono)
qed

lemma wr_stream_item:
  assumes "wr_inv app init chain_id obs (s, w)" and "wr_state s = WR_Wait"
    and "log_stream_poll (app_foreign app) (wr_logs s, w_foreign w) = Some ((ls, c), Ok (Ready (Some it)))"
    and d: "chain_extends c d"
    and busy: "fetch_busy app (foreign_contract_address init) f d (it_logs it)"
  shows "wr_inv app init chain_id obs
    (s\<lparr>wr_logs := ls, wr_state := WR_FetchMessagesSignatures f (it_to it)\<rparr>, w\<lparr>w_foreign := d\<rparr>)"
proof -
  let ?li = "withdraw_relay_logs_init app init"
  have "ls_inv (app_foreign app) (lsi_after ?li) (lsi_filter ?li) (lsi_confirmations ?li) its (wr_logs s, w_foreign w) \<Longrightarrow>
      ls_inv (app_foreign app) (lsi_after ?li) (lsi_filter ?li) (lsi_confirmations ?li) (its @ [it]) (ls, d)" for its
    using log_stream_items.inv_item assms(3) d by (blast intro: ls_inv_extends)
  moreover have "world_extends w (w\<lparr>w_foreign := d\<rparr>)"
    using chain_extends_trans [OF log_stream_poll_extends [OF assms(3)] d] by simp
  then have "withdraw_handled app fc hc chain_id w lg \<Longrightarrow> withdraw_handled app fc hc chain_id (w\<lparr>w_foreign := d\<rparr>) lg"
    for fc hc lg
    using withdraw_handled_extends by blast
  ultimately show ?thesis
    using assms(1,2) busy by (auto simp: wr_inv_def Let_def elim!: relay_inv_fetch)
qed

lemma wr_inv_busy:
  assumes "wr_inv app init chain_id obs (s, w)"
    and "wr_state s = WR_FetchMessagesSignatures f n"
    and "\<And>lgs. fetch_busy app (foreign_contract_address init) f (w_foreign w) lgs \<Longrightarrow> busy lgs"
    and "wr_phase app (foreign_contract_address init) (home_contract_address init) chain_id w st = Busy n busy"
  shows "wr_inv app init chain_id obs (s\<lparr>wr_state := st\<rparr>, w)"
  using assms by (auto simp: wr_inv_def Let_def phase_le_def elim!: relay_inv_mono)

lemma wr_fetch_step:
  assumes inv: "wr_inv app init chain_id obs (s, w)" and st: "wr_state s = WR_FetchMessagesSignatures f n"
    and p: "fetch_poll f = (r, g)"
  shows "r = Ok NotReady \<Longrightarrow> wr_inv app init chain_id obs (s\<lparr>wr_state := WR_FetchMessagesSignatures g n\<rparr>, w)"
    and "r = Ok (Ready (messages_raw, signatures_raw)) \<Longrightarrow>
      length messages_raw = length signatures_raw"
    and "r = Ok (Ready (messages_raw, signatures_raw)) \<Longrightarrow>
      try_map (foreign_message_output (app_contracts app)) messages_raw = Ok messages \<Longrightarrow>
      try_map (try_map (decode_signature (app_contracts app))) signatures_raw = Ok signatures \<Longrightarrow>
      try_map (withdraw_transaction (app_contracts app) (withdraw_gas app) (home_contract_address init))
        (zip messages signatures) = Ok txs \<Longrightarrow>
      wr_inv app init chain_id obs (s\<lparr>wr_state := WR_RelayWithdraws
        (futures_unordered_collect (map (\<lambda>tx. send_transaction_with_nonce (cfg_home (app_config app)) tx chain_id) txs) ws) n\<rparr>, w)"
proof -
  let ?fc = "foreign_contract_address init" and ?hc = "home_contract_address init"
  show "wr_inv app init chain_id obs (s\<lparr>wr_state := WR_FetchMessagesSignatures g n\<rparr>, w)" if "r = Ok NotReady"
    using p that by (intro wr_inv_busy [OF inv st]) (auto simp: fetch_busy_def dest: fetches.keep)
  show "length messages_raw = length signatures_raw" if r: "r = Ok (Ready (messages_raw, signatures_raw))"
  proof -
    obtain lgs where "fetch_busy app ?fc f (w_foreign w) lgs"
      using inv st by (auto simp: wr_inv_def Let_def relay_inv_def)
    then show ?thesis
      using p r by (fastforce simp: fetch_busy_def fetch_answered_def dest!: fetches.gives list_all2_lengthD)
  qed
  show "wr_inv app init chain_id obs (s\<lparr>wr_state := WR_RelayWithdraws
      (futures_unordered_collect (map (\<lambda>tx. send_transaction_with_nonce (cfg_home (app_config app)) tx chain_id) txs) ws) n\<rparr>, w)"
    if r: "r = Ok (Ready (messages_raw, signatures_raw))"
      and ms: "try_map (foreign_message_output (app_contracts app)) messages_raw = Ok messages"
      and sigs: "try_map (try_map (decode_signature (app_contracts app))) signatures_raw = Ok signatures"
      and txs: "try_map (withdraw_transaction (app_contracts app) (withdraw_gas app) ?hc) (zip messages signatures) = Ok txs"
  proof (rule wr_inv_busy [OF inv st])
    fix lgs
    assume "fetch_busy app ?fc f (w_foreign w) lgs"
    then obtain as where as: "\<forall>lg\<in>set lgs. not_responsible app lg \<or> (\<exists>a\<in>set as. assignment app lg = Ok (Some a))"
        and "fetch_ok (app_foreign app) ?fc (w_foreign w) (map ra_message_payload as, map ra_signature_payloads as) f"
      by (auto simp: fetch_busy_def)
    then have "fetch_answered (app_foreign app) ?fc (w_foreign w)
        (map ra_message_payload as, map ra_signature_payloads as) (messages_raw, signatures_raw)"
      using p r fetches.gives by blast
    then show "withdraw_busy app ?fc ?hc chain_id
        (futures_unordered_collect (map (\<lambda>tx. send_transaction_with_nonce (cfg_home (app_config app)) tx chain_id) txs) ws) w lgs"
      using as fetched_duty [OF _ ms sigs txs] by (intro batch_busy_start) blast
  qed simp
qed

lemma wr_batch_step:
  assumes "wr_inv app init chain_id obs (s, w)" and "wr_state s = WR_RelayWithdraws b n"
    and "batch_poll app (app_home app) (b, w_home w) = Some ((b', c), r)"
  shows "world_extends w (w\<lparr>w_home := c\<rparr>)"
    and "wr_inv app init chain_id obs (s\<lparr>wr_state := WR_RelayWithdraws b' n\<rparr>, w\<lparr>w_home := c\<rparr>)"
    and "r = Ok (Ready v) \<Longrightarrow>
      wr_inv app init chain_id obs (s\<lparr>wr_state := WR_Yield (Some n)\<rparr>, w\<lparr>w_home := c\<rparr>)"
proof -
  let ?fc = "foreign_contract_address init" and ?hc = "home_contract_address init"
    and ?li = "withdraw_relay_logs_init app init"
  let ?streamed = "\<lambda>its. ls_inv (app_foreign app) (lsi_after ?li) (lsi_filter ?li) (lsi_confirmations ?li) its
      (wr_logs s, w_foreign w)"
  have "relay_inv ?streamed (withdraw_handled app ?fc ?hc chain_id w) WithdrawRelay
       (Busy n (withdraw_busy app ?fc ?hc chain_id b w)) obs"
    using assms(1,2) by (simp add: wr_inv_def Let_def)
  note polled = relay_inv_batch [where streamed' = ?streamed, OF this assms(3), simplified]
  show "world_extends w (w\<lparr>w_home := c\<rparr>)"
    using polled(1) by simp
  show "wr_inv app init chain_id obs (s\<lparr>wr_state := WR_RelayWithdraws b' n\<rparr>, w\<lparr>w_home := c\<rparr>)"
    using assms(1) polled(2) by (simp add: wr_inv_def Let_def)
  show "wr_inv app init chain_id obs (s\<lparr>wr_state := WR_Yield (Some n)\<rparr>, w\<lparr>w_home := c\<rparr>)"
    if "r = Ok (Ready v)"
    using assms(1) polled(3) [OF that] by (simp add: wr_inv_def Let_def)
qed

lemma wr_inv_start: "wr_inv app init chain_id [] (create_withdraw_relay app init chain_id, w)"
  by (simp add: wr_inv_def Let_def create_withdraw_relay_def relay_inv_def ls_inv_start)

lemma wr_continue_wait:
  assumes inv: "wr_inv app init chain_id obs (s, w)" and WR_Wait: "wr_state s = WR_Wait"
    and step: "withdraw_relay_body app (s, w) = Continue t"
  shows "wr_inv app init chain_id obs t \<and> world_extends w (snd t)"
proof -
  have k: "wr_foreign_contract s = foreign_contract_address init"
    using inv by (simp add: wr_inv_def Let_def)
  obtain ls c r where p: "log_stream_poll (app_foreign app) (wr_logs s, w_foreign w) = Some ((ls, c), r)"
    using step WR_Wait by (auto simp: withdraw_relay_body_def inner_def split: option.splits)
  with step WR_Wait obtain it where r: "r = Ok (Ready (Some it))"
    by (cases r) (auto simp: withdraw_relay_body_def Let_def elim!: try_stream.elims)
  with step WR_Wait p k obtain opts f d where
    opts: "try_map (assignment app) (it_logs it) = Ok opts" and
    f: "fetch_messages_signatures (app_foreign app) (foreign_contract_address init)
      (List.map_filter (\<lambda>a. a) opts) c = (f, d)" and
    t: "t = (s\<lparr>wr_logs := ls, wr_state := WR_FetchMessagesSignatures f (it_to it)\<rparr>, w\<lparr>w_foreign := d\<rparr>)"
    by (auto simp: withdraw_relay_body_def Let_def split: result.splits prod.splits)
  have "chain_extends (w_foreign w) d"
    using log_stream_poll_extends [OF p] fetch_start(2) [OF f] by (rule chain_extends_trans)
  then show ?thesis
    using wr_stream_item [OF inv WR_Wait p [unfolded r] fetch_start(2) [OF f] fetch_busy_start [OF opts f]] t
    by simp
qed

lemma wr_continue:
  assumes inv: "wr_inv app init chain_id obs (s, w)"
    and step: "withdraw_relay_body app (s, w) = Continue t"
  shows "wr_inv app init chain_id obs t \<and> world_extends w (snd t)"
proof (cases "wr_state s")
  case WR_Wait
  then show ?thesis
    using wr_continue_wait [OF inv _ step] by simp
next
  case (WR_FetchMessagesSignatures f n)
  have k: "wr_home_contract s = home_contract_address init" "wr_home_chain_id s = chain_id"
    using inv by (simp_all add: wr_inv_def Let_def)
  obtain r g where p: "fetch_poll f = (r, g)" by (metis surj_pair)
  with step WR_FetchMessagesSignatures obtain ms ss where r: "r = Ok (Ready (ms, ss))"
    by (cases r) (auto simp: withdraw_relay_body_def Let_def elim!: try_ready.elims split: option.splits)
  then show ?thesis
    using step WR_FetchMessagesSignatures p k wr_fetch_step(3) [OF inv WR_FetchMessagesSignatures p r]
    by (auto simp: withdraw_relay_body_def Let_def split: option.splits if_splits result.splits)
next
  case (WR_RelayWithdraws b n)
  obtain b' c r where p: "batch_poll app (app_home app) (b, w_home w) = Some ((b', c), r)"
    using step WR_RelayWithdraws by (auto simp: withdraw_relay_body_def inner_def split: option.splits)
  with step WR_RelayWithdraws obtain v where "r = Ok (Ready v)"
    by (cases r) (auto simp: withdraw_relay_body_def Let_def elim!: try_ready.elims)
  then show ?thesis
    using step WR_RelayWithdraws p wr_batch_step [OF inv WR_RelayWithdraws p]
    by (auto simp: withdraw_relay_body_def Let_def)
next
  case (WR_Yield b)
  then show ?thesis
    using inv step by (auto simp: withdraw_relay_body_def wr_inv_def Let_def split: option.splits)
qed

lemma wr_return:
  assumes inv: "wr_inv app init chain_id obs (s, w)"
    and step: "withdraw_relay_body app (s, w) = Return t r"
  shows "relay_post (wr_inv app init chain_id) obs w t r"
proof (cases "wr_state s")
  case WR_Wait
  obtain ls c q where p: "log_stream_poll (app_foreign app) (wr_logs s, w_foreign w) = Some ((ls, c), q)"
    using step WR_Wait by (auto simp: withdraw_relay_body_def inner_def split: option.splits)
  have t: "t = (s\<lparr>wr_logs := ls\<rparr>, w\<lparr>w_foreign := c\<rparr>) \<and>
    (r = Ok NotReady \<or> r = Ok (Ready None) \<longrightarrow> q = Ok NotReady \<or> q = Ok (Ready None)) \<and>
      (\<forall>n. r \<noteq> Ok (Ready (Some n)))"
    using step WR_Wait p
    by (cases q) (auto simp: withdraw_relay_body_def Let_def elim!: try_stream.elims
        split: if_splits result.splits prod.splits)
  then show ?thesis
    using log_stream_poll_extends [OF p] wr_stream_idle [OF inv WR_Wait p] by (auto simp: relay_post_def)
next
  case (WR_FetchMessagesSignatures f n)
  obtain q g where p: "fetch_poll f = (q, g)" by (metis surj_pair)
  have "snd t = w \<and> (\<forall>n. r \<noteq> Ok (Ready (Some n))) \<and>
    r \<noteq> Ok (Ready None) \<and> (r = Ok NotReady \<longrightarrow> t = (s, w) \<or> q = Ok NotReady \<and> t = (s\<lparr>wr_state := WR_FetchMessagesSignatures g n\<rparr>, w))"
    using step WR_FetchMessagesSignatures p
    by (cases q) (auto simp: withdraw_relay_body_def Let_def elim!: try_ready.elims
        split: option.splits if_splits result.splits)
  then show ?thesis
    using inv wr_fetch_step(1) [OF inv WR_FetchMessagesSignatures p] by (auto simp: relay_post_def)
next
  case (WR_RelayWithdraws b n)
  obtain b' c q where p: "batch_poll app (app_home app) (b, w_home w) = Some ((b', c), q)"
    using step WR_RelayWithdraws by (auto simp: withdraw_relay_body_def inner_def split: option.splits)
  have "t = (s\<lparr>wr_state := WR_RelayWithdraws b' n\<rparr>, w\<lparr>w_home := c\<rparr>) \<and> (\<forall>n. r \<noteq> Ok (Ready (Some n)))"
    using step WR_RelayWithdraws p
    by (cases q) (auto simp: withdraw_relay_body_def Let_def elim!: try_ready.elims)
  then show ?thesis
    using wr_batch_step(1,2) [OF inv WR_RelayWithdraws p] by (auto simp: relay_post_def)
next
  case (WR_Yield b)
  then show ?thesis
    using inv step
    by (auto simp: withdraw_relay_body_def relay_post_def wr_inv_def Let_def dest: relay_inv_yield
        split: option.splits)
qed

lemma wr_cells:
  "withdraw_relay_body app (s, w) = Continue t \<Longrightarrow> cells (snd t) = cells w"
  "withdraw_relay_body app (s, w) = Return t r \<Longrightarrow> cells (snd t) = cells w"
  by (auto simp: withdraw_relay_body_def inner_def Let_def elim!: try_stream.elims try_ready.elims
      split: withdraw_relay_state.splits option.splits result.splits prod.splits if_splits)

interpretation withdraws: relay_machine "withdraw_relay_body app" "wr_inv app init chain_id" for app init chain_id
  by unfold_locales (fact wr_continue, fact wr_return, fact wr_inv_extends, (fact wr_cells)+)

text \<open>A poll goes at most once through its states.\<close>

fun wr_rank :: "withdraw_relay_state \<Rightarrow> nat" where
  "wr_rank (WR_Yield None) = 4"
| "wr_rank WR_Wait = 3"
| "wr_rank (WR_FetchMessagesSignatures f n) = 2"
| "wr_rank (WR_RelayWithdraws b n) = 1"
| "wr_rank (WR_Yield (Some n)) = 0"

lemma withdraw_relay_returns:
  assumes "settles K (SendRawTransaction (app_home app))"
  shows "\<exists>t r. poll_loop (withdraw_relay_body app) s = Some (t, r)"
proof -
  have "poll_ranked (withdraw_relay_body app) (\<lambda>_. True) (\<lambda>(s, w). wr_rank (wr_state s))"
  proof
    show "withdraw_relay_body app u \<noteq> Diverge" for u
      by (auto simp: batch_poll_returns [OF assms] withdraw_relay_body_def Let_def inner_def
          elim!: try_stream.elims try_ready.elims
          split: withdraw_relay_state.splits option.splits result.splits if_splits prod.splits)
    show "withdraw_relay_body app u = Continue v \<Longrightarrow>
        True \<and> (case v of (s, w) \<Rightarrow> wr_rank (wr_state s)) < (case u of (s, w) \<Rightarrow> wr_rank (wr_state s))" for u v
      by (auto simp: withdraw_relay_body_def Let_def inner_def elim!: try_stream.elims try_ready.elims
          split: withdraw_relay_state.splits option.splits result.splits if_splits prod.splits)
  qed
  then show ?thesis
    by (rule poll_ranked.poll_returns) simp
qed

text \<open>What the invariant says of the checkpoints reported so far.\<close>

lemma wr_inv_checkpoints:
  assumes "wr_inv app init chain_id obs (s, v)"
  shows "\<exists>its b. obs = map (WithdrawRelay \<circ> it_to) its \<and> tiles (checked_withdraw_relay init) its b \<and>
    (\<forall>it\<in>set its.
       item_ok (app_foreign app) (collected_signatures_filter (app_contracts app) [foreign_contract_address init])
         (n_required_confirmations (cfg_foreign (app_config app))) (w_foreign v) it \<and>
       (\<forall>lg\<in>set (it_logs it).
          withdraw_handled app (foreign_contract_address init) (home_contract_address init) chain_id v lg))"
  using assms unfolding wr_inv_def Let_def prod.case withdraw_relay_logs_init_def log_stream_init.simps
  by (elim conjE) (rule relay_inv_checkpoints, assumption, erule ls_inv_good)

section \<open>Properties\<close>

text \<open>
  C5. The checkpoints of the withdraw relay are safe: the reported checkpoints are the last blocks of
  consecutive, confirmed block ranges that start right after the block in the database, and every log
  of collected signatures up to the last checkpoint names another validator, or the home node has
  accepted the call of \<open>HomeBridge.withdraw\<close> made of the message and the signatures that the foreign
  node answered for exactly this log.
\<close>

theorem withdraw_relay_checkpoints:
  assumes "stream_run (withdraw_relay_poll app) relay_rely
      (create_withdraw_relay app init chain_id, w) obs (s, v)"
  shows "\<exists>its b. obs = map (WithdrawRelay \<circ> it_to) its \<and> tiles (checked_withdraw_relay init) its b \<and>
    (\<forall>it\<in>set its.
       item_ok (app_foreign app) (collected_signatures_filter (app_contracts app) [foreign_contract_address init])
         (n_required_confirmations (cfg_foreign (app_config app))) (w_foreign v) it \<and>
       (\<forall>lg\<in>set (it_logs it).
          withdraw_handled app (foreign_contract_address init) (home_contract_address init) chain_id v lg))"
  by (rule wr_inv_checkpoints [OF withdraws.checks.run_inv [OF assms [unfolded withdraw_relay_poll_def] wr_inv_start]])

text \<open>
  C26. What an event calls for. Given that an encoded call of \<open>message\<close> is a four-byte selector and the
  32 bytes of the argument, the assignment of a log that names this validator has one signature call
  for each index below the number of collected signatures (its low 32 bits), in order, and the message
  call of the same hash; a log that names another validator has none.
\<close>

theorem signatures_payload_assigns:
  assumes abi: "\<And>h. \<exists>selector. length selector = 4 \<and> foreign_message_input ct h = selector @ be_bytes 32 h"
    and parse: "foreign_collected_signatures_parse_log ct
      \<lparr> rl_topics = lg_topics lg, rl_data = lg_data lg \<rparr> = Ok cs"
    and mined: "lg_transaction_hash lg = Some hash"
  shows "signatures_payload ct log_info me lg = Ok
    (if cs_authority_responsible_for_relay cs = me
     then Some \<lparr> ra_signature_payloads =
                  map (\<lambda>i. foreign_signature_input ct (cs_message_hash cs) (word_of_nat i))
                    [0..<unat (cs_number_of_collected_signatures cs) mod 2 ^ 32],
                ra_message_payload = foreign_message_input ct (cs_message_hash cs) \<rparr>
     else None)"
proof -
  let ?n = "cs_number_of_collected_signatures cs"
  obtain selector where sel: "length selector = 4" "foreign_message_input ct ?n = selector @ be_bytes 32 ?n"
    using abi [of ?n] by blast
  have "be_word (be_bytes 32 ?n) = ?n"
    by (rule be_word_be_bytes) simp
  with sel have "and_then (slice_from 4 (foreign_message_input ct ?n)) u256_from_slice = Ok ?n"
    by (simp add: slice_from_def u256_from_slice_def)
  then show ?thesis
    using parse mined sel
    by (auto simp: signatures_payload_def Let_def unat_low_u32 slice_from_def u256_from_slice_def
        expect_def be_word_be_bytes)
qed

text \<open>
  C27. When the funds of the validator on the home chain do not cover gas, the current home gas price
  and the number of fetched messages, the relay fails with \<open>InsufficientFunds\<close> and sends nothing; the
  products do not overflow, so this is the exact comparison.
\<close>

theorem withdraw_relay_insufficient_funds:
  assumes "wr_state s = WR_FetchMessagesSignatures f n" and "w_home_balance w = Some balance"
    and "fetch_poll f = (Ok (Ready (messages_raw, signatures_raw)), g)"
    and "length signatures_raw = length messages_raw" and "length messages_raw < 2 ^ 64"
    and "unat (tc_gas (txs_withdraw_relay (cfg_txs (app_config app)))) * unat (w_home_gas_price w) *
         length messages_raw > unat balance"
  shows "withdraw_relay_poll app (s, w) =
    Some ((s\<lparr>wr_state := WR_FetchMessagesSignatures g n\<rparr>, w), Err (from_kind InsufficientFunds))"
  using assms unat_balance_required [OF assms(5)]
  by (simp add: withdraw_relay_poll_def poll_loop.simps withdraw_relay_body_def withdraw_gas_def
      balance_required_def word_less_nat_alt Let_def)

text \<open>
  Every poll of the withdraw relay returns when the home node stops answering sends with
  stale-nonce errors at some point.
\<close>

lemma withdraw_relay_poll_returns:
  assumes "settles K (SendRawTransaction (app_home app))"
  shows "\<exists>t r. withdraw_relay_poll app s = Some (t, r)"
  unfolding withdraw_relay_poll_def using assms by (rule withdraw_relay_returns)

text \<open>
  The assertion of the withdraw relay that it has fetched as many messages as lists of signatures
  holds: the fetch made for any assignments, polled until it is ready, gives one of each per
  assignment.
\<close>

lemma fetch_gives_pairs:
  assumes "fetch_messages_signatures tr contract as c = (f, d)"
    and "future_run (\<lambda>f. Some (prod.swap (fetch_poll f))) (\<lambda>_ _. False) f g"
    and "fetch_poll g = (Ok (Ready (messages_raw, signatures_raw)), g')"
  shows "length messages_raw = length as \<and> length signatures_raw = length as"
proof -
  let ?k = "(map ra_message_payload as, map ra_signature_payloads as)"
  have "fetch_ok tr contract d ?k g"
    using assms(2)
  proof (induction rule: future_run.induct)
    case (pending u v)
    then have "fetch_poll u = (Ok NotReady, v)"
      by (cases "fetch_poll u") simp
    with pending.IH show ?case
      by (rule fetches.keep)
  qed (use fetch_start(1) [OF assms(1)] in auto)
  then have "fetch_answered tr contract d ?k (messages_raw, signatures_raw)"
    using assms(3) by (rule fetches.gives)
  then show ?thesis
    by (auto simp: fetch_answered_def dest: list_all2_lengthD)
qed

end
