(* ===== verification/Balance.thy ===== *)
theory Balance
  imports App
begin

text \<open>
  \<^verbatim>\<open>bridge/src/bridge/balance.rs\<close> and \<^verbatim>\<open>bridge/src/bridge/chain_id.rs\<close>: the stream of the balances of
  the validator's account on a chain, and the retrieval of the id of a chain.
\<close>

section \<open>Balance checks\<close>

datatype balance_check_state =
  BC_Wait
| BC_BalanceRequest "u256 fut"
| BC_Yield "u256 option"

record balance_check =
  bc_state :: balance_check_state
  bc_node :: node

definition create_balance_check :: "node \<Rightarrow> balance_check" where
  "create_balance_check node = \<lparr> bc_state = BC_Wait, bc_node = node \<rparr>"

definition balance_check_body ::
    "transport \<Rightarrow> balance_check \<times> chain \<Rightarrow> (balance_check \<times> chain, u256 option poll) ctl" where
  "balance_check_body tr = (\<lambda>(s, c).
     case bc_state s of
       BC_Wait \<Rightarrow>
         (case api_balance tr (n_account (bc_node s)) None c of (f, d) \<Rightarrow>
            Continue (s\<lparr>bc_state := BC_BalanceRequest f\<rparr>, d))
     | BC_BalanceRequest f \<Rightarrow>
         (case poll_fut f of (r, g) \<Rightarrow>
          try_ready r (Return (s\<lparr>bc_state := BC_BalanceRequest g\<rparr>, c)) (\<lambda>value.
            Continue (s\<lparr>bc_state := BC_Yield (Some value)\<rparr>, c)))
     | BC_Yield balance \<Rightarrow>
         (case balance of
            None \<Rightarrow> Continue (s\<lparr>bc_state := BC_Wait\<rparr>, c)
          | Some v \<Rightarrow> Return (s\<lparr>bc_state := BC_Yield None\<rparr>, c) (Ok (Ready (Some v)))))"

definition balance_check_poll ::
    "transport \<Rightarrow> balance_check \<times> chain \<Rightarrow> ((balance_check \<times> chain) \<times> u256 option poll) option" where
  "balance_check_poll tr = poll_loop (balance_check_body tr)"

text \<open>What a check waits for and yields are answers to balance requests for its account.\<close>

definition balance_answered :: "transport \<Rightarrow> node \<Rightarrow> chain \<Rightarrow> u256 \<Rightarrow> bool" where
  "balance_answered tr node c v \<longleftrightarrow> answered (tr_balance tr) (Eth_getBalance (n_account node) Pending) c v"

definition bc_inv :: "transport \<Rightarrow> node \<Rightarrow> chain \<Rightarrow> u256 list \<Rightarrow> balance_check \<times> chain \<Rightarrow> bool" where
  "bc_inv tr node c0 vs = (\<lambda>(s, c).
     bc_node s = node \<and> chain_extends c0 c \<and> (\<forall>v\<in>set vs. balance_answered tr node c v) \<and>
     (case bc_state s of
        BC_BalanceRequest f \<Rightarrow> awaiting (tr_balance tr) (Eth_getBalance (n_account node) Pending) c f
      | BC_Yield (Some v) \<Rightarrow> balance_answered tr node c v
      | _ \<Rightarrow> True))"

definition bc_post ::
    "transport \<Rightarrow> node \<Rightarrow> chain \<Rightarrow> u256 list \<Rightarrow> balance_check \<times> chain \<Rightarrow> u256 option poll \<Rightarrow> bool" where
  "bc_post tr node c0 vs t r \<longleftrightarrow>
     bc_inv tr node c0 vs t \<and> r \<noteq> Ok (Ready None) \<and> (\<forall>m. r \<noteq> Panic m) \<and>
     (\<forall>v. r = Ok (Ready (Some v)) \<longrightarrow> bc_inv tr node c0 (vs @ [v]) t)"

lemma bc_inv_extends: "bc_inv tr node c0 vs (s, c) \<Longrightarrow> chain_extends c d \<Longrightarrow> bc_inv tr node c0 vs (s, d)"
  unfolding bc_inv_def balance_answered_def
  by (auto intro: chain_extends_trans awaiting_extends answered_extends
      split: balance_check_state.splits option.splits)

lemma bc_inv_rebase: "bc_inv tr node c0 vs (s, c) \<Longrightarrow> bc_inv tr node c vs (s, c)"
  by (simp add: bc_inv_def)

lemma api_balance_awaiting:
  "api_balance tr addr None c = (f, d) \<Longrightarrow>
     awaiting (tr_balance tr) (Eth_getBalance addr Pending) d f \<and> chain_extends c d"
  unfolding api_balance_def unwrap_or_simps by (blast intro: execute_awaiting execute_extends)

lemma bc_continue:
  assumes "bc_inv tr node c0 vs (s, c)" and "balance_check_body tr (s, c) = Continue (s', c')"
  shows "bc_inv tr node c0 vs (s', c')"
proof (cases "bc_state s")
  case BC_Wait
  then obtain f where f: "api_balance tr (n_account node) None c = (f, c')"
      and s': "s' = s\<lparr>bc_state := BC_BalanceRequest f\<rparr>"
    using assms by (auto simp: balance_check_body_def bc_inv_def split: prod.splits)
  with api_balance_awaiting [OF f] bc_inv_extends [OF assms(1), of c'] show ?thesis
    by (simp add: bc_inv_def)
next
  case (BC_BalanceRequest f)
  then show ?thesis
    using assms
    by (auto simp: balance_check_body_def bc_inv_def balance_answered_def dest: awaiting_Ready
        elim!: try_ready.elims split: prod.splits)
next
  case (BC_Yield v)
  then show ?thesis
    using assms by (auto simp: balance_check_body_def bc_inv_def split: option.splits)
qed

lemma bc_return:
  assumes "bc_inv tr node c0 vs (s, c)" and "balance_check_body tr (s, c) = Return t r"
  shows "bc_post tr node c0 vs t r"
proof (cases "bc_state s")
  case BC_Wait
  then show ?thesis
    using assms by (auto simp: balance_check_body_def split: prod.splits)
next
  case (BC_BalanceRequest f)
  then show ?thesis
    using assms
    by (auto simp: balance_check_body_def bc_post_def bc_inv_def dest: awaiting_poll
        elim!: try_ready.elims split: prod.splits)
next
  case (BC_Yield v)
  then show ?thesis
    using assms by (auto simp: balance_check_body_def bc_post_def bc_inv_def split: option.splits)
qed

interpretation balance_loop: poll_body "balance_check_body tr" "bc_inv tr node c0 vs" "bc_post tr node c0 vs"
  for tr node c0 vs
proof
  show "bc_inv tr node c0 vs s \<Longrightarrow> balance_check_body tr s = Continue t \<Longrightarrow> bc_inv tr node c0 vs t" for s t
    by (cases s; cases t) (auto intro: bc_continue)
  show "bc_inv tr node c0 vs s \<Longrightarrow> balance_check_body tr s = Return t r \<Longrightarrow> bc_post tr node c0 vs t r" for s t r
    by (cases s) (auto intro: bc_return)
qed

lemma balance_check_post:
  "balance_check_poll tr (s, c) = Some (t, r) \<Longrightarrow> bc_inv tr node c0 vs (s, c) \<Longrightarrow> bc_post tr node c0 vs t r"
  unfolding balance_check_poll_def by (rule balance_loop.poll_post)

fun bc_rank :: "balance_check_state \<Rightarrow> nat" where
  "bc_rank (BC_Yield None) = 3"
| "bc_rank BC_Wait = 2"
| "bc_rank (BC_BalanceRequest f) = 1"
| "bc_rank (BC_Yield (Some v)) = 0"

interpretation balance_total: poll_ranked "balance_check_body tr" "\<lambda>_. True" "\<lambda>(s, c). bc_rank (bc_state s)" for tr
proof
  show "balance_check_body tr s \<noteq> Diverge" for s
    by (auto simp: balance_check_body_def elim!: try_ready.elims
        split: prod.splits balance_check_state.splits option.splits)
  show "balance_check_body tr s = Continue t \<Longrightarrow>
      True \<and> (case t of (s, c) \<Rightarrow> bc_rank (bc_state s)) < (case s of (s, c) \<Rightarrow> bc_rank (bc_state s))" for s t
    by (auto simp: balance_check_body_def elim!: try_ready.elims
        split: prod.splits balance_check_state.splits option.splits)
qed

lemma balance_check_poll_not_None [simp]: "balance_check_poll tr s \<noteq> None"
  using balance_total.poll_returns [of tr s] by (auto simp: balance_check_poll_def)

definition bc_rely :: "balance_check \<times> chain \<Rightarrow> balance_check \<times> chain \<Rightarrow> bool" where
  "bc_rely = (\<lambda>(s, c) (s', c'). s' = s \<and> chain_extends c c')"

interpretation balances: stream_inv "balance_check_poll tr" bc_rely "bc_inv tr node c0" for tr node c0
proof (unfold_locales, goal_cases)
  case (1 xs s t x)
  then show ?case
    using balance_check_post [of tr "fst s" "snd s"] by (fastforce simp: bc_post_def)
next
  case (2 xs s t)
  then show ?case
    using balance_check_post [of tr "fst s" "snd s"] by (fastforce simp: bc_post_def)
next
  case (3 xs s t)
  then show ?case
    by (auto simp: bc_rely_def intro: bc_inv_extends)
qed

lemma bc_inv_start: "bc_inv tr node c [] (create_balance_check node, c)"
  by (simp add: bc_inv_def create_balance_check_def)

text \<open>
  Every balance a check yields is one the node answered to a request for the pending balance of the
  account the check was created for.
\<close>

lemma balance_check_answers:
  assumes "stream_run (balance_check_poll tr) bc_rely (create_balance_check node, c) vs (s, d)"
  shows "\<forall>v\<in>set vs. answered (tr_balance tr) (Eth_getBalance (n_account node) Pending) d v"
  using balances.run_inv [OF assms bc_inv_start] by (simp add: bc_inv_def balance_answered_def)

section \<open>Chain ids\<close>

text \<open>\<open>str::parse::<u64>()\<close>: an optional plus sign and at least one decimal digit, without overflow.\<close>

definition is_digit :: "char \<Rightarrow> bool" where
  "is_digit ch \<longleftrightarrow> 48 \<le> (of_char ch :: nat) \<and> (of_char ch :: nat) \<le> 57"

definition digits_value :: "string \<Rightarrow> nat" where
  "digits_value ds = foldl (\<lambda>n ch. n * 10 + (of_char ch - 48)) 0 ds"

definition parse_u64 :: "string \<Rightarrow> u64 option" where
  "parse_u64 s =
     (let ds = (if s \<noteq> [] \<and> hd s = CHR ''+'' then tl s else s) in
      if ds \<noteq> [] \<and> list_all is_digit ds \<and> digits_value ds < 2 ^ 64
      then Some (word_of_nat (digits_value ds)) else None)"

datatype chain_id_retrieval_state =
  CI_Wait
| CI_ChainIdRequest "string fut"

record chain_id_retrieval =
  ci_state :: chain_id_retrieval_state
  ci_node :: node

definition create_chain_id_retrieval :: "node \<Rightarrow> chain_id_retrieval" where
  "create_chain_id_retrieval node = \<lparr> ci_state = CI_Wait, ci_node = node \<rparr>"

definition chain_id_retrieval_body ::
    "transport \<Rightarrow> chain_id_retrieval \<times> chain \<Rightarrow> (chain_id_retrieval \<times> chain, u64 poll) ctl" where
  "chain_id_retrieval_body tr = (\<lambda>(s, c).
     case ci_state s of
       CI_Wait \<Rightarrow>
         (case net_version tr c of (f, d) \<Rightarrow> Continue (s\<lparr>ci_state := CI_ChainIdRequest f\<rparr>, d))
     | CI_ChainIdRequest f \<Rightarrow>
         (case poll_fut f of (r, g) \<Rightarrow>
          let s = s\<lparr>ci_state := CI_ChainIdRequest g\<rparr> in
          try_ready r (Return (s, c)) (\<lambda>value.
            case expect ''called `Result::unwrap()` on an `Err` value: ParseIntError'' (parse_u64 value) of
              Ok chain_id \<Rightarrow> Return (s, c) (Ok (Ready chain_id))
            | Err e \<Rightarrow> Return (s, c) (Err e)
            | Panic m \<Rightarrow> Return (s, c) (Panic m))))"

definition chain_id_retrieval_poll ::
    "transport \<Rightarrow> chain_id_retrieval \<times> chain \<Rightarrow> ((chain_id_retrieval \<times> chain) \<times> u64 poll) option" where
  "chain_id_retrieval_poll tr = poll_loop (chain_id_retrieval_body tr)"

lemma digits_value_snoc: "digits_value (ds @ [ch]) = digits_value ds * 10 + (of_char ch - 48)"
  by (simp add: digits_value_def)

lemma decimal_digits: "decimal n \<noteq> [] \<and> list_all is_digit (decimal n) \<and> digits_value (decimal n) = n"
proof (induction n rule: decimal.induct)
  case (1 n)
  have digit: "is_digit (char_of (48 + d)) \<and> (of_char (char_of (48 + d) :: char) :: nat) - 48 = d" if "d < 10" for d :: nat
    using that by (simp add: is_digit_def)
  show ?case
  proof (cases "n < 10")
    case True
    then show ?thesis
      using digit [of n] by (simp add: decimal.simps [of n] digits_value_def)
  next
    case False
    then show ?thesis
      using "1.IH" digit [of "n mod 10"] by (simp add: decimal.simps [of n] digits_value_snoc)
  qed
qed

lemma parse_u64_decimal: "n < 2 ^ 64 \<Longrightarrow> parse_u64 (decimal n) = Some (word_of_nat n)"
proof -
  assume n: "n < 2 ^ 64"
  have "list_all is_digit (decimal n)" "decimal n \<noteq> []"
    using decimal_digits by auto
  then have "hd (decimal n) \<noteq> CHR ''+''"
    by (cases "decimal n") (auto simp: is_digit_def)
  then show ?thesis
    using n decimal_digits [of n] by (simp add: parse_u64_def Let_def)
qed

text \<open>
  C36. The retrieval of a chain id gives the number whose decimal form the node answers, for every id
  that fits in 64 bits, with a single request.
\<close>

theorem chain_id_roundtrip:
  assumes "tr_net_version tr (Net_version # ch_calls c) = Inner (A_Value (decimal (unat chain_id))) # rs"
  shows "chain_id_retrieval_poll tr (create_chain_id_retrieval node, c) =
    Some ((\<lparr> ci_state = CI_ChainIdRequest rs, ci_node = node \<rparr>, c\<lparr>ch_calls := Net_version # ch_calls c\<rparr>), Ok (Ready chain_id))"
proof -
  have "parse_u64 (decimal (unat chain_id)) = Some chain_id"
    using parse_u64_decimal [of "unat chain_id"] unat_less [of chain_id] by simp
  then show ?thesis
    using assms
    by (simp add: chain_id_retrieval_poll_def poll_loop.simps chain_id_retrieval_body_def
        create_chain_id_retrieval_def net_version_def execute_def Let_def)
qed

end
