(* ===== verification/GasPrice.thy ===== *)
theory GasPrice
  imports Api
begin

text \<open>
  \<^verbatim>\<open>bridge/src/bridge/gas_price.rs\<close>: the stream of gas prices from an oracle. Retrieving a document and
  parsing JSON are parameters; the conversion of the price goes through 64-bit floating point, which
  is written out (round to nearest, ties to even, in binary64).
\<close>

section \<open>Floating point\<close>

text \<open>
  The binary64 values the conversion can meet: finite ones as rationals, and the infinities a product
  may overflow to.
\<close>

datatype f64 = Finite rat | Inf bool

definition pow2 :: "int \<Rightarrow> rat" where
  "pow2 e = (if 0 \<le> e then 2 ^ nat e else 1 / 2 ^ nat (- e))"

text \<open>The exponent of a positive rational: \<open>2 ^ e \<le> x < 2 ^ (e + 1)\<close>.\<close>

definition exponent :: "rat \<Rightarrow> int" where
  "exponent x = (case quotient_of x of (n, d) \<Rightarrow>
     let k = int (bitlen (nat n)) - int (bitlen (nat d)) in if pow2 k \<le> x then k else k - 1)"

definition round_even :: "rat \<Rightarrow> int" where
  "round_even x =
     (let f = floor x; d = x - of_int f in
      if d < 1 / 2 then f else if 1 / 2 < d then f + 1 else if even f then f else f + 1)"

definition f64_round :: "rat \<Rightarrow> f64" where
  "f64_round x =
     (if x = 0 then Finite 0
      else
        let e = max (exponent \<bar>x\<bar> - 52) (- 1074);
            v = of_int (round_even (\<bar>x\<bar> / pow2 e)) * pow2 e
        in if 2 ^ 1024 \<le> v then Inf (x < 0) else Finite (if x < 0 then - v else v))"

definition f64_mult :: "f64 \<Rightarrow> rat \<Rightarrow> f64" where
  "f64_mult a y = (case a of Finite x \<Rightarrow> f64_round (x * y) | Inf s \<Rightarrow> Inf (s \<noteq> (y < 0)))"

text \<open>\<open>x.trunc() as u64\<close>, with the saturating cast of the language.\<close>

definition trunc_u64 :: "f64 \<Rightarrow> u64" where
  "trunc_u64 a = (case a of
      Finite x \<Rightarrow>
        (if x \<le> 0 then 0 else if 2 ^ 64 \<le> x then - 1 else word_of_int (floor x))
    | Inf s \<Rightarrow> if s then 0 else - 1)"

section \<open>The stream\<close>

definition CACHE_TIMEOUT_DURATION :: duration where
  "CACHE_TIMEOUT_DURATION = 5 * 60"

text \<open>
  The answers of a retrieval under its timeout to successive polls. The document of a chunk is a
  parameter: what \<open>serde_json\<close> reads from its bytes as a map from strings to values.
\<close>

datatype oracle_reply = OR_Pending | OR_Chunk bytes | OR_Fail error | OR_Timeout timeout_error

fun oracle_poll :: "oracle_reply list \<Rightarrow> bytes poll \<times> oracle_reply list" where
  "oracle_poll [] = (Ok NotReady, [])"
| "oracle_poll (r # rs) =
     ((case r of
         OR_Pending \<Rightarrow> Ok NotReady
       | OR_Chunk b \<Rightarrow> Ok (Ready b)
       | OR_Fail e \<Rightarrow> Err e
       | OR_Timeout t \<Rightarrow> Err (from_timeout_error t)), rs)"

datatype gas_price_state =
  GP_Initial
| GP_WaitingForResponse "oracle_reply list"
| GP_Yield "u64 option"

record gas_price_stream =
  gp_state :: gas_price_state
  gp_retrievals :: "oracle_reply list list"
  gp_uri :: string
  gp_speed :: gas_price_speed
  gp_interval :: "tick list"
  gp_last_price :: u64
  gp_request_timeout :: duration

text \<open>
  \<open>new_with_retriever\<close>: \<open>parse_uri\<close> is the parser of \<open>hyper::Uri\<close>; \<open>retrievals\<close> stands for the
  retriever, the replies to its successive uses.
\<close>

definition new_with_retriever ::
    "(string \<Rightarrow> string option) \<Rightarrow> (duration \<Rightarrow> tick list) \<Rightarrow> node \<Rightarrow> oracle_reply list list \<Rightarrow>
     gas_price_stream result" where
  "new_with_retriever parse_uri interval_at node retrievals =
     and_then (expect ''called `Option::unwrap()` on a `None` value'' (n_gas_price_oracle_url node)) (\<lambda>url.
     and_then (expect ''called `Result::unwrap()` on an `Err` value'' (parse_uri url)) (\<lambda>uri.
     Ok \<lparr> gp_state = GP_Initial,
          gp_retrievals = retrievals,
          gp_uri = uri,
          gp_speed = n_gas_price_speed node,
          gp_interval = interval_at CACHE_TIMEOUT_DURATION,
          gp_last_price = n_default_gas_price node,
          gp_request_timeout = n_gas_price_timeout node \<rparr>))"

text \<open>
  The retriever of the running program, an HTTP client. What happens to a request is a list of events:
  it is still pending, the response comes, a part of its body comes, the body ends, the client fails,
  or the timer of the request runs out. \<open>retrieve\<close> answers with the parts of the body together
  (\<open>concat2\<close>); its first argument is what has come of the body, once there is a response.
\<close>

datatype http_event =
  HE_Pending | HE_Response | HE_Chunk bytes | HE_End | HE_Fail string | HE_Timeout timeout_error

fun retrieve :: "bytes option \<Rightarrow> http_event list \<Rightarrow> oracle_reply list" where
  "retrieve st [] = []"
| "retrieve st (HE_Pending # es) = OR_Pending # retrieve st es"
| "retrieve st (HE_Fail e # es) = [OR_Fail (from_kind (Hyper e))]"
| "retrieve st (HE_Timeout t # es) = [OR_Timeout t]"
| "retrieve None (HE_Response # es) = retrieve (Some []) es"
| "retrieve None (_ # es) = retrieve None es"
| "retrieve (Some body) (HE_Chunk chunk # es) = retrieve (Some (body @ chunk)) es"
| "retrieve (Some body) (HE_End # es) = [OR_Chunk body]"
| "retrieve (Some body) (HE_Response # es) = retrieve (Some body) es"

text \<open>
  \<open>StandardGasPriceStream::new\<close>: \<open>connector\<close> is the outcome of making the TLS connector, \<open>requests\<close> what
  happens to the successive requests of the client.
\<close>

definition standard_gas_price_stream ::
    "string + unit \<Rightarrow> (string \<Rightarrow> string option) \<Rightarrow> (duration \<Rightarrow> tick list) \<Rightarrow> node \<Rightarrow> http_event list list \<Rightarrow>
     gas_price_stream result" where
  "standard_gas_price_stream connector parse_uri interval_at node requests =
     (case connector of
        Inl e \<Rightarrow> Panic ''called `Result::unwrap()` on an `Err` value''
      | Inr _ \<Rightarrow> new_with_retriever parse_uri interval_at node (map (retrieve None) requests))"

text \<open>The price in an answer of the oracle, or the last one when the answer is not usable.\<close>

definition gas_price_wei :: "rat \<Rightarrow> u64" where
  "gas_price_wei price = trunc_u64 (f64_mult (f64_round price) 1000000000)"

definition oracle_price :: "(bytes \<Rightarrow> string + (string \<rightharpoonup> json)) \<Rightarrow> gas_price_speed \<Rightarrow> u64 \<Rightarrow> bytes \<Rightarrow> u64" where
  "oracle_price parse_json speed last_price chunk =
     (case parse_json chunk of
        Inr json_obj \<Rightarrow>
          (case json_obj (speed_as_str speed) of
             Some (JNumber price) \<Rightarrow> gas_price_wei price
           | _ \<Rightarrow> last_price)
      | Inl e \<Rightarrow> last_price)"

definition gas_price_body ::
    "(bytes \<Rightarrow> string + (string \<rightharpoonup> json)) \<Rightarrow> gas_price_stream \<Rightarrow> (gas_price_stream, u64 option poll) ctl" where
  "gas_price_body parse_json s =
     (case gp_state s of
        GP_Initial \<Rightarrow>
          (case interval_poll (gp_interval s) of (r, iv) \<Rightarrow>
           let s = s\<lparr>gp_interval := iv\<rparr> in
           try_stream r (Return s) (\<lambda>_.
             let request = (case gp_retrievals s of [] \<Rightarrow> [] | f # _ \<Rightarrow> f)
             in Continue (s\<lparr>gp_retrievals := drop 1 (gp_retrievals s), gp_state := GP_WaitingForResponse request\<rparr>)))
      | GP_WaitingForResponse request_future \<Rightarrow>
          (case oracle_poll request_future of (r, g) \<Rightarrow>
           (case r of
              Ok NotReady \<Rightarrow> Return (s\<lparr>gp_state := GP_WaitingForResponse g\<rparr>) (Ok NotReady)
            | Ok (Ready chunk) \<Rightarrow>
                Continue (s\<lparr>gp_state := GP_Yield (Some (oracle_price parse_json (gp_speed s) (gp_last_price s) chunk))\<rparr>)
            | Err e \<Rightarrow> Continue (s\<lparr>gp_state := GP_Yield (Some (gp_last_price s))\<rparr>)
            | Panic m \<Rightarrow> Return (s\<lparr>gp_state := GP_WaitingForResponse g\<rparr>) (Panic m)))
      | GP_Yield opt \<Rightarrow>
          (case opt of
             None \<Rightarrow> Continue (s\<lparr>gp_state := GP_Initial\<rparr>)
           | Some price \<Rightarrow>
               (let s = (if price \<noteq> gp_last_price s then s\<lparr>gp_last_price := price\<rparr> else s)
                in Return (s\<lparr>gp_state := GP_Yield None\<rparr>) (Ok (Ready (Some price))))))"

definition gas_price_poll ::
    "(bytes \<Rightarrow> string + (string \<rightharpoonup> json)) \<Rightarrow> gas_price_stream \<Rightarrow> (gas_price_stream \<times> u64 option poll) option" where
  "gas_price_poll parse_json = poll_loop (gas_price_body parse_json)"

section \<open>Lemmas\<close>

lemma pow2_pos [simp]: "0 < pow2 e"
  by (simp add: pow2_def)

text \<open>Whole numbers below \<open>2\<^sup>53\<close> are exact.\<close>

lemma exponent_of_nat_less: "0 < n \<Longrightarrow> n < 2 ^ k \<Longrightarrow> exponent (of_nat n) < int k"
proof -
  assume n: "0 < n" "n < 2 ^ k"
  have q: "quotient_of (of_nat n) = (int n, 1)"
    using quotient_of_int [of "int n"] by (simp add: Rat.of_int_def)
  have "(2::nat) ^ (bitlen n - 1) < 2 ^ k"
    using bitlen_bounds [OF n(1)] n(2) by linarith
  then have "bitlen n - 1 < k"
    by (simp add: power_strict_increasing_iff)
  then show ?thesis
    using bitlen_bounds [OF n(1)] by (auto simp: exponent_def q Let_def)
qed

lemma round_even_of_int [simp]: "round_even (of_int z) = z"
  by (simp add: round_even_def)

lemma f64_round_of_nat:
  assumes "n < 2 ^ 53"
  shows "f64_round (of_nat n) = Finite (of_nat n)"
proof (cases "n = 0")
  case False
  define e where "e = max (exponent (of_nat n) - 52) (- 1074)"
  have e: "e \<le> 0"
    using exponent_of_nat_less [of n 53] assms False by (simp add: e_def)
  have "of_nat n / pow2 e = of_int (int n * 2 ^ nat (- e))"
    using e by (cases "e = 0") (auto simp: pow2_def)
  then have "of_int (round_even (of_nat n / pow2 e)) = of_nat n / pow2 e"
    by (metis round_even_of_int)
  then have v: "of_int (round_even (of_nat n / pow2 e)) * pow2 e = of_nat n"
    by (simp add: less_imp_neq [OF pow2_pos, symmetric])
  have "(of_nat n :: rat) < 2 ^ 53"
    using assms by (metis of_nat_less_iff of_nat_numeral of_nat_power)
  also have "(2::rat) ^ 53 \<le> 2 ^ 1024"
    by (rule power_increasing) simp_all
  finally have "\<not> 2 ^ 1024 \<le> (of_nat n :: rat)"
    by simp
  then show ?thesis
    using False v by (simp add: f64_round_def Let_def flip: e_def)
qed (simp add: f64_round_def)

lemma trunc_u64_of_nat: "n < 2 ^ 64 \<Longrightarrow> trunc_u64 (Finite (of_nat n)) = word_of_nat n"
proof -
  assume "n < 2 ^ 64"
  then have "\<not> 2 ^ 64 \<le> (of_nat n :: rat)"
    by (metis not_le of_nat_less_iff of_nat_numeral of_nat_power)
  then show ?thesis
    by (auto simp: trunc_u64_def)
qed

lemma oracle_poll_not_Panic: "oracle_poll f \<noteq> (Panic m, g)"
  by (cases f) (auto split: oracle_reply.splits)

text \<open>A response gives its body as a whole, however it is cut into parts.\<close>

lemma retrieve_body: "retrieve None (HE_Response # map HE_Chunk chunks @ HE_End # es) = [OR_Chunk (concat chunks)]"
proof -
  have "retrieve (Some body) (map HE_Chunk chunks @ HE_End # es) = [OR_Chunk (body @ concat chunks)]" for body
    by (induction chunks arbitrary: body) simp_all
  from this [of "[]"] show ?thesis by simp
qed

fun gp_rank :: "gas_price_state \<Rightarrow> nat" where
  "gp_rank (GP_Yield None) = 3"
| "gp_rank GP_Initial = 2"
| "gp_rank (GP_WaitingForResponse f) = 1"
| "gp_rank (GP_Yield (Some v)) = 0"

interpretation gas_price_total: poll_ranked "gas_price_body parse_json" "\<lambda>_. True" "\<lambda>s. gp_rank (gp_state s)"
  for parse_json
proof
  show "gas_price_body parse_json s \<noteq> Diverge" for s
    by (auto simp: gas_price_body_def Let_def elim!: try_stream.elims
        split: prod.splits gas_price_state.splits option.splits result.splits async.splits)
  show "gas_price_body parse_json s = Continue t \<Longrightarrow> True \<and> gp_rank (gp_state t) < gp_rank (gp_state s)" for s t
    by (auto simp: gas_price_body_def Let_def elim!: try_stream.elims
        split: prod.splits gas_price_state.splits option.splits result.splits async.splits)
qed

lemma gas_price_poll_not_None [simp]: "gas_price_poll parse_json s \<noteq> None"
  using gas_price_total.poll_returns [of parse_json s] by (auto simp: gas_price_poll_def)

text \<open>With a timer that ticks or is pending, a poll ends in a price or is not ready.\<close>

definition ticking :: "gas_price_stream \<Rightarrow> bool" where
  "ticking s \<longleftrightarrow> (\<forall>t\<in>set (gp_interval s). t = T_Tick \<or> t = T_Pending)"

lemma ticking_interval:
  assumes "ticking s" and "interval_poll (gp_interval s) = (r, iv)"
  shows "ticking (s\<lparr>gp_interval := iv\<rparr>)" and "r = Ok NotReady \<or> r = Ok (Ready (Some ()))"
  using assms by (cases "gp_interval s"; auto simp: ticking_def)+

lemma ticking_continue: "ticking s \<Longrightarrow> gas_price_body parse_json s = Continue t \<Longrightarrow> ticking t"
  using ticking_interval [of s]
  by (cases "gp_state s"; fastforce simp: gas_price_body_def Let_def ticking_def elim!: try_stream.elims
      split: prod.splits option.splits result.splits async.splits)

lemma ticking_return:
  assumes "ticking s" and "gas_price_body parse_json s = Return t r"
  shows "r = Ok NotReady \<or> (\<exists>price. r = Ok (Ready (Some price)))"
proof (cases "gp_state s")
  case GP_Initial
  then show ?thesis
    using assms ticking_interval(2) [OF assms(1)]
    by (cases "interval_poll (gp_interval s)") (auto simp: gas_price_body_def Let_def)
next
  case (GP_WaitingForResponse f)
  then show ?thesis
    using assms oracle_poll_not_Panic [of f]
    by (auto simp: gas_price_body_def Let_def split: prod.splits result.splits async.splits)
next
  case (GP_Yield v)
  then show ?thesis
    using assms by (auto simp: gas_price_body_def Let_def split: option.splits)
qed

interpretation gas_price_ticking:
  poll_body "gas_price_body parse_json" ticking "\<lambda>u r. r = Ok NotReady \<or> (\<exists>price. r = Ok (Ready (Some price)))"
  for parse_json
  by unfold_locales (fact ticking_continue, fact ticking_return)

section \<open>Properties\<close>

text \<open>
  C34. A gas price of a whole number of gwei is converted to wei exactly, as long as the number of wei
  is below \<open>2\<^sup>53\<close> (about 9 million gwei): neither of the two roundings to binary64 loses anything.
\<close>

theorem gas_price_whole_gwei:
  assumes "n * 1000000000 < 2 ^ 53"
  shows "unat (gas_price_wei (of_nat n)) = n * 1000000000"
proof -
  have "f64_mult (f64_round (of_nat n)) 1000000000 = f64_round (of_nat (n * 1000000000))"
    using assms by (simp add: f64_mult_def f64_round_of_nat)
  also have "\<dots> = Finite (of_nat (n * 1000000000))"
    using assms by (rule f64_round_of_nat)
  finally have "gas_price_wei (of_nat n) = word_of_nat (n * 1000000000)"
    unfolding gas_price_wei_def using trunc_u64_of_nat [of "n * 1000000000"] assms by simp
  then show ?thesis
    using assms by (simp add: unat_of_nat del: of_nat_mult)
qed

text \<open>
  C35. An answer of the oracle that cannot be used (a failed or timed-out request, a document that does
  not parse, no number under the configured speed) makes the stream yield its last price again and
  leaves that price as it is.
\<close>

theorem gas_price_falls_back:
  assumes "gp_state s = GP_WaitingForResponse (r # rs)"
    and "(\<exists>e. r = OR_Fail e) \<or> (\<exists>t. r = OR_Timeout t) \<or>
         (\<exists>chunk. r = OR_Chunk chunk \<and>
            ((\<exists>e. parse_json chunk = Inl e) \<or>
             (\<exists>m. parse_json chunk = Inr m \<and> (\<forall>p. m (speed_as_str (gp_speed s)) \<noteq> Some (JNumber p)))))"
  shows "gas_price_poll parse_json s = Some (s\<lparr>gp_state := GP_Yield None\<rparr>, Ok (Ready (Some (gp_last_price s))))"
proof -
  have "gas_price_body parse_json s = Continue (s\<lparr>gp_state := GP_Yield (Some (gp_last_price s))\<rparr>)"
    using assms
    by (auto simp: gas_price_body_def oracle_price_def split: option.splits json.splits)
  then show ?thesis
    by (simp add: gas_price_poll_def poll_loop_Continue poll_loop_Return gas_price_body_def)
qed

text \<open>
  The oracle cannot stop or break the stream: as long as the timer ticks or is pending, a poll is
  not ready or yields a price.
\<close>

lemma gas_price_poll_ok:
  assumes "\<forall>t\<in>set (gp_interval s). t = T_Tick \<or> t = T_Pending"
    and "gas_price_poll parse_json s = Some (u, r)"
  shows "r = Ok NotReady \<or> (\<exists>price. r = Ok (Ready (Some price)))"
  using gas_price_ticking.poll_post [OF assms(2) [unfolded gas_price_poll_def], unfolded ticking_def] assms(1)
  by blast

end
