(* ===== verification/EventStream.thy ===== *)
theory EventStream
  imports DepositRelay WithdrawConfirm WithdrawRelay Balance GasPrice
begin

text \<open>
  \<^verbatim>\<open>bridge/src/bridge/mod.rs\<close>: the three relays merged into one stream, the event stream that gates them
  by the balances, the gas prices and the shutdown flag. The bridge built on it is in \<open>Bridge\<close>.
\<close>

section \<open>The relays together\<close>

datatype relay_id = R_Deposit | R_WithdrawRelay | R_WithdrawConfirm

text \<open>
  \<open>deposit_relay.select(withdraw_relay).select(withdraw_confirm)\<close> merges the streams: a poll asks them in
  turn until one has an item or fails, a stream that has ended is not asked again, and the merged
  stream has ended when all have. In which order a poll asks is a parameter, one list for each poll.
\<close>

record relays =
  rl_deposit :: deposit_relay
  rl_withdraw_relay :: withdraw_relay
  rl_withdraw_confirm :: withdraw_confirm
  rl_ended :: "relay_id list"
  rl_turns :: "relay_id list list"

fun relay_poll :: "app \<Rightarrow> relay_id \<Rightarrow> relays \<times> world \<Rightarrow> ((relays \<times> world) \<times> bridge_checked option poll) option" where
  "relay_poll app R_Deposit (s, w) =
     (case deposit_relay_poll app (rl_deposit s, w) of
        None \<Rightarrow> None
      | Some ((x, v), r) \<Rightarrow> Some ((s\<lparr>rl_deposit := x\<rparr>, v), map_err (contextualize ''deposit_relay'') r))"
| "relay_poll app R_WithdrawRelay (s, w) =
     (case withdraw_relay_poll app (rl_withdraw_relay s, w) of
        None \<Rightarrow> None
      | Some ((x, v), r) \<Rightarrow> Some ((s\<lparr>rl_withdraw_relay := x\<rparr>, v), map_err (contextualize ''withdraw_relay'') r))"
| "relay_poll app R_WithdrawConfirm (s, w) =
     (case withdraw_confirm_poll app (rl_withdraw_confirm s, w) of
        None \<Rightarrow> None
      | Some ((x, v), r) \<Rightarrow> Some ((s\<lparr>rl_withdraw_confirm := x\<rparr>, v), map_err (contextualize ''withdraw_confirm'') r))"

fun select_poll ::
    "app \<Rightarrow> relay_id list \<Rightarrow> relays \<times> world \<Rightarrow> ((relays \<times> world) \<times> bridge_checked option poll) option" where
  "select_poll app [] (s, w) =
     Some ((s, w), if {R_Deposit, R_WithdrawRelay, R_WithdrawConfirm} \<subseteq> set (rl_ended s)
                   then Ok (Ready None) else Ok NotReady)"
| "select_poll app (k # ks) (s, w) =
     (if k \<in> set (rl_ended s) then select_poll app ks (s, w)
      else case relay_poll app k (s, w) of
        None \<Rightarrow> None
      | Some ((s, w), r) \<Rightarrow>
          (case r of
             Ok NotReady \<Rightarrow> select_poll app ks (s, w)
           | Ok (Ready None) \<Rightarrow> select_poll app ks (s\<lparr>rl_ended := k # rl_ended s\<rparr>, w)
           | _ \<Rightarrow> Some ((s, w), r)))"

definition relays_poll :: "app \<Rightarrow> relays \<times> world \<Rightarrow> ((relays \<times> world) \<times> bridge_checked option poll) option" where
  "relays_poll app = (\<lambda>(s, w).
     let turn = (case rl_turns s of [] \<Rightarrow> [R_Deposit, R_WithdrawRelay, R_WithdrawConfirm] | t # _ \<Rightarrow> t)
     in select_poll app turn (s\<lparr>rl_turns := drop 1 (rl_turns s)\<rparr>, w))"

section \<open>The event stream\<close>

text \<open>The parts of the environment the gas price streams use.\<close>

record price_oracle =
  or_parse_uri :: "string \<Rightarrow> string option"
  or_parse_json :: "bytes \<Rightarrow> string + (string \<rightharpoonup> json)"
  or_interval_at :: "duration \<Rightarrow> tick list"
  or_connector :: "string + unit"
  or_home_requests :: "http_event list list"
  or_foreign_requests :: "http_event list list"

datatype bridge_status = BS_Init | BS_Wait | BS_NextItem "bridge_checked option"

record bridge_event_stream =
  es_home_balance_check :: balance_check
  es_foreign_balance_check :: balance_check
  es_bridge :: relays
  es_state :: bridge_status
  es_home_gas_stream :: "gas_price_stream option"
  es_foreign_gas_stream :: "gas_price_stream option"

definition gas_stream :: "price_oracle \<Rightarrow> node \<Rightarrow> http_event list list \<Rightarrow> gas_price_stream option result" where
  "gas_stream orc node requests =
     (if n_gas_price_oracle_url node \<noteq> None
      then and_then (standard_gas_price_stream (or_connector orc) (or_parse_uri orc) (or_interval_at orc) node requests)
             (\<lambda>s. Ok (Some s))
      else Ok None)"

text \<open>
  \<open>create_bridge_event_stream\<close>. The balances and gas prices are new cells, shared by the streams it
  creates; \<open>turns\<close> stands for the choices of the merged stream.
\<close>

definition create_bridge_event_stream ::
    "price_oracle \<Rightarrow> relay_id list list \<Rightarrow> app \<Rightarrow> database \<Rightarrow> u64 \<Rightarrow> u64 \<Rightarrow> world \<Rightarrow> (bridge_event_stream \<times> world) result" where
  "create_bridge_event_stream orc turns app init home_chain_id foreign_chain_id w =
     (let home = cfg_home (app_config app); foreign = cfg_foreign (app_config app) in
      and_then (gas_stream orc home (or_home_requests orc)) (\<lambda>home_gas_stream.
      and_then (gas_stream orc foreign (or_foreign_requests orc)) (\<lambda>foreign_gas_stream.
      Ok (\<lparr> es_home_balance_check = create_balance_check home,
            es_foreign_balance_check = create_balance_check foreign,
            es_bridge =
              \<lparr> rl_deposit = create_deposit_relay app init foreign_chain_id,
                rl_withdraw_relay = create_withdraw_relay app init home_chain_id,
                rl_withdraw_confirm = create_withdraw_confirm app init foreign_chain_id,
                rl_ended = [], rl_turns = turns \<rparr>,
            es_state = BS_Init,
            es_home_gas_stream = home_gas_stream,
            es_foreign_gas_stream = foreign_gas_stream \<rparr>,
          w\<lparr> w_home_balance := None, w_foreign_balance := None,
             w_home_gas_price := n_default_gas_price home,
             w_foreign_gas_price := n_default_gas_price foreign \<rparr>))))"

text \<open>\<open>Option::or\<close>.\<close>

definition option_or :: "'a option \<Rightarrow> 'a option \<Rightarrow> 'a option" where
  "option_or x y = (case x of None \<Rightarrow> y | Some v \<Rightarrow> Some v)"

definition check_balances ::
    "app \<Rightarrow> bridge_event_stream \<times> world \<Rightarrow> ((bridge_event_stream \<times> world) \<times> unit option poll) option" where
  "check_balances app = (\<lambda>(s, w).
     case balance_check_poll (app_home app) (es_home_balance_check s, w_home w) of
       None \<Rightarrow> None
     | Some ((b, c), r) \<Rightarrow>
         let s = s\<lparr>es_home_balance_check := b\<rparr>; w = w\<lparr>w_home := c\<rparr> in
         try_bridge r (\<lambda>ret. Some ((s, w), ret)) (\<lambda>home.
         let w = w\<lparr>w_home_balance := option_or home (w_home_balance w)\<rparr> in
         case balance_check_poll (app_foreign app) (es_foreign_balance_check s, w_foreign w) of
           None \<Rightarrow> None
         | Some ((b, c), r) \<Rightarrow>
             let s = s\<lparr>es_foreign_balance_check := b\<rparr>; w = w\<lparr>w_foreign := c\<rparr> in
             try_bridge r (\<lambda>ret. Some ((s, w), ret)) (\<lambda>foreign.
             let w = w\<lparr>w_foreign_balance := option_or foreign (w_foreign_balance w)\<rparr> in
             Some ((s, w), if w_home_balance w = None \<or> w_foreign_balance w = None
                           then Ok NotReady else Ok (Ready None)))))"

definition get_gas_prices ::
    "price_oracle \<Rightarrow> bridge_event_stream \<times> world \<Rightarrow> ((bridge_event_stream \<times> world) \<times> unit option poll) option" where
  "get_gas_prices orc = (\<lambda>(s, w).
     let foreign = (\<lambda>(s, w).
           case es_foreign_gas_stream s of
             None \<Rightarrow> Some ((s, w), Ok (Ready None))
           | Some g \<Rightarrow>
               (case gas_price_poll (or_parse_json orc) g of
                  None \<Rightarrow> None
                | Some (g, r) \<Rightarrow>
                    let s = s\<lparr>es_foreign_gas_stream := Some g\<rparr> in
                    try_bridge r (\<lambda>ret. Some ((s, w), ret)) (\<lambda>price.
                    Some ((s, w\<lparr>w_foreign_gas_price := unwrap_or price (w_foreign_gas_price w)\<rparr>), Ok (Ready None)))))
     in case es_home_gas_stream s of
          None \<Rightarrow> foreign (s, w)
        | Some g \<Rightarrow>
            (case gas_price_poll (or_parse_json orc) g of
               None \<Rightarrow> None
             | Some (g, r) \<Rightarrow>
                 let s = s\<lparr>es_home_gas_stream := Some g\<rparr> in
                 try_bridge r (\<lambda>ret. Some ((s, w), ret)) (\<lambda>price.
                 foreign (s, w\<lparr>w_home_gas_price := unwrap_or price (w_home_gas_price w)\<rparr>))))"

definition event_stream_body ::
    "price_oracle \<Rightarrow> app \<Rightarrow> bridge_event_stream \<times> world \<Rightarrow> (bridge_event_stream \<times> world, bridge_checked option poll) ctl" where
  "event_stream_body orc app = (\<lambda>(s, w).
     case es_state s of
       BS_Init \<Rightarrow>
         inner (check_balances app (s, w)) (\<lambda>((s, w), r).
         case r of
           Ok NotReady \<Rightarrow> Return (s, w) (Ok NotReady)
         | Ok (Ready _) \<Rightarrow> Continue (s\<lparr>es_state := BS_Wait\<rparr>, w)
         | Err e \<Rightarrow> Return (s, w) (Err e)
         | Panic m \<Rightarrow> Return (s, w) (Panic m))
     | BS_Wait \<Rightarrow>
         if \<not> w_running w then Return (s, w) (Err (from_kind ShutdownRequested))
         else
           inner (get_gas_prices orc (s, w)) (\<lambda>((s, w), ignored).
           case ignored of
             Panic m \<Rightarrow> Return (s, w) (Panic m)
           | _ \<Rightarrow>
               inner (relays_poll app (es_bridge s, w)) (\<lambda>((b, w), r).
               let s = s\<lparr>es_bridge := b\<rparr> in
               try_stream r (Return (s, w)) (\<lambda>item.
               Continue (s\<lparr>es_state := BS_NextItem (Some item)\<rparr>, w))))
     | BS_NextItem v \<Rightarrow>
         (case v of
            None \<Rightarrow> Continue (s\<lparr>es_state := BS_Init\<rparr>, w)
          | Some item \<Rightarrow> Return (s\<lparr>es_state := BS_NextItem None\<rparr>, w) (Ok (Ready (Some item)))))"

definition event_stream_poll ::
    "price_oracle \<Rightarrow> app \<Rightarrow> bridge_event_stream \<times> world \<Rightarrow>
     ((bridge_event_stream \<times> world) \<times> bridge_checked option poll) option" where
  "event_stream_poll orc app = poll_loop (event_stream_body orc app)"

section \<open>Specification\<close>

text \<open>The checkpoints of one relay among all that have been reported.\<close>

fun of_relay :: "relay_id \<Rightarrow> bridge_checked \<Rightarrow> bool" where
  "of_relay k (DepositRelay n) \<longleftrightarrow> k = R_Deposit"
| "of_relay k (WithdrawRelay n) \<longleftrightarrow> k = R_WithdrawRelay"
| "of_relay k (WithdrawConfirm n) \<longleftrightarrow> k = R_WithdrawConfirm"

fun checked_block :: "bridge_checked \<Rightarrow> u64" where
  "checked_block (DepositRelay n) = n"
| "checked_block (WithdrawRelay n) = n"
| "checked_block (WithdrawConfirm n) = n"

abbreviation events_of :: "relay_id \<Rightarrow> bridge_checked list \<Rightarrow> bridge_checked list" where
  "events_of k \<equiv> filter (of_relay k)"

text \<open>Each relay meets its own specification for its own checkpoints.\<close>

definition relays_inv ::
    "app \<Rightarrow> database \<Rightarrow> u64 \<Rightarrow> u64 \<Rightarrow> bridge_checked list \<Rightarrow> relays \<times> world \<Rightarrow> bool" where
  "relays_inv app init home_id foreign_id evs = (\<lambda>(s, w).
     dr_inv app init foreign_id (events_of R_Deposit evs) (rl_deposit s, w) \<and>
     wr_inv app init home_id (events_of R_WithdrawRelay evs) (rl_withdraw_relay s, w) \<and>
     wc_inv app init foreign_id (events_of R_WithdrawConfirm evs) (rl_withdraw_confirm s, w))"

definition relays_post ::
    "app \<Rightarrow> database \<Rightarrow> u64 \<Rightarrow> u64 \<Rightarrow> bridge_checked list \<Rightarrow> world \<Rightarrow> relays \<times> world \<Rightarrow> bridge_checked option poll \<Rightarrow> bool" where
  "relays_post app init home_id foreign_id evs w t r \<longleftrightarrow>
     cells (snd t) = cells w \<and> relay_post (relays_inv app init home_id foreign_id) evs w t r"

section \<open>Lemmas\<close>

lemma relay_inv_of_relay:
  "relay_inv streamed handled checked ph obs \<Longrightarrow> (\<And>n. of_relay k (checked n)) \<Longrightarrow> e \<in> set obs \<Longrightarrow> of_relay k e"
  by (auto simp: relay_inv_def)

lemma relays_inv_extends:
  "relays_inv app init h f evs (s, w) \<Longrightarrow> world_extends w v \<Longrightarrow> relays_inv app init h f evs (s, v)"
  unfolding relays_inv_def by (auto intro: dr_inv_extends wr_inv_extends wc_inv_extends)

lemma relays_inv_bookkeeping [simp]:
  "relays_inv app init h f evs (s\<lparr>rl_ended := x\<rparr>, w) = relays_inv app init h f evs (s, w)"
  "relays_inv app init h f evs (s\<lparr>rl_turns := y\<rparr>, w) = relays_inv app init h f evs (s, w)"
  by (simp_all add: relays_inv_def)

text \<open>A checkpoint a relay reports is one of its own, and concerns no other relay.\<close>

lemma dr_inv_own: "dr_inv app init f (obs @ [n]) t \<Longrightarrow> of_relay k n \<longleftrightarrow> k = R_Deposit"
  unfolding dr_inv_def by (cases n) (auto simp: Let_def split: prod.splits dest: relay_inv_of_relay [of _ _ _ _ _ R_Deposit n])

lemma wr_inv_own: "wr_inv app init h (obs @ [n]) t \<Longrightarrow> of_relay k n \<longleftrightarrow> k = R_WithdrawRelay"
  unfolding wr_inv_def by (cases n) (auto simp: Let_def split: prod.splits dest: relay_inv_of_relay [of _ _ _ _ _ R_WithdrawRelay n])

lemma wc_inv_own: "wc_inv app init f (obs @ [n]) t \<Longrightarrow> of_relay k n \<longleftrightarrow> k = R_WithdrawConfirm"
  unfolding wc_inv_def by (cases n) (auto simp: Let_def split: prod.splits dest: relay_inv_of_relay [of _ _ _ _ _ R_WithdrawConfirm n])

lemma relay_poll_keeps:
  assumes "relay_poll app k (s, w) = Some (t, r)" and inv: "relays_inv app init h f evs (s, w)"
  shows "relays_post app init h f evs w t r"
proof (cases k)
  case R_Deposit
  then obtain x v q where p: "poll_loop (deposit_relay_body app) (rl_deposit s, w) = Some ((x, v), q)"
      and t: "t = (s\<lparr>rl_deposit := x\<rparr>, v)" and r: "r = map_err (contextualize ''deposit_relay'') q"
    using assms(1) by (auto simp: deposit_relay_poll_def split: option.splits)
  have "relay_post (dr_inv app init f) (events_of R_Deposit evs) w (x, v) q"
    using deposits.poll_keeps [OF p] inv by (simp add: relays_inv_def)
  then show ?thesis
    using deposits.poll_cells [OF p] inv r
    by (auto simp: t relays_post_def relay_post_def relays_inv_def dr_inv_own
        intro: wr_inv_extends wc_inv_extends)
next
  case R_WithdrawRelay
  then obtain x v q where p: "poll_loop (withdraw_relay_body app) (rl_withdraw_relay s, w) = Some ((x, v), q)"
      and t: "t = (s\<lparr>rl_withdraw_relay := x\<rparr>, v)" and r: "r = map_err (contextualize ''withdraw_relay'') q"
    using assms(1) by (auto simp: withdraw_relay_poll_def split: option.splits)
  have "relay_post (wr_inv app init h) (events_of R_WithdrawRelay evs) w (x, v) q"
    using withdraws.poll_keeps [OF p] inv by (simp add: relays_inv_def)
  then show ?thesis
    using withdraws.poll_cells [OF p] inv r
    by (auto simp: t relays_post_def relay_post_def relays_inv_def wr_inv_own
        intro: dr_inv_extends wc_inv_extends)
next
  case R_WithdrawConfirm
  then obtain x v q where p: "poll_loop (withdraw_confirm_body app) (rl_withdraw_confirm s, w) = Some ((x, v), q)"
      and t: "t = (s\<lparr>rl_withdraw_confirm := x\<rparr>, v)" and r: "r = map_err (contextualize ''withdraw_confirm'') q"
    using assms(1) by (auto simp: withdraw_confirm_poll_def split: option.splits)
  have "relay_post (wc_inv app init f) (events_of R_WithdrawConfirm evs) w (x, v) q"
    using confirms.poll_keeps [OF p] inv by (simp add: relays_inv_def)
  then show ?thesis
    using confirms.poll_cells [OF p] inv r
    by (auto simp: t relays_post_def relay_post_def relays_inv_def wc_inv_own
        intro: dr_inv_extends wr_inv_extends)
qed

lemma relays_post_base:
  "relays_post app init h f evs v t r \<Longrightarrow> world_extends w v \<Longrightarrow> cells v = cells w \<Longrightarrow> relays_post app init h f evs w t r"
  unfolding relays_post_def by (auto intro: relay_post_base)

lemma select_poll_keeps:
  "select_poll app ks (s, w) = Some (t, r) \<Longrightarrow> relays_inv app init h f evs (s, w) \<Longrightarrow>
   relays_post app init h f evs w t r"
proof (induction ks arbitrary: s w)
  case Nil
  then show ?case
    by (auto simp: relays_post_def relay_post_def split: if_splits)
next
  case (Cons k ks)
  show ?case
  proof (cases "k \<in> set (rl_ended s)")
    case True
    then show ?thesis using Cons by simp
  next
    case False
    then obtain s' v q where p: "relay_poll app k (s, w) = Some ((s', v), q)"
      using Cons.prems(1) by (auto split: option.splits)
    note post = relay_poll_keeps [OF p Cons.prems(2)]
    show ?thesis
    proof (cases "q = Ok NotReady \<or> q = Ok (Ready None)")
      case True
      then have inv: "relays_inv app init h f evs (s', v)" and w: "world_extends w v" "cells v = cells w"
        using post by (auto simp: relays_post_def relay_post_def)
      from True Cons.prems(1) False p obtain s'' where "select_poll app ks (s'', v) = Some (t, r)"
          and "relays_inv app init h f evs (s'', v)"
        using inv by auto
      then have "relays_post app init h f evs v t r"
        by (rule Cons.IH)
      then show ?thesis
        using w by (rule relays_post_base)
    next
      case other: False
      then have "t = (s', v)" "r = q"
        using Cons.prems(1) False p by (auto split: result.splits async.splits option.splits)
      then show ?thesis using post by simp
    qed
  qed
qed

lemma relays_poll_keeps:
  "relays_poll app (s, w) = Some (t, r) \<Longrightarrow> relays_inv app init h f evs (s, w) \<Longrightarrow>
   relays_post app init h f evs w t r"
  unfolding relays_poll_def Let_def by (auto intro: select_poll_keeps)

text \<open>Balances: each known balance is an answer of the node to a request for the validator's account.\<close>

definition option_list :: "'a option \<Rightarrow> 'a list" where
  "option_list x = (case x of None \<Rightarrow> [] | Some v \<Rightarrow> [v])"

definition balances_inv :: "app \<Rightarrow> bridge_event_stream \<times> world \<Rightarrow> bool" where
  "balances_inv app = (\<lambda>(s, w).
     bc_inv (app_home app) (cfg_home (app_config app)) (w_home w) (option_list (w_home_balance w))
       (es_home_balance_check s, w_home w) \<and>
     bc_inv (app_foreign app) (cfg_foreign (app_config app)) (w_foreign w) (option_list (w_foreign_balance w))
       (es_foreign_balance_check s, w_foreign w))"

lemma bc_inv_mono: "bc_inv tr node c0 vs t \<Longrightarrow> set us \<subseteq> set vs \<Longrightarrow> bc_inv tr node c0 us t"
  by (auto simp: bc_inv_def)

lemma bc_inv_later:
  "bc_inv tr node c0 vs (s, c) \<Longrightarrow> chain_extends c d \<Longrightarrow> bc_inv tr node d vs (s, d)"
  by (blast intro: bc_inv_extends bc_inv_rebase)

lemma balances_inv_extends:
  assumes "balances_inv app (s, w)" and "world_extends w v" and "cells v = cells w"
    and "es_home_balance_check s' = es_home_balance_check s"
    and "es_foreign_balance_check s' = es_foreign_balance_check s"
  shows "balances_inv app (s', v)"
  using assms by (auto simp: balances_inv_def world_extends_def cells_def intro: bc_inv_later)

text \<open>One poll of a balance check and what becomes of the cell.\<close>

lemma balance_step:
  assumes "balance_check_poll tr (b, c) = Some ((b', d), r)"
    and "bc_inv tr node c (option_list bal) (b, c)"
  shows "chain_extends c d" and "bc_inv tr node d (option_list bal) (b', d)"
    and "r = Ok (Ready (Some v)) \<Longrightarrow> bc_inv tr node d (option_list (option_or (Some v) bal)) (b', d)"
    and "r \<noteq> Ok (Ready None)"
proof -
  have post: "bc_post tr node c (option_list bal) (b', d) r"
    using assms by (rule balance_check_post)
  then show "chain_extends c d" and "r \<noteq> Ok (Ready None)"
    by (auto simp: bc_post_def bc_inv_def)
  show "bc_inv tr node d (option_list bal) (b', d)"
    using post by (auto simp: bc_post_def intro: bc_inv_rebase)
  show "bc_inv tr node d (option_list (option_or (Some v) bal)) (b', d)" if "r = Ok (Ready (Some v))"
  proof -
    have "bc_inv tr node c (option_list bal @ [v]) (b', d)"
      using post that by (simp add: bc_post_def)
    then have "bc_inv tr node c [v] (b', d)"
      by (rule bc_inv_mono) simp
    then show ?thesis
      by (auto simp: option_or_def option_list_def intro: bc_inv_rebase)
  qed
qed

text \<open>
  The invariant of the event stream: the relays meet their specifications for the checkpoints reported
  so far and the one about to be; the balances are answers; and outside the initial state both are known.
\<close>

definition es_pending :: "bridge_status \<Rightarrow> bridge_checked list" where
  "es_pending st = (case st of BS_NextItem v \<Rightarrow> option_list v | _ \<Rightarrow> [])"

definition es_inv ::
    "app \<Rightarrow> database \<Rightarrow> u64 \<Rightarrow> u64 \<Rightarrow> bridge_checked list \<Rightarrow> bridge_event_stream \<times> world \<Rightarrow> bool" where
  "es_inv app init h f evs = (\<lambda>(s, w).
     relays_inv app init h f (evs @ es_pending (es_state s)) (es_bridge s, w) \<and> balances_inv app (s, w) \<and>
     (es_state s \<noteq> BS_Init \<longrightarrow> w_home_balance w \<noteq> None \<and> w_foreign_balance w \<noteq> None))"

text \<open>What \<open>try_bridge!(check.poll()).or(*balance)\<close> leaves in the cell is still an answer.\<close>

lemma balance_cell_step:
  assumes "balance_check_poll tr (b, c) = Some ((b', d), r)"
    and "bc_inv tr node c (option_list bal) (b, c)"
  shows "(\<exists>e. r = Err e) \<or> (\<exists>m. r = Panic m) \<or>
    (\<exists>x. r = (case x of None \<Rightarrow> Ok NotReady | Some v \<Rightarrow> Ok (Ready (Some v))) \<and>
         bc_inv tr node d (option_list (option_or x bal)) (b', d))"
proof (cases r)
  case (Ok a)
  show ?thesis
  proof (cases a)
    case NotReady
    then show ?thesis
      using Ok balance_step(2) [OF assms] by (auto simp: option_or_def intro!: exI [of _ None])
  next
    case (Ready x)
    then obtain v where "x = Some v"
      using Ok balance_step(4) [OF assms] by (cases x) auto
    then show ?thesis
      using Ok Ready balance_step(3) [OF assms] by (auto intro!: exI [of _ "Some v"])
  qed
qed auto

lemma try_bridge_option [simp]:
  "try_bridge (case x of None \<Rightarrow> Ok NotReady | Some v \<Rightarrow> Ok (Ready (Some v))) ret k = k x"
  by (cases x) simp_all

text \<open>A poll of both balances stops after the first of them or runs both.\<close>

lemma check_balances_outcome:
  assumes "check_balances app (s, w) = Some ((s', v), r)"
    and home: "balance_check_poll (app_home app) (es_home_balance_check s, w_home w) = Some ((b, c), q)"
      "bc_inv (app_home app) h (w_home w) (option_list (w_home_balance w)) (es_home_balance_check s, w_home w)"
    and foreign: "balance_check_poll (app_foreign app) (es_foreign_balance_check s, w_foreign w) = Some ((b', c'), q')"
      "bc_inv (app_foreign app) f (w_foreign w) (option_list (w_foreign_balance w)) (es_foreign_balance_check s, w_foreign w)"
  obtains (failed) "s' = s\<lparr>es_home_balance_check := b\<rparr>" "v = w\<lparr>w_home := c\<rparr>" "\<forall>x. r \<noteq> Ok (Ready x)"
    | (polled) x y where "s' = s\<lparr>es_home_balance_check := b, es_foreign_balance_check := b'\<rparr>"
        "v = w\<lparr>w_home := c, w_home_balance := x, w_foreign := c', w_foreign_balance := y\<rparr>"
        "bc_inv (app_home app) h c (option_list x) (b, c)" "bc_inv (app_foreign app) f c' (option_list y) (b', c')"
        "\<forall>z. r = Ok (Ready z) \<longrightarrow> x \<noteq> None \<and> y \<noteq> None"
proof -
  note ends = balance_cell_step [OF home] balance_cell_step [OF foreign]
  consider (home_fails) "(\<exists>e. q = Err e) \<or> (\<exists>m. q = Panic m)"
    | (home_polled) x where "q = (case x of None \<Rightarrow> Ok NotReady | Some v \<Rightarrow> Ok (Ready (Some v)))"
        "bc_inv (app_home app) h c (option_list (option_or x (w_home_balance w))) (b, c)"
    using ends(1) by blast
  then show thesis
  proof cases
    case home_fails
    then show thesis
      using assms(1) home(1) by (intro failed) (auto simp: check_balances_def Let_def)
  next
    case x: home_polled
    let ?x = "option_or x (w_home_balance w)"
    consider (foreign_fails) "(\<exists>e. q' = Err e) \<or> (\<exists>m. q' = Panic m)"
      | (foreign_polled) y where "q' = (case y of None \<Rightarrow> Ok NotReady | Some v \<Rightarrow> Ok (Ready (Some v)))"
          "bc_inv (app_foreign app) f c' (option_list (option_or y (w_foreign_balance w))) (b', c')"
      using ends(2) by blast
    then show thesis
    proof cases
      case foreign_fails
      then show thesis
        using assms(1) home(1) foreign(1) x balance_step(2) [OF foreign]
        by (intro polled [where x = ?x and y = "w_foreign_balance w"]) (auto simp: check_balances_def Let_def)
    next
      case (foreign_polled y)
      then show thesis
        using assms(1) home(1) foreign(1) x
        by (intro polled [where x = ?x and y = "option_or y (w_foreign_balance w)"])
          (auto simp: check_balances_def Let_def split: if_splits)
    qed
  qed
qed

lemma check_balances_keeps:
  assumes "check_balances app (s, w) = Some ((s', v), r)" and "balances_inv app (s, w)"
  shows "world_extends w v" and "balances_inv app (s', v)" and "es_bridge s' = es_bridge s"
    and "es_state s' = es_state s"
    and "r = Ok (Ready x) \<Longrightarrow> w_home_balance v \<noteq> None \<and> w_foreign_balance v \<noteq> None"
proof -
  let ?h = "cfg_home (app_config app)" and ?f = "cfg_foreign (app_config app)"
  have inv: "bc_inv (app_home app) ?h (w_home w) (option_list (w_home_balance w)) (es_home_balance_check s, w_home w)"
      "bc_inv (app_foreign app) ?f (w_foreign w) (option_list (w_foreign_balance w)) (es_foreign_balance_check s, w_foreign w)"
    using assms(2) by (simp_all add: balances_inv_def)
  obtain b c q where p: "balance_check_poll (app_home app) (es_home_balance_check s, w_home w) = Some ((b, c), q)"
    using assms(1) by (auto simp: check_balances_def split: option.splits)
  obtain b' c' q' where p': "balance_check_poll (app_foreign app) (es_foreign_balance_check s, w_foreign w) = Some ((b', c'), q')"
    using balance_check_poll_not_None [of "app_foreign app"] by (metis not_None_eq surj_pair)
  note steps = balance_step(1,2) [OF p inv(1)] balance_step(1) [OF p' inv(2)]
  from assms(1) p inv(1) p' inv(2)
  show "world_extends w v" and "balances_inv app (s', v)" and "es_bridge s' = es_bridge s"
    and "es_state s' = es_state s"
    and "r = Ok (Ready x) \<Longrightarrow> w_home_balance v \<noteq> None \<and> w_foreign_balance v \<noteq> None"
    using steps inv(2) by (cases rule: check_balances_outcome; force simp: world_extends_def balances_inv_def)+
qed

lemma check_balances_result:
  assumes "check_balances app (s, w) = Some ((s', v), r)"
  shows "r = Ok NotReady \<Longrightarrow> w_home_balance v = None \<and> w_home_balance w = None \<or>
      w_foreign_balance v = None \<and> w_foreign_balance w = None"
    and "w_running v = w_running w"
  using assms
  by (auto simp: check_balances_def Let_def option_or_def split: try_bridge_split_asm option.splits if_splits)

lemma balance_check_not_Panic:
  "balance_check_poll tr (b, c) = Some (t, Panic m) \<Longrightarrow> bc_inv tr node c0 vs (b, c) \<Longrightarrow> False"
  using balance_check_post by (fastforce simp: bc_post_def)

lemma check_balances_not_Panic:
  assumes "check_balances app (s, w) = Some (t, r)" and "balances_inv app (s, w)"
  shows "r \<noteq> Panic m"
  using assms balance_check_not_Panic
  by (fastforce simp: check_balances_def balances_inv_def Let_def split: try_bridge_split_asm option.splits if_splits)

lemma check_balances_not_None [simp]: "check_balances app t \<noteq> None"
  by (auto simp: check_balances_def Let_def split: try_bridge_split prod.splits option.splits)

text \<open>Gas prices: only the streams of the oracle and the two price cells change.\<close>

lemma get_gas_prices_keeps:
  assumes "get_gas_prices orc (s, w) = Some ((s', v), r)"
  shows "es_bridge s' = es_bridge s" and "es_state s' = es_state s"
    and "es_home_balance_check s' = es_home_balance_check s"
    and "es_foreign_balance_check s' = es_foreign_balance_check s"
    and "w_home v = w_home w" and "w_foreign v = w_foreign w"
    and "w_home_balance v = w_home_balance w" and "w_foreign_balance v = w_foreign_balance w"
  using assms
  by (auto simp: get_gas_prices_def Let_def split: try_bridge_split_asm option.splits)

lemma get_gas_prices_not_None [simp]: "get_gas_prices orc t \<noteq> None"
  by (auto simp: get_gas_prices_def Let_def split: try_bridge_split prod.splits option.splits)

section \<open>The contract of the event stream\<close>

lemma gas_prices_inv:
  assumes "get_gas_prices orc (s, w) = Some ((s', v), r)" and "relays_inv app init h f evs (es_bridge s, w)"
    and "balances_inv app (s, w)"
  shows "relays_inv app init h f evs (es_bridge s', v)" and "balances_inv app (s', v)"
proof -
  note g = get_gas_prices_keeps [OF assms(1)]
  show "relays_inv app init h f evs (es_bridge s', v)"
    using relays_inv_extends [OF assms(2), of v] g by (simp add: world_extends_def)
  show "balances_inv app (s', v)"
    using assms(3) g by (simp add: balances_inv_def)
qed

lemma es_wait_step:
  assumes inv: "es_inv app init h f evs (s, w)" and st: "es_state s = BS_Wait"
    and g: "get_gas_prices orc (s, w) = Some ((s', v), q)"
    and p: "relays_poll app (es_bridge s', v) = Some ((b, u), r)"
  shows "world_extends w u" and "es_state s' = BS_Wait"
    and "r = Ok NotReady \<or> r = Ok (Ready None) \<Longrightarrow> es_inv app init h f evs (s'\<lparr>es_bridge := b\<rparr>, u)"
    and "r = Ok (Ready (Some n)) \<Longrightarrow>
      es_inv app init h f evs (s'\<lparr>es_bridge := b, es_state := BS_NextItem (Some n)\<rparr>, u)"
proof -
  have R: "relays_inv app init h f evs (es_bridge s, w)" and B: "balances_inv app (s, w)"
    using inv st by (simp_all add: es_inv_def es_pending_def)
  note k = get_gas_prices_keeps [OF g] and i = gas_prices_inv [OF g R B]
  have post: "relays_post app init h f evs v (b, u) r"
    using relays_poll_keeps [OF p i(1)] .
  have ext: "world_extends v u" and cells: "cells u = cells v"
    using post by (auto simp: relays_post_def relay_post_def)
  show "world_extends w u" and "es_state s' = BS_Wait"
    using ext k st by (simp_all add: world_extends_def)
  have known: "w_home_balance u \<noteq> None" "w_foreign_balance u \<noteq> None"
    using cells inv st k by (auto simp: cells_def es_inv_def)
  have bal: "balances_inv app (x, u)" if "es_home_balance_check x = es_home_balance_check s'"
      "es_foreign_balance_check x = es_foreign_balance_check s'" for x
    using balances_inv_extends [OF i(2) ext cells that] .
  show "es_inv app init h f evs (s'\<lparr>es_bridge := b\<rparr>, u)" if "r = Ok NotReady \<or> r = Ok (Ready None)"
    using that post known bal [of "s'\<lparr>es_bridge := b\<rparr>"] st k
    by (auto simp: es_inv_def es_pending_def relays_post_def relay_post_def)
  show "es_inv app init h f evs (s'\<lparr>es_bridge := b, es_state := BS_NextItem (Some n)\<rparr>, u)"
    if "r = Ok (Ready (Some n))"
    using that post known bal [of "s'\<lparr>es_bridge := b, es_state := BS_NextItem (Some n)\<rparr>"]
    by (auto simp: es_inv_def es_pending_def option_list_def relays_post_def relay_post_def)
qed

lemma es_init_step:
  assumes inv: "es_inv app init h f evs (s, w)" and st: "es_state s = BS_Init"
    and p: "check_balances app (s, w) = Some ((s', v), r)"
  shows "world_extends w v" and "es_state s' = BS_Init" and "es_inv app init h f evs (s', v)"
    and "r = Ok (Ready x) \<Longrightarrow> es_inv app init h f evs (s'\<lparr>es_state := BS_Wait\<rparr>, v)"
proof -
  have R: "relays_inv app init h f evs (es_bridge s, w)" and B: "balances_inv app (s, w)"
    using inv st by (simp_all add: es_inv_def es_pending_def)
  note k = check_balances_keeps [OF p B]
  show "world_extends w v" and "es_state s' = BS_Init"
    using k st by simp_all
  show "es_inv app init h f evs (s', v)"
    using st k(2-4) relays_inv_extends [OF R k(1)] by (simp add: es_inv_def es_pending_def)
  show "es_inv app init h f evs (s'\<lparr>es_state := BS_Wait\<rparr>, v)" if "r = Ok (Ready x)"
    using k(2-3) k(5) [OF that] relays_inv_extends [OF R k(1)]
    by (simp add: es_inv_def es_pending_def balances_inv_def)
qed

text \<open>
  The contract of the loop of the event stream. When a poll returns no checkpoint waits to be handed out.
\<close>

definition es_settled :: "bridge_event_stream \<times> world \<Rightarrow> bool" where
  "es_settled = (\<lambda>(s, w). \<forall>n. es_state s \<noteq> BS_NextItem (Some n))"

definition es_post ::
    "app \<Rightarrow> database \<Rightarrow> u64 \<Rightarrow> u64 \<Rightarrow> bridge_checked list \<Rightarrow> world \<Rightarrow> bridge_event_stream \<times> world \<Rightarrow>
     bridge_checked option poll \<Rightarrow> bool" where
  "es_post app init h f evs w0 t r \<longleftrightarrow>
     world_extends w0 (snd t) \<and> es_settled t \<and>
     (\<forall>n. r = Ok (Ready (Some n)) \<longrightarrow> es_inv app init h f (evs @ [n]) t) \<and>
     (r = Ok NotReady \<or> r = Ok (Ready None) \<longrightarrow> es_inv app init h f evs t)"

lemma es_continue:
  assumes inv: "es_inv app init h f evs (s, w)" and step: "event_stream_body orc app (s, w) = Continue t"
  shows "es_inv app init h f evs t \<and> world_extends w (snd t)"
proof (cases "es_state s")
  case BS_Init
  then obtain s' v x where p: "check_balances app (s, w) = Some ((s', v), Ok (Ready x))"
      and t: "t = (s'\<lparr>es_state := BS_Wait\<rparr>, v)"
    using step by (auto simp: event_stream_body_def inner_def split: option.splits result.splits async.splits)
  show ?thesis
    unfolding t using es_init_step(1,4) [OF inv BS_Init p] by simp
next
  case BS_Wait
  then obtain s' v q b u n where g: "get_gas_prices orc (s, w) = Some ((s', v), q)"
      and p: "relays_poll app (es_bridge s', v) = Some ((b, u), Ok (Ready (Some n)))"
      and t: "t = (s'\<lparr>es_bridge := b, es_state := BS_NextItem (Some n)\<rparr>, u)"
    using step
    by (fastforce simp: event_stream_body_def inner_def Let_def elim!: try_stream.elims
        split: option.splits result.splits if_splits)
  show ?thesis
    unfolding t using es_wait_step(1,4) [OF inv BS_Wait g p] by simp
next
  case (BS_NextItem v)
  then show ?thesis
    using inv step by (auto simp: event_stream_body_def es_inv_def es_pending_def option_list_def
        balances_inv_def split: option.splits)
qed

text \<open>How the stream leaves its waiting state.\<close>

lemma es_wait_return:
  assumes step: "event_stream_body orc app (s, w) = Return t r" and st: "es_state s = BS_Wait"
  obtains (stopped) e where "t = (s, w)" and "r = Err e"
    | (gas) s' v m where "get_gas_prices orc (s, w) = Some ((s', v), Panic m)" and "t = (s', v)" and "r = Panic m"
    | (polled) s' v q b u where "get_gas_prices orc (s, w) = Some ((s', v), q)"
        and "relays_poll app (es_bridge s', v) = Some ((b, u), r)"
        and "t = (s'\<lparr>es_bridge := b\<rparr>, u)" and "\<forall>n. r \<noteq> Ok (Ready (Some n))"
proof (cases "w_running w")
  case False
  then show thesis
    using step st stopped by (auto simp: event_stream_body_def)
next
  case True
  obtain s' v q where g: "get_gas_prices orc (s, w) = Some ((s', v), q)"
    using get_gas_prices_not_None [of orc "(s, w)"] by (metis not_None_eq surj_pair)
  show thesis
  proof (cases "\<exists>m. q = Panic m")
    case True
    then show thesis
      using step st \<open>w_running w\<close> g gas by (auto simp: event_stream_body_def)
  next
    case False
    then have body: "event_stream_body orc app (s, w) =
        inner (relays_poll app (es_bridge s', v)) (\<lambda>((b, w), r).
          let s = s'\<lparr>es_bridge := b\<rparr> in
          try_stream r (Return (s, w)) (\<lambda>item. Continue (s\<lparr>es_state := BS_NextItem (Some item)\<rparr>, w)))"
      using st True g by (cases q) (simp_all add: event_stream_body_def)
    then obtain b u p where p: "relays_poll app (es_bridge s', v) = Some ((b, u), p)"
      using step by (auto simp: inner_def split: option.splits)
    have "t = (s'\<lparr>es_bridge := b\<rparr>, u) \<and> r = p \<and> (\<forall>n. r \<noteq> Ok (Ready (Some n)))"
      using step body p by (auto simp: Let_def elim!: try_stream.elims)
    then show thesis
      using polled [OF g] p by blast
  qed
qed

lemma es_return:
  assumes inv: "es_inv app init h f evs (s, w)" and step: "event_stream_body orc app (s, w) = Return t r"
  shows "es_post app init h f evs w t r"
proof (cases "es_state s")
  case BS_Init
  then obtain s' v q where p: "check_balances app (s, w) = Some ((s', v), q)"
    using step by (auto simp: event_stream_body_def inner_def split: option.splits)
  then have "t = (s', v)" "\<forall>x. r \<noteq> Ok (Ready x)"
    using step BS_Init by (auto simp: event_stream_body_def split: result.splits async.splits)
  then show ?thesis
    using es_init_step(1-3) [OF inv BS_Init p] by (simp add: es_post_def es_settled_def)
next
  case BS_Wait
  from step this show ?thesis
  proof (cases rule: es_wait_return)
    case (stopped e)
    then show ?thesis
      using BS_Wait by (simp add: es_post_def es_settled_def)
  next
    case (gas s' v m)
    then show ?thesis
      using BS_Wait get_gas_prices_keeps [OF gas(1)] by (simp add: es_post_def es_settled_def world_extends_def)
  next
    case (polled s' v q b u)
    then show ?thesis
      using es_wait_step(1-3) [OF inv BS_Wait polled(1,2)] by (simp add: es_post_def es_settled_def)
  qed
next
  case (BS_NextItem v)
  then show ?thesis
    using inv step by (auto simp: event_stream_body_def es_post_def es_settled_def es_inv_def es_pending_def
        option_list_def balances_inv_def split: option.splits)
qed

interpretation event_loop: poll_body "event_stream_body orc app"
    "\<lambda>(s, w). es_inv app init h f evs (s, w) \<and> world_extends w0 w" "es_post app init h f evs w0"
  for orc app init h f evs w0
proof (unfold_locales, goal_cases)
  case (1 s t)
  then show ?case
    using es_continue by (cases s; cases t) (fastforce intro: world_extends_trans)
next
  case (2 s t r)
  then obtain x v where "s = (x, v)" "es_post app init h f evs v t r" "world_extends w0 v"
    by (cases s) (auto dest: es_return)
  then show ?case
    by (auto simp: es_post_def intro: world_extends_trans)
qed

lemma event_stream_post:
  "event_stream_poll orc app (s, w) = Some (t, r) \<Longrightarrow> es_inv app init h f evs (s, w) \<Longrightarrow> es_post app init h f evs w t r"
  unfolding event_stream_poll_def by (rule event_loop.poll_post) auto

text \<open>Between two polls only the signal handler writes a cell of the bridge: the shutdown flag.\<close>

definition flag_rely :: "'s \<times> world \<Rightarrow> 's \<times> world \<Rightarrow> bool" where
  "flag_rely = (\<lambda>(s, w) (s', w'). s' = s \<and> (\<exists>b. w' = w\<lparr>w_running := b\<rparr>))"

lemma es_inv_flag: "es_inv app init h f evs (s, w\<lparr>w_running := b\<rparr>) = es_inv app init h f evs (s, w)"
proof -
  have "world_extends w (w\<lparr>w_running := b\<rparr>)" and "world_extends (w\<lparr>w_running := b\<rparr>) w"
    by (simp_all add: world_extends_def)
  then have "relays_inv app init h f xs (x, w\<lparr>w_running := b\<rparr>) = relays_inv app init h f xs (x, w)" for xs x
    by (blast intro: relays_inv_extends)
  then show ?thesis
    by (simp add: es_inv_def balances_inv_def)
qed

interpretation events: stream_inv "event_stream_poll orc app" flag_rely
    "\<lambda>evs t. es_inv app init h f evs t \<and> es_settled t" for orc app init h f
proof (unfold_locales, goal_cases)
  case (1 xs s t x)
  then have "es_post app init h f xs (snd s) t (Ok (Ready (Some x)))"
    using event_stream_post [of orc app "fst s" "snd s"] by simp
  then show ?case
    by (simp add: es_post_def)
next
  case (2 xs s t)
  then have "es_post app init h f xs (snd s) t (Ok NotReady)"
    using event_stream_post [of orc app "fst s" "snd s"] by simp
  then show ?case
    by (simp add: es_post_def)
next
  case (3 xs s t)
  then show ?case
    by (auto simp: flag_rely_def es_inv_flag es_settled_def)
qed

lemma es_inv_start:
  assumes "create_bridge_event_stream orc turns app init h f w = Ok (s, v)"
  shows "es_inv app init h f [] (s, v) \<and> es_settled (s, v)"
  using assms
  by (auto simp: create_bridge_event_stream_def Let_def es_inv_def es_settled_def es_pending_def relays_inv_def
      dr_inv_start wr_inv_start wc_inv_start balances_inv_def option_list_def bc_inv_start)

section \<open>Termination\<close>

lemma relay_poll_returns:
  assumes "settles K (SendRawTransaction (app_home app))" and "settles L (SendRawTransaction (app_foreign app))"
  shows "relay_poll app k t \<noteq> None"
proof -
  obtain s w where t: "t = (s, w)" by fastforce
  show ?thesis
    using deposit_relay_returns [OF assms(2), of "(rl_deposit s, w)"]
      withdraw_relay_returns [OF assms(1), of "(rl_withdraw_relay s, w)"]
      withdraw_confirm_returns [OF assms(2), of "(rl_withdraw_confirm s, w)"]
    by (cases k) (auto simp: t deposit_relay_poll_def withdraw_relay_poll_def withdraw_confirm_poll_def)
qed

lemma select_poll_returns:
  assumes "\<And>k t. relay_poll app k t \<noteq> None"
  shows "select_poll app ks (s, w) \<noteq> None"
proof (induction ks arbitrary: s w)
  case (Cons k ks)
  then show ?case
    using assms [of k "(s, w)"] by (auto split: option.splits result.splits async.splits)
qed simp

fun es_rank :: "bridge_status \<Rightarrow> nat" where
  "es_rank (BS_NextItem None) = 3"
| "es_rank BS_Init = 2"
| "es_rank BS_Wait = 1"
| "es_rank (BS_NextItem (Some n)) = 0"

lemma event_stream_returns:
  assumes "settles K (SendRawTransaction (app_home app))" and "settles L (SendRawTransaction (app_foreign app))"
  shows "\<exists>t r. poll_loop (event_stream_body orc app) s = Some (t, r)"
proof -
  have sel: "relays_poll app t \<noteq> None" for t
    using select_poll_returns [OF relay_poll_returns [OF assms]]
    by (cases t) (simp add: relays_poll_def Let_def)
  have "poll_ranked (event_stream_body orc app) (\<lambda>_. True) (\<lambda>(s, w). es_rank (es_state s))"
  proof
    show "event_stream_body orc app u \<noteq> Diverge" for u
      by (auto simp: sel event_stream_body_def Let_def inner_def elim!: try_stream.elims
          split: bridge_status.splits option.splits result.splits async.splits if_splits prod.splits)
    show "event_stream_body orc app u = Continue v \<Longrightarrow>
        True \<and> (case v of (s, w) \<Rightarrow> es_rank (es_state s)) < (case u of (s, w) \<Rightarrow> es_rank (es_state s))" for u v
      by (auto simp: event_stream_body_def Let_def inner_def elim!: try_stream.elims
          split: bridge_status.splits option.splits result.splits async.splits if_splits prod.splits)
  qed
  then show ?thesis
    by (rule poll_ranked.poll_returns) simp
qed

text \<open>A poll after the flag has been cleared.\<close>

lemma es_shutdown_wait:
  "es_state t = BS_Wait \<Longrightarrow> \<not> w_running v \<Longrightarrow>
   event_stream_poll orc app (t, v) = Some ((t, v), Err (from_kind ShutdownRequested))"
  by (simp add: event_stream_poll_def poll_loop_Return event_stream_body_def)

lemma es_shutdown_init:
  assumes st: "es_state t = BS_Init" and B: "balances_inv app (t, v)" and off: "\<not> w_running v"
  shows "\<exists>t' v' r. event_stream_poll orc app (t, v) = Some ((t', v'), r) \<and> es_bridge t' = es_bridge t \<and>
    (r = Err (from_kind ShutdownRequested) \<or>
     (\<exists>e. r = Err e \<and> check_balances app (t, v) = Some ((t', v'), Err e)) \<or>
     r = Ok NotReady \<and> (w_home_balance v' = None \<and> w_home_balance v = None \<or>
       w_foreign_balance v' = None \<and> w_foreign_balance v = None))"
proof -
  obtain t' u q where p: "check_balances app (t, v) = Some ((t', u), q)"
    using check_balances_not_None [of app "(t, v)"] by (metis not_None_eq surj_pair)
  note k = check_balances_keeps(3) [OF p B] check_balances_result [OF p] check_balances_not_Panic [OF p B]
  consider (ready) y where "q = Ok (Ready y)" | (idle) "q = Ok NotReady" | (err) e where "q = Err e"
    using k(4) by (cases q) (auto elim: async.exhaust)
  then show ?thesis
  proof cases
    case ready
    then have "event_stream_poll orc app (t, v) = event_stream_poll orc app (t'\<lparr>es_state := BS_Wait\<rparr>, u)"
      using st p by (simp add: event_stream_poll_def poll_loop_Continue event_stream_body_def)
    then show ?thesis
      using es_shutdown_wait [of "t'\<lparr>es_state := BS_Wait\<rparr>" u] k(1,3) off by simp
  qed (use st p k in \<open>simp_all add: event_stream_poll_def poll_loop_Return event_stream_body_def\<close>)
qed

lemma es_shutdown:
  assumes "es_inv app init home_id foreign_id evs (t, v)" and "es_settled (t, v)" and off: "\<not> w_running v"
  shows "\<exists>t' v' r. event_stream_poll orc app (t, v) = Some ((t', v'), r) \<and> es_bridge t' = es_bridge t \<and>
    (r = Err (from_kind ShutdownRequested) \<or>
     (\<exists>e. r = Err e \<and> check_balances app (t\<lparr>es_state := BS_Init\<rparr>, v) = Some ((t', v'), Err e)) \<or>
     r = Ok NotReady \<and> (w_home_balance v' = None \<and> w_home_balance v = None \<or>
       w_foreign_balance v' = None \<and> w_foreign_balance v = None))"
proof (cases "es_state t = BS_Wait")
  case True
  then show ?thesis using es_shutdown_wait off by simp
next
  case False
  let ?t = "t\<lparr>es_state := BS_Init\<rparr>"
  have "event_stream_poll orc app (t, v) = event_stream_poll orc app (?t, v)"
  proof (cases "es_state t")
    case BS_Init
    then have "?t = t" by simp
    then show ?thesis by simp
  next
    case (BS_NextItem y)
    then show ?thesis
      using assms(2) by (cases y) (simp_all add: es_settled_def event_stream_poll_def poll_loop_Continue event_stream_body_def)
  qed (use False in simp)
  moreover have "balances_inv app (?t, v)"
    using assms(1) by (simp add: es_inv_def balances_inv_def)
  ultimately show ?thesis
    using es_shutdown_init [of ?t app v orc] off by simp
qed


section \<open>Properties\<close>

text \<open>
  C19. The gate of the event stream: in every reachable state other than the initial one, in particular
  whenever the relays are polled, the balances on both chains are known, and each is one that the
  node answered for the account of the validator.
\<close>

theorem event_stream_gate:
  assumes "create_bridge_event_stream orc turns app init home_id foreign_id w = Ok (s, w0)"
    and "stream_run (event_stream_poll orc app) flag_rely (s, w0) evs (t, v)"
    and "es_state t \<noteq> BS_Init"
  shows "\<exists>x y. w_home_balance v = Some x \<and> w_foreign_balance v = Some y \<and>
    balance_answered (app_home app) (cfg_home (app_config app)) (w_home v) x \<and>
    balance_answered (app_foreign app) (cfg_foreign (app_config app)) (w_foreign v) y"
  using events.run_inv [OF assms(2) es_inv_start [OF assms(1)]] assms(3)
  by (auto simp: es_inv_def balances_inv_def bc_inv_def option_list_def)

text \<open>
  Shutdown: once the flag is cleared, the next poll returns and does not touch the relays. It ends with \<open>ShutdownRequested\<close>, or with the error
  of a balance check, unless a balance is still unknown.
\<close>

lemma event_stream_shutdown:
  assumes "create_bridge_event_stream orc turns app init home_id foreign_id w = Ok (s, w0)"
    and "stream_run (event_stream_poll orc app) flag_rely (s, w0) evs (t, v)"
    and "\<not> w_running v"
  shows "\<exists>t' v' r. event_stream_poll orc app (t, v) = Some ((t', v'), r) \<and> es_bridge t' = es_bridge t \<and>
    (r = Err (from_kind ShutdownRequested) \<or>
     (\<exists>e. r = Err e \<and> check_balances app (t\<lparr>es_state := BS_Init\<rparr>, v) = Some ((t', v'), Err e)) \<or>
     r = Ok NotReady \<and> (w_home_balance v' = None \<and> w_home_balance v = None \<or>
       w_foreign_balance v' = None \<and> w_foreign_balance v = None))"
  using events.run_inv [OF assms(2) es_inv_start [OF assms(1)]] assms(3) by (blast intro: es_shutdown)

text \<open>
  Every poll of the event stream returns, when each node stops answering sends with stale-nonce
  errors at some point.
\<close>

lemma event_stream_poll_returns:
  assumes "settles K (SendRawTransaction (app_home app))" and "settles L (SendRawTransaction (app_foreign app))"
  shows "\<exists>t r. event_stream_poll orc app s = Some (t, r)"
  unfolding event_stream_poll_def using assms by (rule event_stream_returns)

end
