(* ===== verification/Bridge.thy ===== *)
theory Bridge
  imports EventStream
begin

text \<open>
  \<^verbatim>\<open>bridge/src/bridge/mod.rs\<close>: the bridge, which records every checkpoint the event stream reports in the
  database and in its file.
\<close>

section \<open>The bridge\<close>

text \<open>
  What happens to the database file: opening it for writing may fail, a write may fail after some
  characters, or both succeed. The outcomes of the successive writes are a parameter.
\<close>

datatype io_outcome = IO_Fine | IO_OpenFails io_error | IO_WriteFails io_error nat

record bridge =
  br_database :: database
  br_event_stream :: bridge_event_stream
  br_file :: "string option"
  br_io :: "io_outcome list"

fun database_update :: "database \<Rightarrow> bridge_checked \<Rightarrow> database" where
  "database_update db (DepositRelay n) = db\<lparr>checked_deposit_relay := n\<rparr>"
| "database_update db (WithdrawRelay n) = db\<lparr>checked_withdraw_relay := n\<rparr>"
| "database_update db (WithdrawConfirm n) = db\<lparr>checked_withdraw_confirm := n\<rparr>"

definition create_bridge ::
    "price_oracle \<Rightarrow> relay_id list list \<Rightarrow> io_outcome list \<Rightarrow> string option \<Rightarrow> app \<Rightarrow> database \<Rightarrow> u64 \<Rightarrow> u64 \<Rightarrow> world \<Rightarrow>
     (bridge \<times> world) result" where
  "create_bridge orc turns io file app init home_chain_id foreign_chain_id w =
     and_then (create_bridge_event_stream orc turns app init home_chain_id foreign_chain_id w) (\<lambda>(es, w).
     Ok (\<lparr> br_database = init, br_event_stream = es, br_file = file, br_io = io \<rparr>, w))"

text \<open>\<open>OpenOptions::new().write(true).create(true).open(path)?\<close> and \<open>database.save(file)?\<close>.\<close>

definition save_database ::
    "(database \<Rightarrow> string) \<Rightarrow> io_outcome \<Rightarrow> database \<Rightarrow> string option \<Rightarrow> unit result \<times> string option" where
  "save_database to_toml outcome db file =
     (let old = unwrap_or file [] in
      case outcome of
        IO_OpenFails e \<Rightarrow> (Err (from_kind (Io e)), file)
      | IO_WriteFails e n \<Rightarrow> map_prod (\<lambda>r. r) Some (database_save to_toml (Some (e, n)) db old)
      | IO_Fine \<Rightarrow> map_prod (\<lambda>r. r) Some (database_save to_toml None db old))"

definition bridge_poll ::
    "(database \<Rightarrow> string) \<Rightarrow> price_oracle \<Rightarrow> app \<Rightarrow> bridge \<times> world \<Rightarrow> ((bridge \<times> world) \<times> unit option poll) option" where
  "bridge_poll to_toml orc app = (\<lambda>(b, w).
     case event_stream_poll orc app (br_event_stream b, w) of
       None \<Rightarrow> None
     | Some ((es, w), r) \<Rightarrow>
         let b = b\<lparr>br_event_stream := es\<rparr> in
         try_stream r (\<lambda>ret. Some ((b, w), ret)) (\<lambda>check.
         let db = database_update (br_database b) check;
             outcome = (case br_io b of [] \<Rightarrow> IO_Fine | i # _ \<Rightarrow> i) in
         case save_database to_toml outcome db (br_file b) of
           (saved, file) \<Rightarrow>
             let b = b\<lparr>br_database := db, br_file := file, br_io := drop 1 (br_io b)\<rparr> in
             case saved of
               Ok _ \<Rightarrow> Some ((b, w), Ok (Ready (Some ())))
             | Err e \<Rightarrow> Some ((b, w), Err e)
             | Panic m \<Rightarrow> Some ((b, w), Panic m)))"

section \<open>Specification\<close>

text \<open>
  What the bridge promises, in terms of one checkpoint per relay. The checkpoints are three fields of
  the database; the bridge may move one of them forward, over a range of blocks that starts right after
  it, once every log of the range has been handled.
\<close>

fun checkpoint :: "database \<Rightarrow> relay_id \<Rightarrow> u64" where
  "checkpoint db R_Deposit = checked_deposit_relay db"
| "checkpoint db R_WithdrawRelay = checked_withdraw_relay db"
| "checkpoint db R_WithdrawConfirm = checked_withdraw_confirm db"

fun relay_handles :: "app \<Rightarrow> database \<Rightarrow> u64 \<Rightarrow> u64 \<Rightarrow> world \<Rightarrow> relay_id \<Rightarrow> log_stream_item \<Rightarrow> bool" where
  "relay_handles app init home_id foreign_id v R_Deposit it \<longleftrightarrow>
     item_ok (app_home app) (deposits_filter (app_contracts app) (home_contract_address init))
       (n_required_confirmations (cfg_home (app_config app))) (w_home v) it \<and>
     (\<forall>lg\<in>set (it_logs it). deposit_handled app (foreign_contract_address init) foreign_id (w_foreign v) lg)"
| "relay_handles app init home_id foreign_id v R_WithdrawRelay it \<longleftrightarrow>
     item_ok (app_foreign app) (collected_signatures_filter (app_contracts app) [foreign_contract_address init])
       (n_required_confirmations (cfg_foreign (app_config app))) (w_foreign v) it \<and>
     (\<forall>lg\<in>set (it_logs it).
        withdraw_handled app (foreign_contract_address init) (home_contract_address init) home_id v lg)"
| "relay_handles app init home_id foreign_id v R_WithdrawConfirm it \<longleftrightarrow>
     item_ok (app_foreign app) (withdraws_filter (app_contracts app) (foreign_contract_address init))
       (n_required_confirmations (cfg_foreign (app_config app))) (w_foreign v) it \<and>
     (\<forall>lg\<in>set (it_logs it). confirm_handled app (foreign_contract_address init) foreign_id (w_foreign v) lg)"

definition advances ::
    "app \<Rightarrow> database \<Rightarrow> u64 \<Rightarrow> u64 \<Rightarrow> world \<Rightarrow> (relay_id \<Rightarrow> u64) \<Rightarrow> (relay_id \<Rightarrow> u64) \<Rightarrow> bool" where
  "advances app init home_id foreign_id v cp cp' \<longleftrightarrow>
     (\<exists>k it. it_from it = cp k + 1 \<and> cp k < it_to it \<and> cp' = cp(k := it_to it) \<and>
        relay_handles app init home_id foreign_id v k it)"

definition same_contracts :: "database \<Rightarrow> database \<Rightarrow> bool" where
  "same_contracts db db' \<longleftrightarrow>
     home_contract_address db' = home_contract_address db \<and>
     foreign_contract_address db' = foreign_contract_address db \<and>
     home_deploy db' = home_deploy db \<and> foreign_deploy db' = foreign_deploy db"

definition database_le :: "database \<Rightarrow> database \<Rightarrow> bool" where
  "database_le db db' \<longleftrightarrow> same_contracts db db' \<and> (\<forall>k. checkpoint db k \<le> checkpoint db' k)"

section \<open>Lemmas\<close>

lemma same_contracts_refl [simp]: "same_contracts db db"
  by (simp add: same_contracts_def)

lemma same_contracts_update [simp]: "same_contracts db (database_update db' e) = same_contracts db db'"
  by (cases e) (simp_all add: same_contracts_def)

lemma same_contracts_updates [simp]: "same_contracts db (foldl database_update db' evs) = same_contracts db db'"
  by (induction evs arbitrary: db') simp_all

lemma checkpoint_update: "of_relay k e \<Longrightarrow> checkpoint (database_update db e) = (checkpoint db)(k := checked_block e)"
  by (rule ext, rename_tac j, case_tac j; cases e) simp_all

lemma checkpoint_updates:
  "checkpoint (foldl database_update db evs) k =
     (if events_of k evs = [] then checkpoint db k else checked_block (last (events_of k evs)))"
proof (induction evs rule: rev_induct)
  case (snoc e evs)
  then show ?case
    by (cases e; cases k) simp_all
qed simp

text \<open>The relays together, by relay.\<close>

lemma relays_inv_checkpoints:
  assumes "relays_inv app init h f evs (s, v)"
  obtains its b where "map it_to its = map checked_block (events_of k evs)" and "tiles (checkpoint init k) its b"
    and "\<forall>it\<in>set its. relay_handles app init h f v k it"
proof -
  have "\<exists>its b. map it_to its = map checked_block (events_of k evs) \<and> tiles (checkpoint init k) its b \<and>
      (\<forall>it\<in>set its. relay_handles app init h f v k it)"
  proof (cases k)
    case R_Deposit
    then have "dr_inv app init f (events_of k evs) (rl_deposit s, v)"
      using assms by (simp add: relays_inv_def)
    from dr_inv_checkpoints [OF this] R_Deposit show ?thesis
      by (fastforce simp: comp_def)
  next
    case R_WithdrawRelay
    then have "wr_inv app init h (events_of k evs) (rl_withdraw_relay s, v)"
      using assms by (simp add: relays_inv_def)
    from wr_inv_checkpoints [OF this] R_WithdrawRelay show ?thesis
      by (fastforce simp: comp_def)
  next
    case R_WithdrawConfirm
    then have "wc_inv app init f (events_of k evs) (rl_withdraw_confirm s, v)"
      using assms by (simp add: relays_inv_def)
    from wc_inv_checkpoints [OF this] R_WithdrawConfirm show ?thesis
      by (fastforce simp: comp_def)
  qed
  then show thesis using that by blast
qed

lemma relays_progress:
  assumes "relays_inv app init h f (evs @ later) (s, v)"
  obtains its where "map it_to its = map checked_block (events_of k evs)"
    and "tiles (checkpoint init k) its (checkpoint (foldl database_update init evs) k)"
    and "\<forall>it\<in>set its. relay_handles app init h f v k it"
proof -
  obtain xs b where xs: "map it_to xs = map checked_block (events_of k (evs @ later))"
      "tiles (checkpoint init k) xs b" "\<forall>it\<in>set xs. relay_handles app init h f v k it"
    using relays_inv_checkpoints [OF assms] .
  define its where "its = take (length (events_of k evs)) xs"
  have m: "map it_to its = map checked_block (events_of k evs)"
    using xs(1) by (simp add: its_def take_map [symmetric])
  obtain c where c: "tiles (checkpoint init k) its c"
    using xs(2) by (metis append_take_drop_id its_def tiles_append)
  have "its = [] \<longleftrightarrow> events_of k evs = []"
    using m by (metis map_is_Nil_conv)
  moreover have "its \<noteq> [] \<Longrightarrow> it_to (last its) = checked_block (last (events_of k evs))"
    using m by (metis last_map map_is_Nil_conv)
  ultimately have "c = checkpoint (foldl database_update init evs) k"
    using tiles_end [OF c] by (auto simp: checkpoint_updates)
  then show thesis
    using that m c xs(3) by (auto simp: its_def dest: in_set_takeD)
qed

text \<open>A reported checkpoint moves one relay forward over the range that comes next.\<close>

lemma relays_advance:
  assumes "relays_inv app init h f ((evs @ [e]) @ later) (s, v)"
  shows "advances app init h f v (checkpoint (foldl database_update init evs))
    (checkpoint (foldl database_update init (evs @ [e])))"
proof -
  obtain k where k: "of_relay k e"
    by (cases e) auto
  obtain xs where xs: "map it_to xs = map checked_block (events_of k (evs @ [e]))"
      "tiles (checkpoint init k) xs (checkpoint (foldl database_update init (evs @ [e])) k)"
      "\<forall>it\<in>set xs. relay_handles app init h f v k it"
    using relays_progress [OF assms] .
  then obtain its it where split: "xs = its @ [it]" "map it_to its = map checked_block (events_of k evs)"
      "it_to it = checked_block e"
    using k by (auto simp: map_eq_append_conv)
  obtain m where m: "tiles (checkpoint init k) its m" "it_from it = m + 1" "m < it_to it"
    using xs(2) split(1) by (auto simp: tiles_append)
  obtain ys where ys: "map it_to ys = map checked_block (events_of k evs)"
      "tiles (checkpoint init k) ys (checkpoint (foldl database_update init evs) k)"
    using relays_progress [OF assms [unfolded append_assoc]] .
  have "map it_to its = map it_to ys"
    using split(2) ys(1) by simp
  then have "m = checkpoint (foldl database_update init evs) k"
    using tiles_end [OF m(1)] tiles_end [OF ys(2)] by (metis last_map map_is_Nil_conv)
  moreover have "checkpoint (foldl database_update init (evs @ [e])) =
      (checkpoint (foldl database_update init evs))(k := it_to it)"
    using split(3) k by (simp add: checkpoint_update)
  ultimately show ?thesis
    unfolding advances_def using m(2,3) xs(3) split(1) by auto
qed

lemma advances_le: "advances app init h f v cp cp' \<Longrightarrow> cp k \<le> cp' k"
  by (auto simp: advances_def)

text \<open>
  The invariant of the bridge: the database holds the initial one with all reported checkpoints
  recorded, one for each item.
\<close>

definition bridge_inv ::
    "app \<Rightarrow> database \<Rightarrow> u64 \<Rightarrow> u64 \<Rightarrow> bridge_checked list \<Rightarrow> bridge \<times> world \<Rightarrow> bool" where
  "bridge_inv app init h f evs = (\<lambda>(b, w).
     es_inv app init h f evs (br_event_stream b, w) \<and> es_settled (br_event_stream b, w) \<and>
     br_database b = foldl database_update init evs)"

lemma bridge_inv_start:
  assumes "create_bridge orc turns io file app init h f w = Ok (b, v)"
  shows "bridge_inv app init h f [] (b, v)" and "br_file b = file" and "br_io b = io"
  using assms by (auto simp: create_bridge_def bridge_inv_def dest: es_inv_start)

text \<open>A poll hands on what the event stream returns, or records an item and saves.\<close>

lemma bridge_poll_cases:
  assumes "bridge_poll to_toml orc app (b, w) = Some ((b', v), r)" and "bridge_inv app init h f evs (b, w)"
  obtains (stutter) "br_database b' = br_database b" "br_file b' = br_file b" "br_io b' = br_io b" "\<forall>u. r \<noteq> Ok (Ready (Some u))"
      "r = Ok NotReady \<longrightarrow> bridge_inv app init h f evs (b', v)"
    | (item) e q where "bridge_inv app init h f (evs @ [e]) (b', v)"
        "br_database b' = database_update (br_database b) e" "br_io b' = drop 1 (br_io b)"
        "save_database to_toml (case br_io b of [] \<Rightarrow> IO_Fine | i # _ \<Rightarrow> i) (br_database b') (br_file b) = (q, br_file b')"
        "(q = Ok () \<and> r = Ok (Ready (Some ()))) \<or> (\<exists>x. q = Err x \<and> r = Err x) \<or> (\<exists>m. q = Panic m \<and> r = Panic m)"
proof -
  obtain es v' p where poll: "event_stream_poll orc app (br_event_stream b, w) = Some ((es, v'), p)"
    using assms(1) by (auto simp: bridge_poll_def split: option.splits)
  show thesis
  proof (cases "\<exists>e. p = Ok (Ready (Some e))")
    case True
    then obtain e where p: "p = Ok (Ready (Some e))" ..
    let ?db = "database_update (br_database b) e"
    obtain q x where save: "save_database to_toml (case br_io b of [] \<Rightarrow> IO_Fine | i # _ \<Rightarrow> i) ?db (br_file b) = (q, x)"
      by fastforce
    then have saved: "v' = v"
        "b' = b\<lparr>br_event_stream := es, br_database := ?db, br_file := x, br_io := drop 1 (br_io b)\<rparr>"
        "(q = Ok () \<and> r = Ok (Ready (Some ()))) \<or> (\<exists>x. q = Err x \<and> r = Err x) \<or> (\<exists>m. q = Panic m \<and> r = Panic m)"
      using assms(1) poll p by (cases q; simp add: bridge_poll_def)+
    have "es_inv app init h f (evs @ [e]) (es, v) \<and> es_settled (es, v)"
      using assms(2) events.inv_item [OF _ poll [unfolded p], where init = init and h = h and f = f and xs = evs] saved(1) by (simp add: bridge_inv_def)
    then show thesis
      using item [of e q] assms(2) save saved by (simp add: bridge_inv_def)
  next
    case False
    then have "v' = v" "b' = b\<lparr>br_event_stream := es\<rparr>" "\<forall>u. r \<noteq> Ok (Ready (Some u))" "r = Ok NotReady \<longleftrightarrow> p = Ok NotReady"
      using assms(1) poll by - (rule try_stream.cases [of "(p, Inl, Inr)"]; auto simp: bridge_poll_def)+
    then show thesis
      using stutter assms(2) events.inv_idle [where s = "(br_event_stream b, w)" and t = "(es, v)" and init = init and h = h and f = f and xs = evs] poll
      by (auto simp: bridge_inv_def)
  qed
qed

lemma bridge_poll_extends:
  assumes "bridge_poll to_toml orc app (b, w) = Some ((b', v), r)" and "bridge_inv app init h f evs (b, w)"
  shows "world_extends w v"
proof -
  obtain es v' p where poll: "event_stream_poll orc app (br_event_stream b, w) = Some ((es, v'), p)"
    using assms(1) by (auto simp: bridge_poll_def split: option.splits)
  then have "v' = v"
    using assms(1) by - (rule try_stream.cases [of "(p, Inl, Inr)"];
        auto simp: bridge_poll_def Let_def split: prod.splits result.splits)
  then show ?thesis
    using event_stream_post [OF poll] assms(2) by (fastforce simp: bridge_inv_def es_post_def)
qed

lemma bridge_poll_idle:
  assumes "bridge_poll to_toml orc app (b, w) = Some ((b', v), Ok NotReady)" and "bridge_inv app init h f evs (b, w)"
  shows "bridge_inv app init h f evs (b', v)" and "br_database b' = br_database b" and "br_file b' = br_file b"
  by (rule bridge_poll_cases [OF assms]; simp)+

lemma bridge_poll_item:
  assumes "bridge_poll to_toml orc app (b, w) = Some ((b', v), Ok (Ready (Some u)))"
    and "bridge_inv app init h f evs (b, w)"
  obtains e where "bridge_inv app init h f (evs @ [e]) (b', v)"
    and "br_file b' = Some (overwrite (to_toml (br_database b')) (unwrap_or (br_file b) []))"
  using assms
proof (cases rule: bridge_poll_cases)
  case (item e q)
  then have "q = Ok ()" by auto
  with item(4) have "br_file b' = Some (overwrite (to_toml (br_database b')) (unwrap_or (br_file b) []))"
    by (auto simp: save_database_def database_save_def database_to_string_def Let_def
        split: io_outcome.splits list.splits)
  with item(1) show thesis by (rule that)
qed simp

lemma bridge_inv_flag: "flag_rely (b, w) (b', v) \<Longrightarrow> bridge_inv app init h f evs (b, w) \<Longrightarrow> bridge_inv app init h f evs (b', v)"
  by (auto simp: flag_rely_def bridge_inv_def es_inv_flag es_settled_def)

interpretation bridges: stream_inv "bridge_poll to_toml orc app" flag_rely
    "\<lambda>xs t. \<exists>evs. bridge_inv app init h f (before @ evs) t"
  for to_toml orc app init h f before
proof (unfold_locales, goal_cases)
  case (1 xs s t x)
  then show ?case
    by (metis append_assoc bridge_poll_item prod.collapse)
next
  case (2 xs s t)
  then show ?case
    by (metis bridge_poll_idle(1) prod.collapse)
next
  case (3 xs s t)
  then show ?case
    by (metis bridge_inv_flag prod.collapse)
qed

lemma bridge_run_inv:
  assumes "create_bridge orc turns io file app init h f w = Ok (b0, w0)"
    and "stream_run (bridge_poll to_toml orc app) flag_rely (b0, w0) xs (b, v)"
  obtains evs where "bridge_inv app init h f evs (b, v)"
  using bridges.run_inv [OF assms(2), where before = "[]" and init = init and h = h and f = f] bridge_inv_start(1) [OF assms(1)] by auto

lemma bridge_inv_le:
  assumes "bridge_inv app init h f (evs @ later) (b, v)"
  shows "database_le (foldl database_update init evs) (br_database b)"
  unfolding database_le_def
proof (intro conjI allI)
  have R: "relays_inv app init h f ((evs @ later) @ es_pending (es_state (br_event_stream b))) (es_bridge (br_event_stream b), v)"
    and db: "br_database b = foldl database_update init (evs @ later)"
    using assms by (simp_all add: bridge_inv_def es_inv_def)
  show "same_contracts (foldl database_update init evs) (br_database b)"
    by (simp add: db)
  fix k
  obtain its where its: "map it_to its = map checked_block (events_of k (evs @ later))"
      "tiles (checkpoint init k) its (checkpoint (br_database b) k)"
    using relays_progress [OF R] unfolding db .
  obtain ys where ys: "map it_to ys = map checked_block (events_of k evs)"
      "tiles (checkpoint init k) ys (checkpoint (foldl database_update init evs) k)"
    using relays_progress [OF R [unfolded append_assoc]] .
  obtain us vs where split: "its = us @ vs" "map it_to us = map it_to ys"
    using its(1) ys(1) by (auto simp: map_eq_append_conv)
  then obtain m where m: "tiles (checkpoint init k) us m" "tiles m vs (checkpoint (br_database b) k)"
    using its(2) by (auto simp: tiles_append)
  have "m = checkpoint (foldl database_update init evs) k"
    using tiles_end [OF m(1)] tiles_end [OF ys(2)] split(2) by (metis last_map map_is_Nil_conv)
  then show "checkpoint (foldl database_update init evs) k \<le> checkpoint (br_database b) k"
    using tiles_le [OF m(2)] by simp
qed

text \<open>The file holds the printed database: texts of later databases are not shorter, so each covers the last.\<close>

definition file_inv :: "(database \<Rightarrow> string) \<Rightarrow> string option \<Rightarrow> 'a list \<Rightarrow> bridge \<Rightarrow> bool" where
  "file_inv to_toml file xs b \<longleftrightarrow> br_file b = (if xs = [] then file else Some (to_toml (br_database b)))"

lemma bridge_item_file:
  assumes len: "\<forall>d d'. database_le d d' \<longrightarrow> length (to_toml d) \<le> length (to_toml d')"
    and short: "length (unwrap_or file []) \<le> length (to_toml init)"
    and inv: "bridge_inv app init h f evs (b, w)" and "file_inv to_toml file xs b"
    and p: "bridge_poll to_toml orc app (b, w) = Some ((b', v), Ok (Ready (Some u)))"
  shows "\<exists>e. bridge_inv app init h f (evs @ [e]) (b', v)" and "file_inv to_toml file (xs @ [x]) b'"
proof -
  obtain e where e: "bridge_inv app init h f (evs @ [e]) (b', v)"
    and new: "br_file b' = Some (overwrite (to_toml (br_database b')) (unwrap_or (br_file b) []))"
    using bridge_poll_item [OF p inv] .
  then show "\<exists>e. bridge_inv app init h f (evs @ [e]) (b', v)" by blast
  have "br_database b = foldl database_update init evs"
    using inv by (simp add: bridge_inv_def)
  then have "database_le (br_database b) (br_database b')" and "database_le init (br_database b')"
    using bridge_inv_le [OF e] bridge_inv_le [of app init h f "[]" "evs @ [e]"] e by simp_all
  then have "length (to_toml (br_database b)) \<le> length (to_toml (br_database b'))"
      and "length (to_toml init) \<le> length (to_toml (br_database b'))"
    using len by blast+
  then have "length (unwrap_or (br_file b) []) \<le> length (to_toml (br_database b'))"
    using assms(4) short by (auto simp: file_inv_def split: if_splits)
  then show "file_inv to_toml file (xs @ [x]) b'"
    using new by (simp add: file_inv_def overwrite_exact)
qed

lemma bridge_run_file:
  assumes len: "\<forall>d d'. database_le d d' \<longrightarrow> length (to_toml d) \<le> length (to_toml d')"
    and short: "length (unwrap_or file []) \<le> length (to_toml init)"
    and "create_bridge orc turns io file app init h f w = Ok (b0, w0)"
    and "stream_run (bridge_poll to_toml orc app) flag_rely (b0, w0) xs (b, v)"
  shows "file_inv to_toml file xs b"
proof -
  let ?inv = "\<lambda>xs (b, v). (\<exists>evs. bridge_inv app init h f evs (b, v)) \<and> file_inv to_toml file xs b"
  have "stream_inv (bridge_poll to_toml orc app) flag_rely ?inv"
  proof (unfold_locales, goal_cases)
    case (1 xs s t x)
    obtain b w b' v where s: "s = (b, w)" "t = (b', v)" by fastforce
    with 1 obtain evs where "bridge_inv app init h f evs (b, w)" "file_inv to_toml file xs b" by auto
    from bridge_item_file [OF len short this 1(2) [unfolded s]] show ?case
      by (auto simp: s)
  next
    case (2 xs s t)
    obtain b w b' v where s: "s = (b, w)" "t = (b', v)" by fastforce
    with 2 obtain evs where inv: "bridge_inv app init h f evs (b, w)" and "file_inv to_toml file xs b" by auto
    with bridge_poll_idle [OF 2(2) [unfolded s] inv] show ?case
      by (auto simp: s file_inv_def)
  next
    case (3 xs s t)
    then show ?case
      by (cases s; cases t) (auto simp: flag_rely_def bridge_inv_def es_inv_flag es_settled_def)
  qed
  moreover have "?inv [] (b0, w0)"
    using bridge_inv_start [OF assms(3)] by (auto simp: file_inv_def)
  ultimately have "?inv xs (b, v)"
    by (rule stream_inv.run_inv [OF _ assms(4)])
  then show ?thesis by simp
qed

section \<open>Properties\<close>

text \<open>
  C1. The database of the bridge never claims more than has been done. However the nodes, the oracles
  and the file system answer, and in whatever order the relays make progress: at any time, for each
  relay, the blocks from its initial checkpoint to the one in the database are covered by consecutive
  ranges, each confirmed and with the logs the node answered, and every log in them has been handled,
  that is, the transaction it calls for has been accepted by the node of the other chain (or the
  event names another validator). The contract addresses and deployment blocks stay what they were.
\<close>

theorem bridge_checkpoints:
  assumes "create_bridge orc turns io file app init home_id foreign_id w = Ok (b0, w0)"
    and "stream_run (bridge_poll to_toml orc app) flag_rely (b0, w0) xs (b, v)"
  shows "same_contracts init (br_database b) \<and>
    (\<forall>k. \<exists>its. tiles (checkpoint init k) its (checkpoint (br_database b) k) \<and>
       (\<forall>it\<in>set its. relay_handles app init home_id foreign_id v k it))"
proof -
  obtain evs where inv: "bridge_inv app init home_id foreign_id evs (b, v)"
    using bridge_run_inv [OF assms] .
  then have R: "relays_inv app init home_id foreign_id (evs @ es_pending (es_state (br_event_stream b)))
      (es_bridge (br_event_stream b), v)" and db: "br_database b = foldl database_update init evs"
    by (simp_all add: bridge_inv_def es_inv_def)
  show ?thesis
    using relays_progress [OF R] unfolding db by (metis same_contracts_refl same_contracts_updates)
qed

text \<open>
  C2. The bridge refines the abstract machine on checkpoints: a poll of a reachable bridge that yields
  an item moves exactly one relay's checkpoint forward, to the end of the range that comes next, all of
  whose logs have been handled; a poll that is not ready changes no checkpoint; and one that fails
  changes none either, or makes one such move and fails at saving it.
\<close>

theorem bridge_poll_refines:
  assumes "create_bridge orc turns io file app init home_id foreign_id w = Ok (b0, w0)"
    and "stream_run (bridge_poll to_toml orc app) flag_rely (b0, w0) xs (b, v)"
    and "bridge_poll to_toml orc app (b, v) = Some ((b', v'), r)"
  shows "if r = Ok (Ready (Some ()))
    then advances app init home_id foreign_id v' (checkpoint (br_database b)) (checkpoint (br_database b'))
    else checkpoint (br_database b') = checkpoint (br_database b) \<or>
      (\<forall>x. r \<noteq> Ok x) \<and>
      advances app init home_id foreign_id v' (checkpoint (br_database b)) (checkpoint (br_database b'))"
proof -
  obtain evs where inv: "bridge_inv app init home_id foreign_id evs (b, v)"
    using bridge_run_inv [OF assms(1,2)] .
  from assms(3) inv show ?thesis
  proof (cases rule: bridge_poll_cases)
    case (item e q)
    then have "relays_inv app init home_id foreign_id ((evs @ [e]) @ es_pending (es_state (br_event_stream b')))
        (es_bridge (br_event_stream b'), v')"
      by (simp add: bridge_inv_def es_inv_def)
    from relays_advance [OF this] item inv show ?thesis
      by (auto simp: bridge_inv_def)
  qed auto
qed

text \<open>
  C14. No checkpoint ever goes back: between any two points of a run, each one stays or grows.
\<close>

theorem bridge_never_goes_back:
  assumes "create_bridge orc turns io file app init home_id foreign_id w = Ok (b0, w0)"
    and "stream_run (bridge_poll to_toml orc app) flag_rely (b0, w0) xs (b, v)"
    and "stream_run (bridge_poll to_toml orc app) flag_rely (b, v) ys (b', v')"
  shows "database_le (br_database b) (br_database b')"
proof -
  obtain evs where inv: "bridge_inv app init home_id foreign_id evs (b, v)"
    using bridge_run_inv [OF assms(1,2)] .
  then obtain more where "bridge_inv app init home_id foreign_id (evs @ more) (b', v')"
    using bridges.run_inv [OF assms(3), where before = evs and init = init and h = home_id and f = foreign_id]
    by (metis append_Nil2)
  from bridge_inv_le [OF this] inv show ?thesis
    by (simp add: bridge_inv_def)
qed


text \<open>
  C40. The file is opened without being truncated: when it is longer than the text of the database, a
  successful save leaves the end of the old contents after that text.
\<close>

theorem save_leaves_stale_tail:
  assumes "length (to_toml db) < length old"
  shows "\<exists>tail. tail \<noteq> [] \<and> suffix tail old \<and>
    save_database to_toml IO_Fine db (Some old) = (Ok (), Some (to_toml db @ tail))"
  using assms
  by (intro exI [of _ "drop (length (to_toml db)) old"])
    (simp add: save_database_def database_save_def database_to_string_def overwrite_def Let_def suffix_drop)


end
