(* ===== verification/Deploy.thy ===== *)
theory Deploy
  imports Relay Joins
begin

text \<open>
  \<^verbatim>\<open>bridge/src/bridge/deploy.rs\<close>: the future that finds the contracts of the bridge, by loading the
  database or, in a build with the \<open>deploy\<close> feature (\<open>feat\<close>), by deploying both contracts when there is
  no database. \<open>load\<close> stands for \<open>Database::load\<close> of the file system of the moment.
\<close>

section \<open>Definitions\<close>

datatype deployed = New database | Existing database

type_synonym creation = "(receipt nonce_check, receipt) elem"

datatype deploy_state =
  DS_CheckIfNeeded
| DS_Deploying creation creation

record deploy =
  dp_state :: deploy_state
  dp_home_chain_id :: u64
  dp_foreign_chain_id :: u64

definition create_deploy :: "u64 \<Rightarrow> u64 \<Rightarrow> deploy" where
  "create_deploy home_chain_id foreign_chain_id =
     \<lparr> dp_state = DS_CheckIfNeeded, dp_home_chain_id = home_chain_id, dp_foreign_chain_id = foreign_chain_id \<rparr>"

text \<open>
  The two creation transactions. Their inputs are fields that only a build with the feature has, so
  there are none without it.
\<close>

definition creation_transaction :: "transaction_config \<Rightarrow> bytes \<Rightarrow> transaction" where
  "creation_transaction tc data =
     \<lparr> tx_nonce = 0, tx_gas_price = u256_of (tc_gas_price tc), tx_gas = u256_of (tc_gas tc),
       tx_action = Create, tx_value = 0, tx_data = data \<rparr>"

definition deploy_transactions :: "app \<Rightarrow> (transaction \<times> transaction) option" where
  "deploy_transactions app =
     (let cfg = app_config app; au = cfg_authorities cfg; txs = cfg_txs cfg; ct = app_contracts app in
      case (n_contract_bin (cfg_home cfg), n_contract_bin (cfg_foreign cfg), au_required_signatures au,
            au_accounts au, cfg_estimated_gas_cost_of_withdraw cfg, txs_home_deploy txs, txs_foreign_deploy txs) of
        (Some home_bin, Some foreign_bin, Some required_signatures, Some accounts, Some cost, Some home_tc, Some foreign_tc) \<Rightarrow>
          (let main_data = home_constructor ct home_bin required_signatures accounts cost;
               test_data = foreign_constructor ct foreign_bin required_signatures accounts cost
           in Some (creation_transaction home_tc main_data, creation_transaction foreign_tc test_data))
      | _ \<Rightarrow> None)"

definition creation_sender :: "transport \<Rightarrow> node \<Rightarrow> receipt sender" where
  "creation_sender tr node = TransactionWithConfirmation tr (n_poll_interval node) (n_required_confirmations node)"

text \<open>One part of the join of the two creations, which acts on its own connection.\<close>

definition creation_poll ::
    "app \<Rightarrow> transport \<Rightarrow> node \<Rightarrow> creation \<Rightarrow> chain \<Rightarrow> ((creation \<times> chain) \<times> unit result) option" where
  "creation_poll app tr node el c =
     (case el of
        Elem_Done v \<Rightarrow> Some ((el, c), Ok ())
      | Elem_Pending f \<Rightarrow>
          (case nonce_check_poll app tr (creation_sender tr node) (f, c) of
             None \<Rightarrow> None
           | Some ((g, d), r) \<Rightarrow>
               (case r of
                  Ok (Ready v) \<Rightarrow> Some ((Elem_Done v, d), Ok ())
                | Ok NotReady \<Rightarrow> Some ((Elem_Pending g, d), Ok ())
                | Err e \<Rightarrow> Some ((Elem_Pending g, d), Err e)
                | Panic m \<Rightarrow> Some ((Elem_Pending g, d), Panic m))))"

definition new_database :: "receipt \<Rightarrow> receipt \<Rightarrow> database result" where
  "new_database main_receipt test_receipt =
     and_then (expect ''contract creation receipt must have an address; qed'' (rc_contract_address main_receipt)) (\<lambda>home.
     and_then (expect ''contract creation receipt must have an address; qed'' (rc_contract_address test_receipt)) (\<lambda>foreign.
     Ok \<lparr> home_contract_address = home,
          foreign_contract_address = foreign,
          home_deploy = Some (low_u64 (rc_block_number main_receipt)),
          foreign_deploy = Some (low_u64 (rc_block_number test_receipt)),
          checked_deposit_relay = low_u64 (rc_block_number main_receipt),
          checked_withdraw_relay = low_u64 (rc_block_number test_receipt),
          checked_withdraw_confirm = low_u64 (rc_block_number test_receipt) \<rparr>))"

definition deploy_body ::
    "bool \<Rightarrow> (path \<Rightarrow> database result) \<Rightarrow> app \<Rightarrow> deploy \<times> world \<Rightarrow> (deploy \<times> world, deployed poll) ctl" where
  "deploy_body feat load app = (\<lambda>(s, w).
     case dp_state s of
       DS_CheckIfNeeded \<Rightarrow>
         (case load (app_database_path app) of
            Ok database \<Rightarrow> Return (s, w) (Ok (Ready (Existing database)))
          | Panic m \<Rightarrow> Return (s, w) (Panic m)
          | Err e \<Rightarrow>
              (case (kind e, feat, deploy_transactions app) of
                 (MissingFile _, True, Some (main_tx, test_tx)) \<Rightarrow>
                   Continue (s\<lparr>dp_state := DS_Deploying
                     (Elem_Pending (send_transaction_with_nonce (cfg_home (app_config app)) main_tx (dp_home_chain_id s)))
                     (Elem_Pending (send_transaction_with_nonce (cfg_foreign (app_config app)) test_tx
                       (dp_foreign_chain_id s)))\<rparr>, w)
               | (k, _, _) \<Rightarrow> Return (s, w) (Err (from_kind k))))
     | DS_Deploying main_future test_future \<Rightarrow>
         inner (creation_poll app (app_home app) (cfg_home (app_config app)) main_future (w_home w))
           (\<lambda>((main_future, c), r).
         let w = w\<lparr>w_home := c\<rparr> in
         case r of
           Err e \<Rightarrow> Return (s\<lparr>dp_state := DS_Deploying main_future test_future\<rparr>, w) (Err e)
         | Panic m \<Rightarrow> Return (s\<lparr>dp_state := DS_Deploying main_future test_future\<rparr>, w) (Panic m)
         | Ok _ \<Rightarrow>
             inner (creation_poll app (app_foreign app) (cfg_foreign (app_config app)) test_future (w_foreign w))
               (\<lambda>((test_future, d), r).
             let w = w\<lparr>w_foreign := d\<rparr>; s = s\<lparr>dp_state := DS_Deploying main_future test_future\<rparr> in
             case r of
               Err e \<Rightarrow> Return (s, w) (Err e)
             | Panic m \<Rightarrow> Return (s, w) (Panic m)
             | Ok _ \<Rightarrow>
                 (case (elem_value main_future, elem_value test_future) of
                    (Some main_receipt, Some test_receipt) \<Rightarrow>
                      (case new_database main_receipt test_receipt of
                         Ok database \<Rightarrow> Return (s, w) (Ok (Ready (New database)))
                       | Err e \<Rightarrow> Return (s, w) (Err e)
                       | Panic m \<Rightarrow> Return (s, w) (Panic m))
                  | _ \<Rightarrow> Return (s, w) (Ok NotReady)))))"

definition deploy_poll ::
    "bool \<Rightarrow> (path \<Rightarrow> database result) \<Rightarrow> app \<Rightarrow> deploy \<times> world \<Rightarrow> ((deploy \<times> world) \<times> deployed poll) option" where
  "deploy_poll feat load app = poll_loop (deploy_body feat load app)"

section \<open>Specification\<close>

text \<open>A creation is at work on its transaction, or done with a receipt of an accepted send of it.\<close>

abbreviation creation_out :: "transport \<Rightarrow> node \<Rightarrow> rpc_call list \<Rightarrow> receipt fut" where
  "creation_out tr node \<equiv> tr_send_with_confirmation tr (n_poll_interval node) (n_required_confirmations node)"

fun creation_ok :: "app \<Rightarrow> transport \<Rightarrow> node \<Rightarrow> u64 \<Rightarrow> transaction \<Rightarrow> creation \<Rightarrow> chain \<Rightarrow> bool" where
  "creation_ok app tr node chain_id tx (Elem_Pending f) c = nc_job app (creation_out tr node) node chain_id tx (f, c)"
| "creation_ok app tr node chain_id tx (Elem_Done v) c = accepted app (creation_out tr node) node chain_id tx c"

interpretation creations: transaction_sender "creation_sender tr node" "creation_out tr node" for tr node
  unfolding creation_sender_def by (rule confirmed_sender.transaction_sender_axioms)

lemma creation_ok_extends:
  "creation_ok app tr node chain_id tx el c \<Longrightarrow> chain_extends c d \<Longrightarrow> creation_ok app tr node chain_id tx el d"
  by (cases el) (auto intro: creations.jobs.P_ext accepted_extends)

lemma creation_poll_ok:
  assumes "creation_poll app tr node el c = Some ((el', d), r)" and "creation_ok app tr node chain_id tx el c"
  shows "creation_ok app tr node chain_id tx el' d"
proof (cases el)
  case (Elem_Pending f)
  obtain g q where p: "nonce_check_poll app tr (creation_sender tr node) (f, c) = Some ((g, d), q)"
    and el': "el' = (case q of Ok (Ready v) \<Rightarrow> Elem_Done v | _ \<Rightarrow> Elem_Pending g)"
    using assms(1) Elem_Pending
    by (auto simp: creation_poll_def split: option.splits prod.splits result.splits async.splits)
  have "nc_job app (creation_out tr node) node chain_id tx (g, d)"
    using creations.jobs.P_poll [OF _ p] assms(2) Elem_Pending by simp
  moreover have "q = Ok (Ready v) \<Longrightarrow> accepted app (creation_out tr node) node chain_id tx d" for v
    using creations.jobs.Q_poll p assms(2) Elem_Pending by fastforce
  ultimately show ?thesis
    by (auto simp: el' split: result.splits async.splits)
qed (use assms in \<open>simp add: creation_poll_def\<close>)

definition dp_inv :: "app \<Rightarrow> u64 \<Rightarrow> u64 \<Rightarrow> deploy \<times> world \<Rightarrow> bool" where
  "dp_inv app home_chain_id foreign_chain_id = (\<lambda>(s, w).
     dp_home_chain_id s = home_chain_id \<and> dp_foreign_chain_id s = foreign_chain_id \<and>
     (case dp_state s of
        DS_CheckIfNeeded \<Rightarrow> True
      | DS_Deploying a b \<Rightarrow>
          (\<exists>main_tx test_tx. deploy_transactions app = Some (main_tx, test_tx) \<and>
             creation_ok app (app_home app) (cfg_home (app_config app)) home_chain_id main_tx a (w_home w) \<and>
             creation_ok app (app_foreign app) (cfg_foreign (app_config app)) foreign_chain_id test_tx b (w_foreign w))))"

definition dp_post :: "app \<Rightarrow> u64 \<Rightarrow> u64 \<Rightarrow> deploy \<times> world \<Rightarrow> deployed poll \<Rightarrow> bool" where
  "dp_post app home_chain_id foreign_chain_id t r \<longleftrightarrow>
     dp_inv app home_chain_id foreign_chain_id t \<and>
     (\<forall>db. r = Ok (Ready (New db)) \<longrightarrow>
        (\<exists>main_tx test_tx. deploy_transactions app = Some (main_tx, test_tx) \<and>
           accepted app (creation_out (app_home app) (cfg_home (app_config app)))
             (cfg_home (app_config app)) home_chain_id main_tx (w_home (snd t)) \<and>
           accepted app (creation_out (app_foreign app) (cfg_foreign (app_config app)))
             (cfg_foreign (app_config app)) foreign_chain_id test_tx (w_foreign (snd t))))"

lemma dp_inv_extends: "dp_inv app h f (s, w) \<Longrightarrow> world_extends w v \<Longrightarrow> dp_inv app h f (s, v)"
  by (auto simp: dp_inv_def world_extends_def intro: creation_ok_extends split: deploy_state.splits)

lemma dp_continue:
  assumes "dp_inv app h f (s, w)" and "deploy_body feat load app (s, w) = Continue (s', w')"
  shows "dp_inv app h f (s', w')"
proof (cases "dp_state s")
  case DS_CheckIfNeeded
  then show ?thesis
    using assms
    by (auto simp: deploy_body_def dp_inv_def nc_job_start split: result.splits error_kind.splits option.splits
        bool.splits)
next
  case (DS_Deploying a b)
  then show ?thesis
    using assms
    by (auto simp: deploy_body_def inner_def Let_def split: option.splits result.splits)
qed

lemma dp_return:
  assumes "dp_inv app h f (s, w)" and "deploy_body feat load app (s, w) = Return t r"
  shows "dp_post app h f t r"
proof (cases "dp_state s")
  case DS_CheckIfNeeded
  then show ?thesis
    using assms
    by (auto simp: deploy_body_def dp_post_def split: result.splits error_kind.splits option.splits bool.splits)
next
  case (DS_Deploying a b)
  obtain main_tx test_tx where
    txs: "deploy_transactions app = Some (main_tx, test_tx)" and
    a: "creation_ok app (app_home app) (cfg_home (app_config app)) h main_tx a (w_home w)" and
    b: "creation_ok app (app_foreign app) (cfg_foreign (app_config app)) f test_tx b (w_foreign w)"
    using assms(1) DS_Deploying by (auto simp: dp_inv_def)
  show ?thesis
    using assms DS_Deploying txs a b
    by (auto simp: deploy_body_def dp_post_def dp_inv_def inner_def Let_def dest!: creation_poll_ok
        elim!: elem_value.elims split: option.splits result.splits)
qed

interpretation deploy_loop: poll_body "deploy_body feat load app" "dp_inv app h f" "dp_post app h f"
  for feat load app h f
proof
  show "dp_inv app h f s \<Longrightarrow> deploy_body feat load app s = Continue t \<Longrightarrow> dp_inv app h f t" for s t
    by (cases s; cases t) (auto intro: dp_continue)
  show "dp_inv app h f s \<Longrightarrow> deploy_body feat load app s = Return t r \<Longrightarrow> dp_post app h f t r" for s t r
    by (cases s) (auto intro: dp_return)
qed

lemma dp_inv_run:
  assumes "future_run (deploy_poll feat load app) relay_rely (create_deploy h f, w) t"
  shows "dp_inv app h f t"
  using assms
proof (induction rule: future_run.induct)
  case created
  then show ?case by (simp add: dp_inv_def create_deploy_def)
next
  case (pending u v)
  then show ?case
    unfolding deploy_poll_def using deploy_loop.poll_post by (fastforce simp: dp_post_def)
next
  case (wait u v)
  then show ?case
    by (cases u; cases v) (auto simp: relay_rely_def intro: dp_inv_extends)
qed

section \<open>Properties\<close>

text \<open>
  C37. New contracts are reported only when both nodes have accepted the creation transactions of the
  configured contracts, whatever happened on the connections in between.
\<close>

theorem deploy_new_accepted:
  assumes "future_run (deploy_poll feat load app) relay_rely (create_deploy home_chain_id foreign_chain_id, w) u"
    and "deploy_poll feat load app u = Some ((s, v), Ok (Ready (New db)))"
  shows "\<exists>main_tx test_tx. deploy_transactions app = Some (main_tx, test_tx) \<and>
    accepted app (creation_out (app_home app) (cfg_home (app_config app)))
      (cfg_home (app_config app)) home_chain_id main_tx (w_home v) \<and>
    accepted app (creation_out (app_foreign app) (cfg_foreign (app_config app)))
      (cfg_foreign (app_config app)) foreign_chain_id test_tx (w_foreign v)"
  using deploy_loop.poll_post [OF assms(2) [unfolded deploy_poll_def] dp_inv_run [OF assms(1)]]
  by (auto simp: dp_post_def)

text \<open>
  A database that loads is used as it is, with no request to either node; a build without the
  feature never sends a creation transaction but hands on the error of loading the database, and a
  build with it does so for every error but a missing file.
\<close>

lemma deploy_loads:
  assumes "case load (app_database_path app) of
      Ok _ \<Rightarrow> True | Panic _ \<Rightarrow> False | Err e \<Rightarrow> \<not> feat \<or> (\<forall>p. kind e \<noteq> MissingFile p)"
  shows "deploy_poll feat load app (create_deploy h f, w) = Some ((create_deploy h f, w),
    case load (app_database_path app) of
      Ok db \<Rightarrow> Ok (Ready (Existing db)) | Err e \<Rightarrow> Err (from_kind (kind e)) | Panic m \<Rightarrow> Panic m)"
proof -
  have "deploy_body feat load app (create_deploy h f, w) = Return (create_deploy h f, w)
    (case load (app_database_path app) of
      Ok db \<Rightarrow> Ok (Ready (Existing db)) | Err e \<Rightarrow> Err (from_kind (kind e)) | Panic m \<Rightarrow> Panic m)"
    using assms
    by (auto simp: deploy_body_def create_deploy_def split: result.splits error_kind.splits bool.splits)
  then show ?thesis
    unfolding deploy_poll_def by (rule poll_loop_Return)
qed

text \<open>
  A new database starts its checks at the blocks the contracts were created in: those of the home
  contract for deposits, those of the foreign contract for withdraws.
\<close>

lemma deploy_new_database:
  assumes "dp_state s = DS_Deploying (Elem_Done main_receipt) (Elem_Done test_receipt)"
    and "rc_contract_address main_receipt = Some home" and "rc_contract_address test_receipt = Some foreign"
    and "unat (rc_block_number main_receipt) < 2 ^ 64" and "unat (rc_block_number test_receipt) < 2 ^ 64"
  shows "\<exists>db. deploy_poll feat load app (s, w) = Some ((s, w), Ok (Ready (New db))) \<and>
    home_contract_address db = home \<and> foreign_contract_address db = foreign \<and>
    unat (checked_deposit_relay db) = unat (rc_block_number main_receipt) \<and>
    unat (checked_withdraw_relay db) = unat (rc_block_number test_receipt) \<and>
    unat (checked_withdraw_confirm db) = unat (rc_block_number test_receipt)"
  using assms
  by (simp add: deploy_poll_def poll_loop.simps deploy_body_def creation_poll_def new_database_def Let_def
      unat_low_u64)

text \<open>
  C38. When a node answers a creation with the error that it has already imported the transaction, the
  check reports a default receipt, which has no contract address, and the deployment panics once the
  other contract is there: the \<open>expect\<close> that calls this impossible is wrong.
\<close>

theorem deploy_already_imported_panics:
  assumes "dp_state s = DS_Deploying (Elem_Pending check) (Elem_Done test_receipt)"
    and "nc_state check = NC_TransactionRequest (Inner (A_Fail (W_Rpc e)) # rs)"
    and "rpc_code e = ServerError (-32010)" and "ends_with (rpc_message e) ''already imported.''"
    and "\<not> ends_with (rpc_message e) ''incrementing the nonce.''"
  shows "\<exists>t. deploy_poll feat load app (s, w) = Some (t, Panic ''contract creation receipt must have an address; qed'')"
  using assms
  by (simp add: deploy_poll_def poll_loop.simps deploy_body_def creation_poll_def new_database_def
      nonce_check_poll_def nonce_check_body_def server_error_ends_def creation_sender_def
      TransactionWithConfirmation_def default_receipt_def from_kind_def Let_def)

end
