(* ===== verification/AppHttp.thy ===== *)
theory AppHttp
  imports App
begin

text \<open>
  \<^verbatim>\<open>bridge/src/app.rs\<close>: how the \<open>App\<close> is built: the two HTTP connections, the key store with the two
  accounts unlocked, and the timer wheel. The libraries behind it are the fields of \<open>platform\<close>.
\<close>

section \<open>Definitions\<close>

text \<open>
  What other libraries provide: connecting a transport, opening the key store, unlocking an account in
  it (the accounts unlocked before it are the argument) and signing with it, timers, hashing,
  transaction encoding, the generated contract bindings, and the choices of the executor.
\<close>

record platform =
  pf_connect :: "string \<Rightarrow> usize \<Rightarrow> web3_error + transport"
  pf_open_keystore :: "path \<Rightarrow> string + unit"
  pf_unlock :: "(address \<times> string) list \<Rightarrow> address \<Rightarrow> string \<Rightarrow> string + unit"
  pf_sign :: "(address \<times> string) list \<Rightarrow> address \<Rightarrow> h256 \<Rightarrow> string + ec_signature"
  pf_read_file :: "path \<Rightarrow> io_error + string"
  pf_timer_interval :: "duration \<Rightarrow> usize \<Rightarrow> string \<Rightarrow> duration \<Rightarrow> tick list"
  pf_contracts :: contracts
  pf_into_electrum :: "ec_signature \<Rightarrow> h520"
  pf_tx_hash :: "transaction \<Rightarrow> u64 \<Rightarrow> h256"
  pf_tx_rlp :: "transaction \<Rightarrow> ec_signature \<Rightarrow> u64 \<Rightarrow> bytes option"
  pf_keccak :: "bytes \<Rightarrow> h256"
  pf_wakeups :: "rpc_call list \<Rightarrow> nat list list"
  pf_log_info :: bool

record connections =
  co_home :: transport
  co_foreign :: transport

definition connections_new_http ::
    "platform \<Rightarrow> string \<Rightarrow> usize \<Rightarrow> string \<Rightarrow> usize \<Rightarrow> connections result" where
  "connections_new_http pf home home_concurrent_connections foreign foreign_concurrent_connections =
     (case pf_connect pf home home_concurrent_connections of
        Inl e \<Rightarrow> Err (chain_err (from_kind (Web3 e)) ''Cannot connect to home node rpc'')
      | Inr h \<Rightarrow>
          (case pf_connect pf foreign foreign_concurrent_connections of
             Inl e \<Rightarrow> Err (chain_err (from_kind (Web3 e)) ''Cannot connect to foreign node rpc'')
           | Inr f \<Rightarrow> Ok \<lparr> co_home = h, co_foreign = f \<rparr>))"

text \<open>
  \<open>usize::next_power_of_two\<close>, and the number of slots of the timer wheel, 100 ms each. Both the product
  and the power wrap around where they overflow, as in a build without overflow checks.
\<close>

definition next_power_of_two :: "usize \<Rightarrow> usize" where
  "next_power_of_two n = (if n \<le> 1 then 1 else word_of_nat (2 ^ bitlen (unat n - 1)))"

definition timer_slots :: "duration \<Rightarrow> usize" where
  "timer_slots max_timeout = next_power_of_two (max_timeout * 10)"

definition rpc_url :: "node \<Rightarrow> string" where
  "rpc_url nd = n_rpc_host nd @ '':'' @ decimal (unat (n_rpc_port nd))"

text \<open>Unlocking one account with the password in its file.\<close>

definition unlock_account ::
    "platform \<Rightarrow> (address \<times> string) list \<Rightarrow> node \<Rightarrow> (address \<times> string) list result" where
  "unlock_account pf unlocked nd =
     and_then (node_password (pf_read_file pf) nd) (\<lambda>password.
     case pf_unlock pf unlocked (n_account nd) password of
       Inl e \<Rightarrow> Err (from_kind (AccountError e))
     | Inr _ \<Rightarrow> Ok ((n_account nd, password) # unlocked))"

definition app_new_http :: "platform \<Rightarrow> config \<Rightarrow> path \<Rightarrow> app result" where
  "app_new_http pf config database_path =
     and_then (connections_new_http pf (rpc_url (cfg_home config)) (n_concurrent_http_requests (cfg_home config))
        (rpc_url (cfg_foreign config)) (n_concurrent_http_requests (cfg_foreign config))) (\<lambda>connections.
     and_then (case pf_open_keystore pf (cfg_keystore config) of
                 Inl e \<Rightarrow> Err (from_kind (KeyStore e)) | Inr _ \<Rightarrow> Ok []) (\<lambda>keystore.
     and_then (unlock_account pf keystore (cfg_home config)) (\<lambda>keystore.
     and_then (unlock_account pf keystore (cfg_foreign config)) (\<lambda>keystore.
     let max_timeout = max (n_request_timeout (cfg_home config)) (n_request_timeout (cfg_foreign config)) in
     Ok \<lparr> app_config = config,
          app_database_path = database_path,
          app_home = co_home connections,
          app_foreign = co_foreign connections,
          app_contracts = pf_contracts pf,
          app_timer_interval = pf_timer_interval pf max_timeout (timer_slots max_timeout),
          app_keystore_sign = pf_sign pf keystore,
          app_into_electrum = pf_into_electrum pf,
          app_tx_hash = pf_tx_hash pf,
          app_tx_rlp = pf_tx_rlp pf,
          app_keccak = pf_keccak pf,
          app_wakeups = pf_wakeups pf,
          app_log_info = pf_log_info pf \<rparr>))))"

section \<open>Lemmas\<close>

lemma next_power_of_two_bounds:
  assumes "unat n \<le> 2 ^ 63"
  shows "n \<le> next_power_of_two n" and "\<exists>k. unat (next_power_of_two n) = 2 ^ k"
    and "0 < n \<Longrightarrow> unat (next_power_of_two n) < 2 * unat n"
proof -
  let ?k = "bitlen (unat n - 1)"
  have "n \<le> next_power_of_two n \<and> (\<exists>k. unat (next_power_of_two n) = 2 ^ k) \<and>
      (0 < n \<longrightarrow> unat (next_power_of_two n) < 2 * unat n)"
  proof (cases "n \<le> 1")
    case True
    then show ?thesis
      by (auto simp: next_power_of_two_def word_le_nat_alt word_less_nat_alt intro!: exI [of _ 0])
  next
    case False
    then have n: "1 < unat n"
      by (simp add: word_le_nat_alt)
    then have lower: "unat n - 1 < 2 ^ ?k" and half: "2 ^ (?k - 1) \<le> unat n - 1" and "0 < ?k"
      using bitlen_bounds [of "unat n - 1"] by auto
    then have upper: "2 ^ ?k \<le> 2 * (unat n - 1)"
      by (metis Suc_diff_1 mult_le_mono2 power_Suc)
    have "2 ^ ?k < (2::nat) ^ 64"
      using upper assms n by simp
    then have "unat (next_power_of_two n) = 2 ^ ?k"
      using False by (simp add: next_power_of_two_def unat_of_nat del: of_nat_power)
    then show ?thesis
      using n upper lower by (auto simp: word_le_nat_alt)
  qed
  then show "n \<le> next_power_of_two n" and "\<exists>k. unat (next_power_of_two n) = 2 ^ k"
    and "0 < n \<Longrightarrow> unat (next_power_of_two n) < 2 * unat n"
    by blast+
qed

section \<open>Properties\<close>

text \<open>
  The timer wheel is large enough: its slots of 100 ms cover the longest request timeout and it has
  less than twice as many as needed, a power of two as the wheel requires, for any timeout below
  \<open>2\<^sup>59\<close> seconds.
\<close>

lemma timer_slots_cover:
  assumes "0 < unat max_timeout" and "unat max_timeout < 2 ^ 59"
  shows "unat max_timeout * 1000 \<le> unat (timer_slots max_timeout) * 100 \<and>
    (\<exists>k. unat (timer_slots max_timeout) = 2 ^ k) \<and>
    unat (timer_slots max_timeout) * 100 < 2 * (unat max_timeout * 1000)"
proof -
  have u: "unat (max_timeout * 10) = unat max_timeout * 10"
    using assms(2) by (subst unat_mult_lem [THEN iffD1]) simp_all
  have "unat (max_timeout * 10) \<le> 2 ^ 63"
    using assms(2) u by simp
  note b = next_power_of_two_bounds [OF this]
  have "0 < max_timeout * 10"
    using assms(1) u by (simp add: word_less_nat_alt)
  then show ?thesis
    using b u by (simp add: timer_slots_def word_le_nat_alt)
qed

end
