(* ===== verification/Cli.thy ===== *)
theory Cli
  imports Bridge Deploy AppHttp
begin

text \<open>
  \<^verbatim>\<open>cli/src/main.rs\<close>: the program. It reads its arguments and the configuration, connects, asks both
  nodes for their chain ids and for the nonces, finds the contracts, runs the bridge until it fails,
  and turns every way of ending into an exit code.
\<close>

section \<open>Exit codes\<close>

definition ERR_UNKNOWN :: int where "ERR_UNKNOWN = 1"
definition ERR_IO_ERROR :: int where "ERR_IO_ERROR = 2"
definition ERR_SHUTDOWN_REQUESTED :: int where "ERR_SHUTDOWN_REQUESTED = 3"
definition ERR_INSUFFICIENT_FUNDS :: int where "ERR_INSUFFICIENT_FUNDS = 4"
definition ERR_GAS_TOO_LOW :: int where "ERR_GAS_TOO_LOW = 5"
definition ERR_GAS_PRICE_TOO_LOW :: int where "ERR_GAS_PRICE_TOO_LOW = 6"
definition ERR_NONCE_REUSE :: int where "ERR_NONCE_REUSE = 7"
definition ERR_CANNOT_CONNECT :: int where "ERR_CANNOT_CONNECT = 10"
definition ERR_CONNECTION_LOST :: int where "ERR_CONNECTION_LOST = 11"
definition ERR_BRIDGE_CRASH :: int where "ERR_BRIDGE_CRASH = 12"
definition ERR_RPC_ERROR :: int where "ERR_RPC_ERROR = 20"

lemmas exit_codes =
  ERR_UNKNOWN_def ERR_IO_ERROR_def ERR_SHUTDOWN_REQUESTED_def ERR_INSUFFICIENT_FUNDS_def ERR_GAS_TOO_LOW_def
  ERR_GAS_PRICE_TOO_LOW_def ERR_NONCE_REUSE_def ERR_CANNOT_CONNECT_def ERR_CONNECTION_LOST_def
  ERR_BRIDGE_CRASH_def ERR_RPC_ERROR_def

datatype user_facing_error = UserFacingError (ufe_code: int) (ufe_error: error)

text \<open>The conversions \<open>From<Error>\<close>, \<open>From<String>\<close> and \<open>From<io::Error>\<close>.\<close>

definition ufe_from_error :: "error \<Rightarrow> user_facing_error" where
  "ufe_from_error e = UserFacingError ERR_UNKNOWN e"

definition ufe_from_string :: "string \<Rightarrow> user_facing_error" where
  "ufe_from_string s = UserFacingError ERR_UNKNOWN (from_kind (Msg s))"

definition ufe_from_io :: "io_error \<Rightarrow> user_facing_error" where
  "ufe_from_io e = UserFacingError ERR_IO_ERROR (from_kind (Io e))"

text \<open>The loop over the result of the bridge: contexts are taken off one by one.\<close>

definition rpc_exit :: "rpc_error \<Rightarrow> user_facing_error" where
  "rpc_exit e =
     (let err = from_kind (Web3 (W_Rpc e)) in
      if rpc_code e = ServerError (- 32010) \<and> starts_with (rpc_message e) ''Insufficient funds''
      then UserFacingError ERR_INSUFFICIENT_FUNDS err
      else if rpc_code e = ServerError (- 32010) \<and> starts_with (rpc_message e) ''Transaction gas is too low''
      then UserFacingError ERR_GAS_TOO_LOW err
      else if rpc_code e = ServerError (- 32010) \<and> starts_with (rpc_message e) ''Transaction gas price is too low''
      then UserFacingError ERR_GAS_PRICE_TOO_LOW err
      else if rpc_code e = ServerError (- 32010) \<and>
        starts_with (rpc_message e) ''Transaction gas price is too low. There is another''
      then UserFacingError ERR_NONCE_REUSE err
      else if rpc_code e = ServerError (- 32010) \<and> starts_with (rpc_message e) ''Transaction nonce is too low''
      then UserFacingError ERR_NONCE_REUSE err
      else UserFacingError ERR_RPC_ERROR err)"

fun bridge_exit :: "error \<Rightarrow> user_facing_error" where
  "bridge_exit (Error (ContextualizedError e context) _) = bridge_exit e"
| "bridge_exit (Error (Web3 (W_Io e)) _) =
     (if io_kind e = BrokenPipe then UserFacingError ERR_CONNECTION_LOST (from_kind (Io e))
      else UserFacingError ERR_IO_ERROR (from_kind (Io e)))"
| "bridge_exit (Error ShutdownRequested c) = UserFacingError ERR_SHUTDOWN_REQUESTED (Error ShutdownRequested c)"
| "bridge_exit (Error InsufficientFunds c) = UserFacingError ERR_INSUFFICIENT_FUNDS (Error InsufficientFunds c)"
| "bridge_exit (Error (Web3 (W_Rpc e)) _) = rpc_exit e"
| "bridge_exit e = UserFacingError ERR_BRIDGE_CRASH e"

section \<open>The event loop\<close>

text \<open>
  \<open>Core::run\<close> polls a future until it is ready. While the loop waits, the handler of Ctrl-C may run,
  which clears the flag: \<open>signal\<close> says when it does.
\<close>

definition wait_event :: "(world \<Rightarrow> bool) \<Rightarrow> 's \<times> world \<Rightarrow> 's \<times> world" where
  "wait_event signal = (\<lambda>(s, w). (s, w\<lparr>w_running := w_running w \<and> \<not> signal w\<rparr>))"

partial_function (option) core_run ::
    "(world \<Rightarrow> bool) \<Rightarrow> ('s \<times> world \<Rightarrow> (('s \<times> world) \<times> 'a poll) option) \<Rightarrow> 's \<times> world \<Rightarrow>
     (('s \<times> world) \<times> 'a result) option" where
  "core_run signal poll t =
     (case poll t of
        None \<Rightarrow> None
      | Some (u, r) \<Rightarrow>
          (case r of
             Ok NotReady \<Rightarrow> core_run signal poll (wait_event signal u)
           | Ok (Ready v) \<Rightarrow> Some (u, Ok v)
           | Err e \<Rightarrow> Some (u, Err e)
           | Panic m \<Rightarrow> Some (u, Panic m)))"

text \<open>\<open>event_loop.run(stream.and_then(|_| future::ok(true)).collect())\<close>; \<open>acc\<close> is what has been collected.\<close>

partial_function (option) core_run_collect ::
    "(world \<Rightarrow> bool) \<Rightarrow> ('s \<times> world \<Rightarrow> (('s \<times> world) \<times> 'a option poll) option) \<Rightarrow> bool list \<Rightarrow> 's \<times> world \<Rightarrow>
     (('s \<times> world) \<times> bool list result) option" where
  "core_run_collect signal poll acc t =
     (case poll t of
        None \<Rightarrow> None
      | Some (u, r) \<Rightarrow>
          (case r of
             Ok NotReady \<Rightarrow> core_run_collect signal poll acc (wait_event signal u)
           | Ok (Ready None) \<Rightarrow> Some (u, Ok acc)
           | Ok (Ready (Some x)) \<Rightarrow> core_run_collect signal poll (acc @ [True]) u
           | Err e \<Rightarrow> Some (u, Err e)
           | Panic m \<Rightarrow> Some (u, Panic m)))"

declare core_run.simps [code] core_run_collect.simps [code]

text \<open>A future that uses one connection only.\<close>

definition on_home ::
    "('s \<times> chain \<Rightarrow> (('s \<times> chain) \<times> 'a poll) option) \<Rightarrow> 's \<times> world \<Rightarrow> (('s \<times> world) \<times> 'a poll) option" where
  "on_home poll = (\<lambda>(s, w).
     case poll (s, w_home w) of None \<Rightarrow> None | Some ((s, c), r) \<Rightarrow> Some ((s, w\<lparr>w_home := c\<rparr>), r))"

definition on_foreign ::
    "('s \<times> chain \<Rightarrow> (('s \<times> chain) \<times> 'a poll) option) \<Rightarrow> 's \<times> world \<Rightarrow> (('s \<times> world) \<times> 'a poll) option" where
  "on_foreign poll = (\<lambda>(s, w).
     case poll (s, w_foreign w) of None \<Rightarrow> None | Some ((s, c), r) \<Rightarrow> Some ((s, w\<lparr>w_foreign := c\<rparr>), r))"

text \<open>A request of the client as a future of its own.\<close>

definition request_poll :: "'a fut \<times> chain \<Rightarrow> (('a fut \<times> chain) \<times> 'a poll) option" where
  "request_poll = (\<lambda>(f, c). case poll_fut f of (r, g) \<Rightarrow> Some ((g, c), r))"

section \<open>The program\<close>

record args =
  arg_config :: path
  arg_database :: path
  flag_version :: bool
  flag_allow_insecure_rpc_endpoints :: bool

text \<open>
  The rest of the program's environment: the argument parser, the version string, TOML, the event
  loop, the file the database argument names (its contents, and the faults its opening, reading,
  creation and writing may meet), and the oracle, order and signal parameters of the running bridge.
\<close>

record environment =
  en_platform :: platform
  en_parse_args :: "string list \<Rightarrow> string + args"
  en_version :: string
  en_deploy_feature :: bool
  en_read_bin :: "path \<Rightarrow> bytes result"
  en_config_toml :: "string \<Rightarrow> string + load_config"
  en_open_config :: "path \<Rightarrow> io_error + (io_error + string)"
  en_core_fault :: "io_error option"
  en_from_toml :: "string \<Rightarrow> string + database"
  en_to_toml :: "database \<Rightarrow> string"
  en_show_path :: "path \<Rightarrow> string"
  en_database_file :: "string option"
  en_open_fault :: "io_error option"
  en_read_fault :: "io_error option"
  en_create_fault :: "io_error option"
  en_first_write_fault :: "(io_error \<times> nat) option"
  en_writes :: "io_outcome list"
  en_oracle :: price_oracle
  en_turns :: "relay_id list list"
  en_signal :: "world \<Rightarrow> bool"

text \<open>How \<open>execute\<close> ends: the text to print, an error for the user, or a panic.\<close>

datatype outcome = Finished string | Failed user_facing_error | Panicked string

text \<open>
  A part of \<open>execute\<close> acts on the contents of the database file and the shared state. It gives a value
  to go on with or ends the program with an outcome; or it never ends (\<open>None\<close>).
\<close>

type_synonym prog_state = "string option \<times> world"
type_synonym 'a prog = "prog_state \<Rightarrow> (prog_state \<times> (outcome + 'a)) option"

definition bind_prog :: "'a prog \<Rightarrow> ('a \<Rightarrow> 'b prog) \<Rightarrow> 'b prog" where
  "bind_prog p f st =
     (case p st of
        None \<Rightarrow> None
      | Some (st', Inl z) \<Rightarrow> Some (st', Inl z)
      | Some (st', Inr x) \<Rightarrow> f x st')"

definition give :: "'a \<Rightarrow> 'a prog" where
  "give x st = Some (st, Inr x)"

definition stop :: "outcome \<Rightarrow> 'a prog" where
  "stop z st = Some (st, Inl z)"

definition act :: "(world \<Rightarrow> 'a \<times> world) \<Rightarrow> 'a prog" where
  "act g = (\<lambda>(file, w). case g w of (x, w) \<Rightarrow> Some ((file, w), Inr x))"

text \<open>The operator \<open>?\<close> with its conversion of the error, and \<open>expect\<close>.\<close>

definition attempt :: "(error \<Rightarrow> user_facing_error) \<Rightarrow> 'a result \<Rightarrow> 'a prog" where
  "attempt conv r = (case r of Ok x \<Rightarrow> give x | Err e \<Rightarrow> stop (Failed (conv e)) | Panic m \<Rightarrow> stop (Panicked m))"

definition must :: "string \<Rightarrow> 'a result \<Rightarrow> 'a prog" where
  "must m r = (case r of Ok x \<Rightarrow> give x | Err e \<Rightarrow> stop (Panicked m) | Panic m' \<Rightarrow> stop (Panicked m'))"

text \<open>\<open>event_loop.run(future)\<close>.\<close>

definition run_future ::
    "environment \<Rightarrow> ('s \<times> world \<Rightarrow> (('s \<times> world) \<times> 'a poll) option) \<Rightarrow> 's \<Rightarrow> 'a result prog" where
  "run_future en poll s = (\<lambda>(file, w).
     case core_run (en_signal en) poll (s, w) of
       None \<Rightarrow> None
     | Some ((_, w), r) \<Rightarrow> Some ((file, w), Inr r))"

text \<open>Arguments, configuration, event loop and connections.\<close>

definition cli_connect :: "environment \<Rightarrow> string list \<Rightarrow> app prog" where
  "cli_connect en command =
     (case en_parse_args en command of
        Inl e \<Rightarrow> stop (Failed (ufe_from_string e))
      | Inr args \<Rightarrow>
          if flag_version args then stop (Finished (en_version en))
          else
          bind_prog (attempt ufe_from_error
            (config_load (en_deploy_feature en) (en_read_bin en) (en_config_toml en) (en_open_config en) (arg_config args)
               (flag_allow_insecure_rpc_endpoints args))) (\<lambda>config.
          case en_core_fault en of
            Some e \<Rightarrow> stop (Panicked ''called `Result::unwrap()` on an `Err` value'')
          | None \<Rightarrow>
              attempt (UserFacingError ERR_CANNOT_CONNECT)
                (app_new_http (en_platform en) config (arg_database args))))"

definition retrieve_chain_ids :: "environment \<Rightarrow> app \<Rightarrow> (u64 \<times> u64) prog" where
  "retrieve_chain_ids en app =
     bind_prog (run_future en (on_home (chain_id_retrieval_poll (app_home app)))
       (create_chain_id_retrieval (cfg_home (app_config app)))) (\<lambda>r.
     bind_prog (must ''can't retrieve home chain_id'' r) (\<lambda>home_chain_id.
     bind_prog (run_future en (on_foreign (chain_id_retrieval_poll (app_foreign app)))
       (create_chain_id_retrieval (cfg_foreign (app_config app)))) (\<lambda>r.
     bind_prog (must ''can't retrieve foreign chain_id'' r) (\<lambda>foreign_chain_id.
     give (home_chain_id, foreign_chain_id)))))"

definition initialize_nonces :: "environment \<Rightarrow> app \<Rightarrow> unit prog" where
  "initialize_nonces en app =
     bind_prog (act (\<lambda>w.
       case eth_get_transaction_count (app_home app) (n_account (cfg_home (app_config app))) None (w_home w) of
         (f, c) \<Rightarrow> (f, w\<lparr>w_home := c\<rparr>))) (\<lambda>f.
     bind_prog (run_future en (on_home request_poll) f) (\<lambda>r.
     bind_prog (must ''can't initialize home nonce'' r) (\<lambda>nonce.
     bind_prog (act (\<lambda>w. ((), w\<lparr>w_home := (w_home w)\<lparr>ch_nonce := nonce\<rparr>\<rparr>))) (\<lambda>_.
     bind_prog (act (\<lambda>w.
       case eth_get_transaction_count (app_foreign app) (n_account (cfg_foreign (app_config app))) None (w_foreign w) of
         (f, c) \<Rightarrow> (f, w\<lparr>w_foreign := c\<rparr>))) (\<lambda>f.
     bind_prog (run_future en (on_foreign request_poll) f) (\<lambda>r.
     bind_prog (must ''can't initialize foreign nonce'' r) (\<lambda>nonce.
     act (\<lambda>w. ((), w\<lparr>w_foreign := (w_foreign w)\<lparr>ch_nonce := nonce\<rparr>\<rparr>)))))))))"

text \<open>
  The database: loaded from its file, or deployed and saved. \<open>File::create\<close> empties the file, so the
  saved text is all it holds then.
\<close>

definition open_database :: "environment \<Rightarrow> string option \<Rightarrow> path \<Rightarrow> io_error + (io_error + string)" where
  "open_database en file p =
     (case en_open_fault en of
        Some e \<Rightarrow> Inl e
      | None \<Rightarrow>
          (case file of
             None \<Rightarrow> Inl (IoError NotFound ''No such file or directory'')
           | Some s \<Rightarrow> Inr (case en_read_fault en of Some e \<Rightarrow> Inl e | None \<Rightarrow> Inr s)))"

definition save_new_database :: "environment \<Rightarrow> database \<Rightarrow> unit prog" where
  "save_new_database en database = (\<lambda>(file, w).
     case en_create_fault en of
       Some e \<Rightarrow> stop (Failed (ufe_from_io e)) (file, w)
     | None \<Rightarrow>
         (case database_save (en_to_toml en) (en_first_write_fault en) database [] of
            (saved, txt) \<Rightarrow> attempt ufe_from_error saved (Some txt, w)))"

definition obtain_database :: "environment \<Rightarrow> app \<Rightarrow> u64 \<Rightarrow> u64 \<Rightarrow> database prog" where
  "obtain_database en app home_chain_id foreign_chain_id = (\<lambda>(file, w).
     let load = database_load (en_from_toml en) (en_show_path en) (open_database en file) in
     bind_prog (run_future en (deploy_poll (en_deploy_feature en) load app) (create_deploy home_chain_id foreign_chain_id)) (\<lambda>r.
     bind_prog (attempt ufe_from_error r) (\<lambda>deployed.
     case deployed of
       New database \<Rightarrow> bind_prog (save_new_database en database) (\<lambda>_. give database)
     | Existing database \<Rightarrow> give database)) (file, w))"

text \<open>The bridge runs until it fails or, were its stream to end, until then.\<close>

definition run_bridge :: "environment \<Rightarrow> app \<Rightarrow> database \<Rightarrow> u64 \<Rightarrow> u64 \<Rightarrow> string prog" where
  "run_bridge en app database home_chain_id foreign_chain_id = (\<lambda>(file, w).
     case create_bridge (en_oracle en) (en_turns en) (en_writes en) file app database home_chain_id foreign_chain_id w of
       Err e \<Rightarrow> stop (Failed (ufe_from_error e)) (file, w)
     | Panic m \<Rightarrow> stop (Panicked m) (file, w)
     | Ok (bridge, w) \<Rightarrow>
         (case core_run_collect (en_signal en) (bridge_poll (en_to_toml en) (en_oracle en) app) [] (bridge, w) of
            None \<Rightarrow> None
          | Some ((bridge, w), result) \<Rightarrow>
              (case result of
                 Ok _ \<Rightarrow> give ''Done''
               | Err e \<Rightarrow> stop (Failed (bridge_exit e))
               | Panic m \<Rightarrow> stop (Panicked m)) (br_file bridge, w)))"

definition cli_execute :: "environment \<Rightarrow> string list \<Rightarrow> string prog" where
  "cli_execute en command =
     bind_prog (cli_connect en command) (\<lambda>app.
     bind_prog (retrieve_chain_ids en app) (\<lambda>(home_chain_id, foreign_chain_id).
     bind_prog (initialize_nonces en app) (\<lambda>_.
     bind_prog (obtain_database en app home_chain_id foreign_chain_id) (\<lambda>database.
     run_bridge en app database home_chain_id foreign_chain_id))))"

text \<open>The state at the start: no request made, the nonces at their default, the flag set.\<close>

definition initial_state :: "environment \<Rightarrow> prog_state" where
  "initial_state en =
     (en_database_file en,
      \<lparr> w_home = default_node_info, w_foreign = default_node_info,
        w_home_balance = None, w_foreign_balance = None, w_home_gas_price = 0, w_foreign_gas_price = 0,
        w_running = True \<rparr>)"

text \<open>
  \<open>print_err\<close> and \<open>main\<close>: what is printed and the exit code of the process; \<open>show\<close> is the display of an
  error. A panic of the main thread ends the process with code 101.
\<close>

fun error_iter :: "error \<Rightarrow> error list" where
  "error_iter (Error k c) = Error k c # (case c of None \<Rightarrow> [] | Some e \<Rightarrow> error_iter e)"

fun join_with :: "string \<Rightarrow> string list \<Rightarrow> string" where
  "join_with sep [] = []"
| "join_with sep [x] = x"
| "join_with sep (x # y # xs) = x @ sep @ join_with sep (y # xs)"

definition print_err :: "(error \<Rightarrow> string) \<Rightarrow> error \<Rightarrow> string" where
  "print_err show err =
     join_with ([CHR 0x0A, CHR 0x0A] @ ''Caused by:'' @ [CHR 0x0A] @ ''  '') (map show (error_iter err))"

definition cli_main ::
    "(error \<Rightarrow> string) \<Rightarrow> bool \<Rightarrow> environment \<Rightarrow> string list \<Rightarrow> (string \<times> int) option" where
  "cli_main show handler_set en command =
     (if \<not> handler_set then Some ([], 101)
      else case cli_execute en command (initial_state en) of
        None \<Rightarrow> None
      | Some (_, Inr s) \<Rightarrow> Some (s, 0)
      | Some (_, Inl z) \<Rightarrow>
          Some (case z of
                  Finished s \<Rightarrow> (s, 0)
                | Failed (UserFacingError code err) \<Rightarrow> (print_err show err, code)
                | Panicked m \<Rightarrow> ([], 101)))"

section \<open>Lemmas\<close>

text \<open>The exit code is that of the error inside all contexts.\<close>

fun root_error :: "error \<Rightarrow> error" where
  "root_error (Error (ContextualizedError e context) c) = root_error e"
| "root_error e = e"

lemma bridge_exit_root: "bridge_exit (root_error e) = bridge_exit e"
  by (induction e rule: root_error.induct) simp_all

lemma root_error_contextualize [simp]: "root_error (contextualize ctx e) = root_error e"
  by (simp add: contextualize_def from_kind_def)

text \<open>Running a stream in the event loop is one of its runs, and ends with the poll that ends it.\<close>

lemma flag_rely_wait: "flag_rely t (wait_event signal t)"
  by (cases t) (auto simp: flag_rely_def wait_event_def)

definition collect_ends ::
    "('a \<times> world \<Rightarrow> (('a \<times> world) \<times> 'b option poll) option) \<Rightarrow> 'a \<times> world \<Rightarrow> ('a \<times> world) \<times> bool list result \<Rightarrow> bool" where
  "collect_ends p t z \<longleftrightarrow> (\<exists>xs v q. stream_run p flag_rely t xs v \<and> p v = Some (fst z, q) \<and>
     ((\<exists>ys. q = Ok (Ready None) \<and> snd z = Ok ys) \<or> (\<exists>e. q = Err e \<and> snd z = Err e) \<or> (\<exists>m. q = Panic m \<and> snd z = Panic m)))"

lemma collect_ends_step: "collect_ends p u z \<Longrightarrow> stream_run p flag_rely t ys u \<Longrightarrow> collect_ends p t z"
  unfolding collect_ends_def by (blast intro: stream_run_trans)

lemma collect_ends_now:
  assumes "p t = Some (fst z, q)"
    and "(\<exists>ys. q = Ok (Ready None) \<and> snd z = Ok ys) \<or> (\<exists>e. q = Err e \<and> snd z = Err e) \<or> (\<exists>m. q = Panic m \<and> snd z = Panic m)"
  shows "collect_ends p t z"
  unfolding collect_ends_def by (intro exI [of _ "[]"] exI [of _ t] exI [of _ q] conjI stream_run.start assms)

lemma core_run_collect_run:
  assumes "core_run_collect signal poll acc t = Some z"
  shows "collect_ends poll t z"
proof (rule core_run_collect.raw_induct [where P = "\<lambda>_ p _ t. collect_ends p t", OF _ assms])
  fix F signal p acc t z
  assume IH: "\<And>signal p acc t z. F signal p acc t = Some z \<Longrightarrow> collect_ends p t z"
    and eq: "(case p t of None \<Rightarrow> None
      | Some (u, r) \<Rightarrow> (case r of
           Ok NotReady \<Rightarrow> F signal p acc (wait_event signal u)
         | Ok (Ready None) \<Rightarrow> Some (u, Ok acc)
         | Ok (Ready (Some x)) \<Rightarrow> F signal p (acc @ [True]) u
         | Err e \<Rightarrow> Some (u, Err e) | Panic m \<Rightarrow> Some (u, Panic m))) = Some z"
  obtain u q where p: "p t = Some (u, q)"
    using eq by (auto split: option.splits)
  consider (idle) "q = Ok NotReady" | (item) x where "q = Ok (Ready (Some x))"
    | (last) "q = Ok (Ready None) \<or> (\<exists>e. q = Err e) \<or> (\<exists>m. q = Panic m)"
    by (rule try_stream.cases [of "(q, Inl, Inr)"]) auto
  then show "collect_ends p t z"
  proof cases
    case idle
    then have "collect_ends p (wait_event signal u) z"
      using eq p IH by simp
    moreover have "stream_run p flag_rely t [] (wait_event signal u)"
      using idle p by (blast intro: stream_run.intros flag_rely_wait)
    ultimately show ?thesis by (rule collect_ends_step)
  next
    case item
    then have "collect_ends p u z"
      using eq p IH by simp
    then show ?thesis
      using item p by (blast intro: collect_ends_step stream_run_one)
  next
    case last
    then show ?thesis
      using eq p by (intro collect_ends_now [where q = q]) auto
  qed
qed

text \<open>Sequencing.\<close>

lemma bind_prog_eq_Some:
  "bind_prog p f st = Some (st', x) \<longleftrightarrow>
     (\<exists>z. p st = Some (st', Inl z) \<and> x = Inl z) \<or>
     (\<exists>st'' y. p st = Some (st'', Inr y) \<and> f y st'' = Some (st', x))"
  by (auto simp: bind_prog_def split: option.splits sum.splits)

lemma attempt_simps [simp]:
  "attempt conv (Ok x) st = Some (st, Inr x)" "attempt conv (Err e) st = Some (st, Inl (Failed (conv e)))"
  "attempt conv (Panic m) st = Some (st, Inl (Panicked m))"
  by (simp_all add: attempt_def give_def stop_def)

text \<open>Parts that leave the file as it is.\<close>

definition keeps_file :: "'a prog \<Rightarrow> bool" where
  "keeps_file p \<longleftrightarrow> (\<forall>file w st x. p (file, w) = Some (st, x) \<longrightarrow> fst st = file)"

lemma keeps_file_bind: "keeps_file p \<Longrightarrow> (\<And>x. keeps_file (f x)) \<Longrightarrow> keeps_file (bind_prog p f)"
  unfolding keeps_file_def by (fastforce simp: bind_prog_eq_Some)

lemma keeps_file_basic:
  "keeps_file (give x)" "keeps_file (stop z)" "keeps_file (attempt conv r)" "keeps_file (must m r)"
  "keeps_file (run_future en poll s)" "keeps_file (act g)"
  by (auto simp: keeps_file_def give_def stop_def act_def attempt_def must_def run_future_def
      split: result.splits option.splits prod.splits)

lemma retrieve_chain_ids_file: "keeps_file (retrieve_chain_ids en app)"
  unfolding retrieve_chain_ids_def by (intro keeps_file_bind keeps_file_basic)

lemma initialize_nonces_file: "keeps_file (initialize_nonces en app)"
  unfolding initialize_nonces_def by (intro keeps_file_bind keeps_file_basic)

text \<open>With a database on file, no fault and a text that parses, that database is the one the bridge starts with.\<close>

lemma core_run_Ready:
  "poll (s, w) = Some ((s', w'), Ok (Ready v)) \<Longrightarrow> core_run signal poll (s, w) = Some ((s', w'), Ok v)"
  by (subst core_run.simps) simp

lemma obtain_database_existing:
  assumes "en_open_fault en = None" and "en_read_fault en = None" and "en_from_toml en txt = Inr db"
  shows "obtain_database en app h f (Some txt, w) = Some ((Some txt, w), Inr db)"
proof -
  let ?load = "database_load (en_from_toml en) (en_show_path en) (open_database en (Some txt))"
  have "?load p = Ok db" for p
    using assms by (simp add: database_load_def open_database_def database_from_str_def)
  then have "deploy_poll (en_deploy_feature en) ?load app (create_deploy h f, w) =
      Some ((create_deploy h f, w), Ok (Ready (Existing db)))"
    by (simp add: deploy_poll_def poll_loop_Return deploy_body_def create_deploy_def)
  from core_run_Ready [where poll = "deploy_poll (en_deploy_feature en) ?load app", OF this] show ?thesis
    by (simp add: obtain_database_def Let_def bind_prog_def run_future_def give_def)
qed

text \<open>A write that is not planned to fail succeeds; a run uses the planned outcomes up.\<close>

lemma bridge_run_io:
  assumes "stream_run (bridge_poll to_toml orc app) flag_rely (b0, w0) xs (b, v)"
    and "bridge_inv app init h f [] (b0, w0)" and "br_io b0 = []"
  shows "br_io b = []"
proof -
  let ?inv = "\<lambda>(xs :: unit list) (b, v). (\<exists>evs. bridge_inv app init h f evs (b, v)) \<and> br_io b = []"
  have keep: "(\<exists>evs. bridge_inv app init h f evs (b', v)) \<and> br_io b' = []"
    if "bridge_poll to_toml orc app (b, w) = Some ((b', v), r)" "bridge_inv app init h f evs (b, w)" "br_io b = []"
      "r = Ok NotReady \<or> (\<exists>u. r = Ok (Ready (Some u)))" for b w b' v r evs
    using that(1,2) by (cases rule: bridge_poll_cases) (use that(3,4) in auto)
  have "stream_inv (bridge_poll to_toml orc app) flag_rely ?inv"
    by unfold_locales (auto dest: keep, metis bridge_inv_flag prod.collapse, auto simp: flag_rely_def)
  then have "?inv xs (b, v)"
    by (rule stream_inv.run_inv [OF _ assms(1)]) (use assms(2,3) in auto)
  then show ?thesis by simp
qed

text \<open>What the database file says when the program ends is safe.\<close>

definition safe_file ::
    "environment \<Rightarrow> app \<Rightarrow> database \<Rightarrow> u64 \<Rightarrow> u64 \<Rightarrow> string option \<times> world \<Rightarrow> bool" where
  "safe_file en app init home_id foreign_id = (\<lambda>(file, v).
     \<exists>out db. file = Some out \<and> en_from_toml en out = Inr db \<and> database_le init db \<and>
       (\<forall>k. \<exists>its. tiles (checkpoint init k) its (checkpoint db k) \<and>
          (\<forall>it\<in>set its. relay_handles app init home_id foreign_id v k it)))"

lemma database_le_refl [simp]: "database_le db db"
  by (simp add: database_le_def)

lemma safe_file_unchanged: "en_from_toml en txt = Inr init \<Longrightarrow> safe_file en app init h f (Some txt, v)"
  by (auto simp: safe_file_def intro!: exI [of _ "[]"])

text \<open>
  The last poll of the bridge, which fails or ends it, writes nothing when writes succeed, and the
  checkpoints of the database are still justified after it.
\<close>

lemma bridge_last_poll:
  assumes created: "create_bridge orc turns [] file app init h f w = Ok (b0, w0)"
    and xs: "stream_run (bridge_poll to_toml orc app) flag_rely (b0, w0) xs (b, v)"
    and last: "bridge_poll to_toml orc app (b, v) = Some ((b', v'), r)" and r: "\<forall>u. r \<noteq> Ok (Ready (Some u))"
  shows "br_file b' = br_file b" and "database_le init (br_database b)"
    and "\<exists>its. tiles (checkpoint init k) its (checkpoint (br_database b) k) \<and>
      (\<forall>it\<in>set its. relay_handles app init h f v' k it)"
proof -
  note start = bridge_inv_start [OF created]
  obtain evs where inv: "bridge_inv app init h f evs (b, v)"
    using bridge_run_inv [OF created xs] .
  from last inv show "br_file b' = br_file b"
  proof (cases rule: bridge_poll_cases)
    case (item e q)
    then show ?thesis
      using r bridge_run_io [OF xs start(1,3)] by (auto simp: save_database_def database_save_def Let_def)
  qed
  show "database_le init (br_database b)"
    using bridge_inv_le [of app init h f "[]" evs] inv by simp
  have R: "relays_inv app init h f (evs @ es_pending (es_state (br_event_stream b))) (es_bridge (br_event_stream b), v')"
    using inv relays_inv_extends [OF _ bridge_poll_extends [OF last inv]] by (simp add: bridge_inv_def es_inv_def)
  have db: "br_database b = foldl database_update init evs"
    using inv by (simp add: bridge_inv_def)
  show "\<exists>its. tiles (checkpoint init k) its (checkpoint (br_database b) k) \<and>
      (\<forall>it\<in>set its. relay_handles app init h f v' k it)"
    using relays_progress [OF R] unfolding db by metis
qed

lemma run_bridge_safe:
  assumes len: "\<forall>d d'. database_le d d' \<longrightarrow> length (en_to_toml en d) \<le> length (en_to_toml en d')"
    and round_trip: "\<forall>d. en_from_toml en (en_to_toml en d) = Inr d"
    and parsed: "en_from_toml en txt = Inr init" "length txt \<le> length (en_to_toml en init)" and io: "en_writes en = []"
    and run: "run_bridge en app init h f (Some txt, w) = Some (st, z)"
  shows "safe_file en app init h f st"
proof (cases "create_bridge (en_oracle en) (en_turns en) [] (Some txt) app init h f w")
  case (Ok p)
  obtain b0 w0 where "p = (b0, w0)" by fastforce
  with Ok have created: "create_bridge (en_oracle en) (en_turns en) [] (Some txt) app init h f w = Ok (b0, w0)"
    by simp
  let ?poll = "bridge_poll (en_to_toml en) (en_oracle en) app"
  obtain b' v' result where col: "core_run_collect (en_signal en) ?poll [] (b0, w0) = Some ((b', v'), result)"
      and st: "st = (br_file b', v')"
    using run created by (auto simp: run_bridge_def io give_def stop_def split: option.splits result.splits)
  obtain xs b v q where xs: "stream_run ?poll flag_rely (b0, w0) xs (b, v)" and last: "?poll (b, v) = Some ((b', v'), q)"
      and q: "\<forall>u. q \<noteq> Ok (Ready (Some u))"
    using core_run_collect_run [OF col, unfolded collect_ends_def fst_conv snd_conv] by (metis async.inject option.distinct(1) prod.collapse result.distinct(1,3) result.inject(1))
  note final = bridge_last_poll [OF created xs last q]
  have "file_inv (en_to_toml en) (Some txt) xs b"
    by (rule bridge_run_file [OF len _ created xs]) (simp add: parsed)
  then consider "br_file b' = Some txt" | "br_file b' = Some (en_to_toml en (br_database b))"
    using final(1) by (auto simp: file_inv_def split: if_splits)
  then show ?thesis
    using safe_file_unchanged [OF parsed(1)] final(2,3) round_trip by cases (simp_all add: safe_file_def st)
qed (use run parsed io in \<open>auto simp: run_bridge_def stop_def intro: safe_file_unchanged\<close>)

lemma cli_connect_file: "keeps_file (cli_connect en command)"
  unfolding cli_connect_def
  by (auto intro!: keeps_file_bind keeps_file_basic split: sum.split option.split)

text \<open>Prefixes exclude each other.\<close>

lemma starts_with_exclusive: "starts_with s p \<Longrightarrow> \<not> prefix p q \<Longrightarrow> \<not> prefix q p \<Longrightarrow> \<not> starts_with s q"
  unfolding starts_with_prefix by (metis prefix_same_cases)

lemma competing_prefix:
  "starts_with s ''Transaction gas price is too low. There is another'' \<Longrightarrow>
   starts_with s ''Transaction gas price is too low''"
  by (erule starts_with_trans) (simp add: prefix_def)

section \<open>Properties\<close>



text \<open>
  C25. The branch for a transaction that competes with another of the same nonce is never taken: its
  message also starts like the one before it. Exit code 7 is given for a nonce that is too low and for
  nothing else; the competing transaction ends the program with code 6.
\<close>

theorem nonce_reuse_code:
  "(ufe_code (rpc_exit e) = ERR_NONCE_REUSE \<longleftrightarrow>
      rpc_code e = ServerError (- 32010) \<and> starts_with (rpc_message e) ''Transaction nonce is too low'') \<and>
   ufe_code (rpc_exit (RpcError (ServerError (- 32010))
      ''Transaction gas price is too low. There is another transaction with same nonce in the queue'')) =
     ERR_GAS_PRICE_TOO_LOW"
proof
  have ex: "starts_with s ''Transaction nonce is too low'' \<Longrightarrow> \<not> prefix ''Transaction nonce is too low'' q \<Longrightarrow>
      \<not> prefix q ''Transaction nonce is too low'' \<Longrightarrow> \<not> starts_with s q" for s q
    by (rule starts_with_exclusive)
  show "ufe_code (rpc_exit e) = ERR_NONCE_REUSE \<longleftrightarrow>
      rpc_code e = ServerError (- 32010) \<and> starts_with (rpc_message e) ''Transaction nonce is too low''"
    using competing_prefix [of "rpc_message e"] ex [of "rpc_message e" "''Insufficient funds''"]
      ex [of "rpc_message e" "''Transaction gas is too low''"] ex [of "rpc_message e" "''Transaction gas price is too low''"]
    by (auto simp: rpc_exit_def exit_codes Let_def)
  show "ufe_code (rpc_exit (RpcError (ServerError (- 32010))
      ''Transaction gas price is too low. There is another transaction with same nonce in the queue'')) =
     ERR_GAS_PRICE_TOO_LOW"
    by (simp add: rpc_exit_def exit_codes starts_with_def)
qed


end
