(* ===== verification/BridgeExamples.thy ===== *)
theory BridgeExamples
  imports Examples Cli
begin

text \<open>
  The theorems of the remaining components applied in the setting of \<open>Examples\<close>, up to a run of the
  whole program.
\<close>

section \<open>Withdraw confirmation and relay\<close>

abbreviation demo_withdraw_confirm :: withdraw_confirm where
  "demo_withdraw_confirm \<equiv> create_withdraw_confirm demo_app demo_database 42"

abbreviation demo_withdraw_relay :: withdraw_relay where
  "demo_withdraw_relay \<equiv> create_withdraw_relay demo_app demo_database 42"

lemma demo_message: "withdraw_message demo_app demo_log =
  Ok (message_to_bytes \<lparr> m_recipient = 5, m_value = 6, m_sidenet_transaction_hash = 77, m_mainnet_gas_price = 7 \<rparr>)"
  by (simp add: withdraw_message_def message_from_log_def Let_def)

lemma demo_confirm_poll:
  "\<exists>s v. withdraw_confirm_poll demo_app (demo_withdraw_confirm, demo_world) =
     Some ((s, v), Ok (Ready (Some (WithdrawConfirm 18))))"
  by (simp add: create_withdraw_confirm_def withdraw_confirm_logs_init_def withdraw_confirm_poll_def
      withdraw_confirm_body_def confirm_gas_def demo_message withdraw_signature_def
      withdraw_submit_signature_payload_def message_codec.enc_length eval_defs)

lemmas withdraw_evals =
  create_withdraw_relay_def withdraw_relay_logs_init_def withdraw_relay_poll_def withdraw_relay_body_def
  signatures_payload_def slice_from_def u256_from_slice_def fetch_messages_signatures_def fetch_poll_def
  join_poll_def join_all_poll_def join_all_def join_def elem_poll_def withdraw_gas_def decode_signature_def
  withdraw_transaction_def signature_from_bytes_def SIGNATURE_LENGTH_def message_from_bytes_def MESSAGE_LENGTH_def

lemma demo_relay_poll:
  "\<exists>s v. withdraw_relay_poll demo_app (demo_withdraw_relay, demo_world) =
     Some ((s, v), Ok (Ready (Some (WithdrawRelay 18))))"
  by (simp add: withdraw_evals List.map_filter_def be_word_be_bytes low_u32_def eval_defs)

theorem withdraw_confirm_checkpoints_witness:
  "\<exists>s v its b. stream_run (withdraw_confirm_poll demo_app) relay_rely (demo_withdraw_confirm, demo_world)
       [WithdrawConfirm 18] (s, v) \<and>
     [WithdrawConfirm 18] = map (WithdrawConfirm \<circ> it_to) its \<and> tiles 10 its b \<and>
     (\<forall>it\<in>set its. \<forall>lg\<in>set (it_logs it). confirm_handled demo_app 200 42 (w_foreign v) lg)"
proof -
  obtain s v where run: "stream_run (withdraw_confirm_poll demo_app) relay_rely (demo_withdraw_confirm, demo_world)
      [WithdrawConfirm 18] (s, v)"
    using demo_confirm_poll stream_run_one by metis
  from withdraw_confirm_checkpoints [OF run] obtain its b where
    "[WithdrawConfirm 18] = map (WithdrawConfirm \<circ> it_to) its" "tiles 10 its b"
    "\<forall>it\<in>set its. \<forall>lg\<in>set (it_logs it). confirm_handled demo_app 200 42 (w_foreign v) lg"
    unfolding demo_database_fields by (elim exE conjE) (metis (no_types, lifting))
  with run show ?thesis
    by (intro exI [of _ s] exI [of _ v] exI [of _ its] exI [of _ b] conjI)
qed

theorem withdraw_relay_checkpoints_witness:
  "\<exists>s v its b. stream_run (withdraw_relay_poll demo_app) relay_rely (demo_withdraw_relay, demo_world)
       [WithdrawRelay 18] (s, v) \<and>
     [WithdrawRelay 18] = map (WithdrawRelay \<circ> it_to) its \<and> tiles 10 its b \<and>
     (\<forall>it\<in>set its. \<forall>lg\<in>set (it_logs it). withdraw_handled demo_app 200 100 42 v lg)"
proof -
  obtain s v where run: "stream_run (withdraw_relay_poll demo_app) relay_rely (demo_withdraw_relay, demo_world)
      [WithdrawRelay 18] (s, v)"
    using demo_relay_poll stream_run_one by metis
  from withdraw_relay_checkpoints [OF run] obtain its b where
    "[WithdrawRelay 18] = map (WithdrawRelay \<circ> it_to) its" "tiles 10 its b"
    "\<forall>it\<in>set its. \<forall>lg\<in>set (it_logs it). withdraw_handled demo_app 200 100 42 v lg"
    unfolding demo_database_fields by (elim exE conjE) (metis (no_types, lifting))
  with run show ?thesis
    by (intro exI [of _ s] exI [of _ v] exI [of _ its] exI [of _ b] conjI)
qed

theorem withdraw_message_payload_witness:
  "withdraw_submit_signature_payload demo_contracts
     (message_to_bytes \<lparr> m_recipient = 5, m_value = 6, m_sidenet_transaction_hash = 77, m_mainnet_gas_price = 7 \<rparr>) 1 =
   Ok (take 2 (message_to_bytes \<lparr> m_recipient = 5, m_value = 6, m_sidenet_transaction_hash = 77, m_mainnet_gas_price = 7 \<rparr>))"
  using withdraw_message_payload [OF demo_message, of demo_contracts 1] by simp

text \<open>A key store that refuses to sign.\<close>

theorem withdraw_confirm_sign_error_witness:
  "\<exists>t. withdraw_confirm_poll (demo_app\<lparr>app_keystore_sign := \<lambda>_ _. Inl ''locked''\<rparr>) (demo_withdraw_confirm, demo_world) =
     Some (t, Err (from_kind (SignError ''locked'')))"
proof -
  let ?app = "demo_app\<lparr>app_keystore_sign := \<lambda>_ _. Inl ''locked''\<rparr>"
  let ?m = "message_to_bytes \<lparr> m_recipient = 5, m_value = 6, m_sidenet_transaction_hash = 77, m_mainnet_gas_price = 7 \<rparr>"
  obtain ls c where "log_stream_poll demo_transport (wc_logs demo_withdraw_confirm, demo_chain) =
      Some ((ls, c), Ok (Ready (Some \<lparr> it_from = 11, it_to = 18, it_logs = [demo_log] \<rparr>)))"
    by (simp add: create_withdraw_confirm_def withdraw_confirm_logs_init_def eval_defs)
  moreover have "withdraw_message ?app demo_log = Ok ?m"
    by (simp add: withdraw_message_def message_from_log_def Let_def)
  ultimately show ?thesis
    using withdraw_confirm_sign_error [of demo_withdraw_confirm demo_world 1000000 ?app ls c
        "\<lparr> it_from = 11, it_to = 18, it_logs = [demo_log] \<rparr>" "[]" ?m "[]" "''locked''"]
    by (simp add: create_withdraw_confirm_def)
qed

theorem signatures_payload_assigns_witness:
  "signatures_payload demo_contracts True 9 demo_log =
     Ok (Some \<lparr> ra_signature_payloads = [be_bytes 4 (0 :: u32)], ra_message_payload = [0, 0, 0, 0] @ be_bytes 32 (8 :: h256) \<rparr>)"
proof -
  have "\<exists>selector. length selector = 4 \<and> foreign_message_input demo_contracts h = selector @ be_bytes 32 h" for h
    by (rule exI [of _ "[0, 0, 0, 0]"]) simp
  from signatures_payload_assigns [where ct = demo_contracts and lg = demo_log and log_info = True and me = 9
      and hash = 77 and cs = "\<lparr> cs_authority_responsible_for_relay = 9, cs_message_hash = 8,
        cs_number_of_collected_signatures = 1 \<rparr>", OF this]
  show ?thesis by simp
qed

definition demo_assignment :: relay_assignment where
  "demo_assignment = \<lparr> ra_signature_payloads = [[1], [2]], ra_message_payload = [3] \<rparr>"

lemma demo_fetch:
  "\<exists>f d g. fetch_messages_signatures demo_transport 200 [demo_assignment] demo_chain = (f, d) \<and>
     fetch_poll f = (Ok (Ready ([[1]], [[[1], [1]]])), g)"
  by (simp add: demo_assignment_def fetch_messages_signatures_def fetch_poll_def join_poll_def join_all_poll_def
      join_all_def join_def elem_poll_def request_defs Let_def)

theorem fetch_gives_pairs_witness:
  "\<exists>f d g. fetch_messages_signatures demo_transport 200 [demo_assignment] demo_chain = (f, d) \<and>
     fetch_poll f = (Ok (Ready ([[1]], [[[1], [1]]])), g) \<and>
     length [[1 :: u8]] = length [demo_assignment] \<and> length [[[1 :: u8], [1]]] = length [demo_assignment]"
  using demo_fetch fetch_gives_pairs [OF _ future_run.created] by metis

theorem withdraw_relay_insufficient_funds_witness:
  "\<exists>t f. withdraw_relay_poll demo_app
       (demo_withdraw_relay\<lparr>wr_state := WR_FetchMessagesSignatures f 18\<rparr>, demo_world\<lparr>w_home_balance := Some 29\<rparr>) =
     Some (t, Err (from_kind InsufficientFunds))"
proof -
  obtain f g where "fetch_poll f = (Ok (Ready ([[1]], [[[1], [1]]])), g)"
    using demo_fetch by blast
  then have "withdraw_relay_poll demo_app
       (demo_withdraw_relay\<lparr>wr_state := WR_FetchMessagesSignatures f 18\<rparr>, demo_world\<lparr>w_home_balance := Some 29\<rparr>) =
     Some ((demo_withdraw_relay\<lparr>wr_state := WR_FetchMessagesSignatures g 18\<rparr>, demo_world\<lparr>w_home_balance := Some 29\<rparr>),
       Err (from_kind InsufficientFunds))"
    using withdraw_relay_insufficient_funds [of "demo_withdraw_relay\<lparr>wr_state := WR_FetchMessagesSignatures f 18\<rparr>" f 18
        "demo_world\<lparr>w_home_balance := Some 29\<rparr>" 29 "[[1]]" "[[[1], [1]]]" g demo_app]
    by simp
  then show ?thesis by blast
qed

section \<open>Prices, chain ids, timers, configuration\<close>

theorem gas_price_whole_gwei_witness: "unat (gas_price_wei 21) = 21000000000"
  using gas_price_whole_gwei [of 21] by simp

definition demo_gas_stream :: gas_price_stream where
  "demo_gas_stream =
     \<lparr> gp_state = GP_WaitingForResponse [OR_Chunk [1]], gp_retrievals = [], gp_uri = ''https://oracle'', gp_speed = Fast,
       gp_interval = [], gp_last_price = 15000000000, gp_request_timeout = 10 \<rparr>"

theorem gas_price_falls_back_witness:
  "gas_price_poll (\<lambda>_. Inr [''standard'' \<mapsto> JNumber 4]) demo_gas_stream =
     Some (demo_gas_stream\<lparr>gp_state := GP_Yield None\<rparr>, Ok (Ready (Some 15000000000)))"
  using gas_price_falls_back [of demo_gas_stream "OR_Chunk [1]" "[]" "\<lambda>_. Inr [''standard'' \<mapsto> JNumber 4]"]
  by (simp add: demo_gas_stream_def)

lemma demo_decimal: "decimal 42 = ''42''"
  by code_simp

theorem chain_id_roundtrip_witness:
  "chain_id_retrieval_poll demo_transport (create_chain_id_retrieval demo_node, demo_chain) =
     Some ((\<lparr> ci_state = CI_ChainIdRequest [], ci_node = demo_node \<rparr>, demo_chain\<lparr>ch_calls := [Net_version]\<rparr>), Ok (Ready 42))"
  using chain_id_roundtrip [of demo_transport demo_chain 42 "[]" demo_node]
  by (simp add: demo_decimal)

theorem timer_slots_cover_witness:
  "(5 * 1000 :: nat) \<le> unat (timer_slots 5) * 100 \<and> (\<exists>k. unat (timer_slots 5) = 2 ^ k) \<and>
   unat (timer_slots 5) * 100 < (2 * (5 * 1000) :: nat)"
  using timer_slots_cover [of 5] by simp

definition demo_load_node :: load_node where
  "demo_load_node =
     \<lparr> ln_account = 9, ln_contract_bin = [], ln_request_timeout = None, ln_poll_interval = None,
       ln_required_confirmations = None, ln_rpc_host = Some ''https://rpc'', ln_rpc_port = None, ln_password = ''pw'',
       ln_gas_price_oracle_url = None, ln_gas_price_speed = Some ''slow'', ln_gas_price_timeout = None,
       ln_default_gas_price = None, ln_concurrent_http_requests = None \<rparr>"

definition demo_load_config :: load_config where
  "demo_load_config =
     \<lparr> lc_home = demo_load_node, lc_foreign = demo_load_node,
       lc_authorities = \<lparr> la_accounts = [9], la_required_signatures = 1 \<rparr>, lc_transactions = None,
       lc_estimated_gas_cost_of_withdraw = 0, lc_keystore = ''keys'' \<rparr>"

lemma demo_config_loads: "\<exists>cfg. config_from_load_struct False (\<lambda>_. Ok []) demo_load_config False = Ok cfg"
  by (simp add: config_from_load_struct_def node_from_load_struct_def demo_load_config_def demo_load_node_def
      speed_from_str_def starts_with_def Let_def)

theorem config_requires_tls_witness:
  "\<exists>cfg. config_from_load_struct False (\<lambda>_. Ok []) demo_load_config False = Ok cfg \<and>
     starts_with (n_rpc_host (cfg_home cfg)) ''https://'' \<and> starts_with (n_rpc_host (cfg_foreign cfg)) ''https://'' \<and>
     cfg_txs cfg = default_transactions False"
  using demo_config_loads config_requires_tls [of False "\<lambda>_. Ok []" demo_load_config]
  by (auto simp: demo_load_config_def)

section \<open>Deployment\<close>

definition demo_receipt :: receipt where
  "demo_receipt = \<lparr> rc_transaction_hash = 99, rc_block_number = 5, rc_contract_address = Some 1234 \<rparr>"

definition demo_deploy :: deploy where
  "demo_deploy =
     \<lparr> dp_state = DS_Deploying (Elem_Done demo_receipt) (Elem_Done demo_receipt), dp_home_chain_id = 42,
       dp_foreign_chain_id = 42 \<rparr>"

theorem deploy_new_database_witness:
  "\<exists>db. deploy_poll True (\<lambda>_. Panic []) demo_app (demo_deploy, demo_world) = Some ((demo_deploy, demo_world), Ok (Ready (New db))) \<and>
     home_contract_address db = 1234 \<and> unat (checked_deposit_relay db) = 5 \<and> unat (checked_withdraw_relay db) = 5"
  using deploy_new_database [of demo_deploy demo_receipt demo_receipt 1234 1234 True "\<lambda>_. Panic []" demo_app demo_world]
  by (auto simp: demo_deploy_def demo_receipt_def)

definition demo_imported :: rpc_error where
  "demo_imported = RpcError (ServerError (- 32010)) ''Transaction with the same hash was already imported.''"

theorem deploy_already_imported_panics_witness:
  "\<exists>t. deploy_poll True (\<lambda>_. Panic []) demo_app
       (demo_deploy\<lparr>dp_state := DS_Deploying
          (Elem_Pending ((send_transaction_with_nonce demo_node demo_transaction 42)
             \<lparr>nc_state := NC_TransactionRequest [Inner (A_Fail (W_Rpc demo_imported))]\<rparr>))
          (Elem_Done demo_receipt)\<rparr>, demo_world) =
     Some (t, Panic ''contract creation receipt must have an address; qed'')"
  by (rule deploy_already_imported_panics [of _
      "(send_transaction_with_nonce demo_node demo_transaction 42)
         \<lparr>nc_state := NC_TransactionRequest [Inner (A_Fail (W_Rpc demo_imported))]\<rparr>" demo_receipt demo_imported "[]"])
    (simp_all add: demo_imported_def ends_with_def)

lemma demo_deploys:
  "\<exists>s v db. deploy_poll True (\<lambda>p. Err (from_kind (MissingFile p))) demo_app (create_deploy 42 42, demo_world) =
     Some ((s, v), Ok (Ready (New db)))"
  by (simp add: deploy_poll_def deploy_body_def create_deploy_def creation_poll_def creation_sender_def
      TransactionWithConfirmation_def new_database_def deploy_transactions_def demo_config_def from_kind_def eval_defs)

theorem deploy_new_accepted_witness:
  "\<exists>s v db main_tx. deploy_poll True (\<lambda>p. Err (from_kind (MissingFile p))) demo_app (create_deploy 42 42, demo_world) =
       Some ((s, v), Ok (Ready (New db))) \<and>
     accepted demo_app (creation_out demo_transport demo_node) demo_node 42 main_tx (w_home v)"
proof -
  obtain s v db where p: "deploy_poll True (\<lambda>p. Err (from_kind (MissingFile p))) demo_app (create_deploy 42 42, demo_world) =
      Some ((s, v), Ok (Ready (New db)))"
    using demo_deploys by blast
  from p deploy_new_accepted [OF future_run.created p] show ?thesis
    by auto
qed

section \<open>The bridge\<close>

definition demo_oracle :: price_oracle where
  "demo_oracle =
     \<lparr> or_parse_uri = Some, or_parse_json = (\<lambda>_. Inl []), or_interval_at = (\<lambda>_. []), or_connector = Inr (), or_home_requests = [],
       or_foreign_requests = [] \<rparr>"

text \<open>
  A printed form of databases for the setting: every field in bytes of fixed width, so it can be read
  back and never gets shorter.
\<close>

definition demo_print :: "bytes \<Rightarrow> string" where
  "demo_print bs = map (\<lambda>b. char_of (unat b)) bs"

definition demo_scan :: "string \<Rightarrow> bytes" where
  "demo_scan s = map (\<lambda>ch. word_of_nat (of_char ch)) s"

definition demo_option :: "u64 option \<Rightarrow> bytes" where
  "demo_option x = (case x of None \<Rightarrow> replicate 9 0 | Some v \<Rightarrow> 1 # be_bytes 8 v)"

definition demo_unoption :: "bytes \<Rightarrow> u64 option" where
  "demo_unoption bs = (if hd bs = 0 then None else Some (be_word (tl bs)))"

definition demo_to_toml :: "database \<Rightarrow> string" where
  "demo_to_toml d = demo_print
     (be_bytes 20 (home_contract_address d) @ be_bytes 20 (foreign_contract_address d) @
      demo_option (home_deploy d) @ demo_option (foreign_deploy d) @ be_bytes 8 (checked_deposit_relay d) @
      be_bytes 8 (checked_withdraw_relay d) @ be_bytes 8 (checked_withdraw_confirm d))"

definition demo_from_toml :: "string \<Rightarrow> string + database" where
  "demo_from_toml s =
     (let bs = demo_scan s in
      if length bs \<noteq> 82 then Inl ''not a database''
      else Inr \<lparr> home_contract_address = be_word (subslice 0 20 bs), foreign_contract_address = be_word (subslice 20 40 bs),
             home_deploy = demo_unoption (subslice 40 49 bs), foreign_deploy = demo_unoption (subslice 49 58 bs),
             checked_deposit_relay = be_word (subslice 58 66 bs), checked_withdraw_relay = be_word (subslice 66 74 bs),
             checked_withdraw_confirm = be_word (subslice 74 82 bs) \<rparr>)"

lemma demo_scan_print [simp]: "demo_scan (demo_print bs) = bs"
proof -
  have "(word_of_nat (of_char (char_of (unat b) :: char)) :: u8) = b" for b :: u8
    using unat_less [of b] by (simp add: word_unat_eq_iff unat_of_nat)
  then show ?thesis
    by (simp add: demo_scan_def demo_print_def comp_def)
qed

lemma length_demo_option [simp]: "length (demo_option x) = 9"
  by (simp add: demo_option_def split: option.splits)

lemma demo_unoption_option [simp]: "demo_unoption (demo_option x) = x"
  by (simp add: demo_option_def demo_unoption_def be_word_be_bytes split: option.splits)

lemma demo_length [simp]: "length (demo_to_toml d) = 82"
  by (simp add: demo_to_toml_def demo_print_def)

lemma demo_from_to_toml [simp]: "demo_from_toml (demo_to_toml d) = Inr d"
  by (simp add: demo_from_toml_def demo_to_toml_def subslice_def be_word_be_bytes Let_def)

lemmas bridge_evals =
  create_bridge_def create_bridge_event_stream_def gas_stream_def bridge_poll_def event_stream_poll_def
  event_stream_body_def check_balances_def balance_check_poll_def balance_check_body_def create_balance_check_def
  option_or_def get_gas_prices_def relays_poll_def save_database_def database_save_def
  database_to_string_def overwrite_def

lemmas deposit_evals =
  create_deposit_relay_def deposit_logs_init_def deposit_relay_poll_def deposit_relay_body_def deposit_gas_def
  deposit_relay_payload_def

lemma demo_bridge_poll:
  "\<exists>b w b' v. create_bridge demo_oracle [[R_Deposit], []] [] None demo_app demo_database 42 42 demo_world = Ok (b, w) \<and>
     bridge_poll demo_to_toml demo_oracle demo_app (b, w) = Some ((b', v), Ok (Ready (Some ()))) \<and>
     checkpoint (br_database b') R_Deposit = 18 \<and> w_home_balance v \<noteq> None \<and> w_foreign_balance v \<noteq> None \<and>
     es_state (br_event_stream b') \<noteq> BS_Init"
  by (simp add: deposit_evals bridge_evals eval_defs)

text \<open>A run of the bridge with one checkpoint.\<close>

lemma demo_bridge_run:
  obtains b w b' v where "create_bridge demo_oracle [[R_Deposit], []] [] None demo_app demo_database 42 42 demo_world = Ok (b, w)"
    and "bridge_poll demo_to_toml demo_oracle demo_app (b, w) = Some ((b', v), Ok (Ready (Some ())))"
    and "checkpoint (br_database b') R_Deposit = 18"
    and "stream_run (bridge_poll demo_to_toml demo_oracle demo_app) flag_rely (b, w) [()] (b', v)"
    and "w_home_balance v \<noteq> None" and "w_foreign_balance v \<noteq> None"
    and "es_state (br_event_stream b') \<noteq> BS_Init"
proof -
  obtain b w b' v where p: "create_bridge demo_oracle [[R_Deposit], []] [] None demo_app demo_database 42 42 demo_world = Ok (b, w)"
      "bridge_poll demo_to_toml demo_oracle demo_app (b, w) = Some ((b', v), Ok (Ready (Some ())))"
      "checkpoint (br_database b') R_Deposit = 18" "w_home_balance v \<noteq> None" "w_foreign_balance v \<noteq> None"
      "es_state (br_event_stream b') \<noteq> BS_Init"
    using demo_bridge_poll by blast
  then show thesis
    using that stream_run_one [where poll = "bridge_poll demo_to_toml demo_oracle demo_app", OF p(2)] by blast
qed

theorem bridge_checkpoints_witness:
  "\<exists>b w b' v its. create_bridge demo_oracle [[R_Deposit], []] [] None demo_app demo_database 42 42 demo_world = Ok (b, w) \<and>
     stream_run (bridge_poll demo_to_toml demo_oracle demo_app) flag_rely (b, w) [()] (b', v) \<and>
     same_contracts demo_database (br_database b') \<and> tiles 10 its 18 \<and>
     (\<forall>it\<in>set its. relay_handles demo_app demo_database 42 42 v R_Deposit it)"
proof (rule demo_bridge_run)
  fix b w b' v
  assume p: "create_bridge demo_oracle [[R_Deposit], []] [] None demo_app demo_database 42 42 demo_world = Ok (b, w)"
      "checkpoint (br_database b') R_Deposit = 18"
      "stream_run (bridge_poll demo_to_toml demo_oracle demo_app) flag_rely (b, w) [()] (b', v)"
  note safe = bridge_checkpoints [OF p(1,3)]
  then obtain its where "tiles (checkpoint demo_database R_Deposit) its (checkpoint (br_database b') R_Deposit)"
      "\<forall>it\<in>set its. relay_handles demo_app demo_database 42 42 v R_Deposit it"
    by blast
  then show ?thesis
    using p safe by (intro exI conjI) auto
qed

theorem bridge_poll_refines_witness:
  "\<exists>b w b' v. create_bridge demo_oracle [[R_Deposit], []] [] None demo_app demo_database 42 42 demo_world = Ok (b, w) \<and>
     bridge_poll demo_to_toml demo_oracle demo_app (b, w) = Some ((b', v), Ok (Ready (Some ()))) \<and>
     advances demo_app demo_database 42 42 v (checkpoint (br_database b)) (checkpoint (br_database b'))"
proof (rule demo_bridge_run)
  fix b w b' v
  assume p: "create_bridge demo_oracle [[R_Deposit], []] [] None demo_app demo_database 42 42 demo_world = Ok (b, w)"
      "bridge_poll demo_to_toml demo_oracle demo_app (b, w) = Some ((b', v), Ok (Ready (Some ())))"
  from p bridge_poll_refines [OF p(1) stream_run.start p(2)] show ?thesis
    by auto
qed

theorem bridge_never_goes_back_witness:
  "\<exists>b w b' v. create_bridge demo_oracle [[R_Deposit], []] [] None demo_app demo_database 42 42 demo_world = Ok (b, w) \<and>
     stream_run (bridge_poll demo_to_toml demo_oracle demo_app) flag_rely (b, w) [()] (b', v) \<and>
     database_le (br_database b) (br_database b')"
proof (rule demo_bridge_run)
  fix b w b' v
  assume p: "create_bridge demo_oracle [[R_Deposit], []] [] None demo_app demo_database 42 42 demo_world = Ok (b, w)"
      "stream_run (bridge_poll demo_to_toml demo_oracle demo_app) flag_rely (b, w) [()] (b', v)"
  from p bridge_never_goes_back [OF p(1) stream_run.start p(2)] show ?thesis
    by blast
qed


theorem save_leaves_stale_tail_witness:
  "\<exists>rest. rest \<noteq> [] \<and> suffix rest (replicate 83 CHR ''x'') \<and>
     save_database demo_to_toml IO_Fine demo_database (Some (replicate 83 CHR ''x'')) =
       (Ok (), Some (demo_to_toml demo_database @ rest))"
  using save_leaves_stale_tail [of demo_to_toml demo_database "replicate 83 CHR ''x''"] by simp


lemma demo_event_poll:
  "\<exists>s w t v. create_bridge_event_stream demo_oracle [[R_Deposit], []] demo_app demo_database 42 42 demo_world = Ok (s, w) \<and>
     event_stream_poll demo_oracle demo_app (s, w) = Some ((t, v), Ok (Ready (Some (DepositRelay 18)))) \<and> es_state t \<noteq> BS_Init"
  by (simp add: deposit_evals bridge_evals eval_defs)

theorem event_stream_gate_witness:
  "\<exists>s w t v x. create_bridge_event_stream demo_oracle [[R_Deposit], []] demo_app demo_database 42 42 demo_world = Ok (s, w) \<and>
     stream_run (event_stream_poll demo_oracle demo_app) flag_rely (s, w) [DepositRelay 18] (t, v) \<and>
     w_home_balance v = Some x \<and> balance_answered demo_transport demo_node (w_home v) x"
proof -
  obtain s w t v where p: "create_bridge_event_stream demo_oracle [[R_Deposit], []] demo_app demo_database 42 42 demo_world = Ok (s, w)"
      "event_stream_poll demo_oracle demo_app (s, w) = Some ((t, v), Ok (Ready (Some (DepositRelay 18))))" "es_state t \<noteq> BS_Init"
    using demo_event_poll by blast
  have run: "stream_run (event_stream_poll demo_oracle demo_app) flag_rely (s, w) [DepositRelay 18] (t, v)"
    by (rule stream_run_one [where poll = "event_stream_poll demo_oracle demo_app", OF p(2)])
  from event_stream_gate [OF p(1) run p(3)] p(1) run show ?thesis
    by auto
qed

theorem event_stream_shutdown_witness:
  "\<exists>s w t v r. create_bridge_event_stream demo_oracle [] demo_app demo_database 42 42 (demo_world\<lparr>w_running := False\<rparr>) = Ok (s, w) \<and>
     event_stream_poll demo_oracle demo_app (s, w) = Some ((t, v), r) \<and> es_bridge t = es_bridge s"
proof -
  obtain s w where p: "create_bridge_event_stream demo_oracle [] demo_app demo_database 42 42 (demo_world\<lparr>w_running := False\<rparr>) = Ok (s, w)"
      "\<not> w_running w"
    by (simp add: bridge_evals Let_def)
  from event_stream_shutdown [OF p(1) stream_run.start p(2)] p(1) show ?thesis
    by blast
qed


section \<open>The program\<close>

text \<open>
  The program in the setting: an existing database, one checkpoint of the deposit relay, then a signal,
  so that it ends with exit code 3.
\<close>

definition demo_platform :: platform where
  "demo_platform =
     \<lparr> pf_connect = (\<lambda>_ _. Inr demo_transport), pf_open_keystore = (\<lambda>_. Inr ()), pf_unlock = (\<lambda>_ _ _. Inr ()),
       pf_sign = (\<lambda>_ _ _. Inr [1]), pf_read_file = (\<lambda>_. Inr ''secret''), pf_timer_interval = (\<lambda>_ _ _ _. [T_Tick, T_Tick]),
       pf_contracts = demo_contracts, pf_into_electrum = (\<lambda>_. 1), pf_tx_hash = (\<lambda>tx _. tx_nonce tx),
       pf_tx_rlp = (\<lambda>tx sig chain_id. Some (be_bytes 1 (tx_nonce tx) @ tx_data tx)), pf_keccak = (\<lambda>_. 3),
       pf_wakeups = (\<lambda>_. [[0]]), pf_log_info = True \<rparr>"

lemma demo_app_new_http: "app_new_http demo_platform demo_config ''db'' = Ok demo_app"
  by (simp add: app_new_http_def connections_new_http_def unlock_account_def node_password_def demo_platform_def
      demo_app_def demo_config_def Let_def)

definition demo_full_node :: load_node where
  "demo_full_node =
     \<lparr> ln_account = 9, ln_contract_bin = ''bin'', ln_request_timeout = Some 5, ln_poll_interval = Some 1,
       ln_required_confirmations = Some 2, ln_rpc_host = Some ''https://rpc'', ln_rpc_port = Some 443, ln_password = ''pw'',
       ln_gas_price_oracle_url = None, ln_gas_price_speed = None, ln_gas_price_timeout = Some 5,
       ln_default_gas_price = Some 3, ln_concurrent_http_requests = None \<rparr>"

definition demo_full_config :: load_config where
  "demo_full_config =
     (let tc = Some \<lparr> lt_gas = Some 10, lt_gas_price = None \<rparr> in
      \<lparr> lc_home = demo_full_node, lc_foreign = demo_full_node,
        lc_authorities = \<lparr> la_accounts = [9], la_required_signatures = 1 \<rparr>,
        lc_transactions = Some \<lparr> lts_home_deploy = tc, lts_foreign_deploy = tc, lts_deposit_relay = tc,
          lts_withdraw_confirm = tc, lts_withdraw_relay = tc \<rparr>,
        lc_estimated_gas_cost_of_withdraw = 0, lc_keystore = ''keys'' \<rparr>)"

definition demo_environment :: environment where
  "demo_environment =
     \<lparr> en_platform = demo_platform,
       en_parse_args = (\<lambda>_. Inr \<lparr> arg_config = ''config'', arg_database = ''db'', flag_version = False,
          flag_allow_insecure_rpc_endpoints = False \<rparr>),
       en_version = ''0.5.0'', en_deploy_feature = True, en_read_bin = (\<lambda>_. Ok [1]),
       en_config_toml = (\<lambda>_. Inr demo_full_config), en_open_config = (\<lambda>_. Inr (Inr [])), en_core_fault = None,
       en_from_toml = demo_from_toml, en_to_toml = demo_to_toml, en_show_path = id,
       en_database_file = Some (demo_to_toml demo_database), en_open_fault = None, en_read_fault = None,
       en_create_fault = None, en_first_write_fault = None, en_writes = [], en_oracle = demo_oracle,
       en_turns = [[R_Deposit], []], en_signal = (\<lambda>_. True) \<rparr>"

lemma demo_environment_fields [simp]:
  "en_from_toml demo_environment = demo_from_toml" "en_to_toml demo_environment = demo_to_toml"
  "en_database_file demo_environment = Some (demo_to_toml demo_database)" "en_open_fault demo_environment = None"
  "en_read_fault demo_environment = None" "en_writes demo_environment = []" "en_oracle demo_environment = demo_oracle"
  "en_turns demo_environment = [[R_Deposit], []]" "en_signal demo_environment = (\<lambda>_. True)"
  by (simp_all add: demo_environment_def)

lemma demo_connects: "cli_connect demo_environment [] st = Some (st, Inr demo_app)"
proof -
  have "config_load True (\<lambda>_. Ok [1]) (\<lambda>_. Inr demo_full_config) (\<lambda>_. Inr (Inr [])) ''config'' False = Ok demo_config"
    by (simp add: config_load_def config_load_from_str_def config_from_load_struct_def node_from_load_struct_def
        demo_full_config_def demo_full_node_def demo_config_def demo_node_def transactions_from_load_struct_def
        load_or_default_def transaction_config_from_load_struct_def starts_with_def default_defs Let_def)
  then show ?thesis
    by (simp add: cli_connect_def demo_environment_def bind_prog_def demo_app_new_http)
qed

definition demo_started :: world where
  "demo_started =
     \<lparr> w_home = \<lparr> ch_nonce = 0, ch_calls = [Net_version] \<rparr>, w_foreign = \<lparr> ch_nonce = 0, ch_calls = [Net_version] \<rparr>,
       w_home_balance = None, w_foreign_balance = None, w_home_gas_price = 0, w_foreign_gas_price = 0, w_running = True \<rparr>"

lemma demo_ids: "retrieve_chain_ids demo_environment demo_app (initial_state demo_environment) =
   Some ((Some (demo_to_toml demo_database), demo_started), Inr (42, 42))"
proof -
  have "parse_u64 ''42'' = Some 42"
    using parse_u64_decimal [of 42] by (simp add: demo_decimal)
  then show ?thesis
    by (simp add: retrieve_chain_ids_def initial_state_def bind_prog_def run_future_def core_run.simps on_home_def
        on_foreign_def chain_id_retrieval_poll_def chain_id_retrieval_body_def create_chain_id_retrieval_def
        must_def give_def demo_started_def eval_defs)
qed

definition demo_ready :: world where
  "demo_ready =
     \<lparr> w_home = \<lparr> ch_nonce = 7, ch_calls = [Eth_getTransactionCount 9 Pending, Net_version] \<rparr>,
       w_foreign = \<lparr> ch_nonce = 7, ch_calls = [Eth_getTransactionCount 9 Pending, Net_version] \<rparr>,
       w_home_balance = None, w_foreign_balance = None, w_home_gas_price = 0, w_foreign_gas_price = 0, w_running = True \<rparr>"

lemma demo_nonces: "initialize_nonces demo_environment demo_app (Some (demo_to_toml demo_database), demo_started) =
   Some ((Some (demo_to_toml demo_database), demo_ready), Inr ())"
  by (simp add: initialize_nonces_def bind_prog_def act_def run_future_def core_run.simps on_home_def on_foreign_def
      request_poll_def must_def give_def demo_started_def demo_ready_def eval_defs)

text \<open>The three polls of the bridge: a checkpoint, nothing to do, and the end after the signal.\<close>

lemma demo_three_polls:
  "\<exists>b w b1 v1 b2 v2 b3 v3.
     create_bridge demo_oracle [[R_Deposit], []] [] (Some (demo_to_toml demo_database)) demo_app demo_database 42 42 demo_ready = Ok (b, w) \<and>
     bridge_poll demo_to_toml demo_oracle demo_app (b, w) = Some ((b1, v1), Ok (Ready (Some ()))) \<and>
     bridge_poll demo_to_toml demo_oracle demo_app (b1, v1) = Some ((b2, v2), Ok NotReady) \<and>
     bridge_poll demo_to_toml demo_oracle demo_app (b2, v2\<lparr>w_running := False\<rparr>) =
       Some ((b3, v3), Err (from_kind ShutdownRequested))"
  by (simp add: demo_ready_def deposit_evals bridge_evals eval_defs)

lemma core_run_collect_steps:
  "poll t = Some (u, Ok (Ready (Some x))) \<Longrightarrow>
     core_run_collect signal poll acc t = core_run_collect signal poll (acc @ [True]) u"
  "poll t = Some ((s, w), Ok NotReady) \<Longrightarrow>
     core_run_collect signal poll acc t = core_run_collect signal poll acc (s, w\<lparr>w_running := w_running w \<and> \<not> signal w\<rparr>)"
  "poll t = Some (u, Err e) \<Longrightarrow> core_run_collect signal poll acc t = Some (u, Err e)"
  by (subst core_run_collect.simps, simp add: wait_event_def)+

lemma demo_run_bridge:
  "\<exists>out v e. run_bridge demo_environment demo_app demo_database 42 42 (Some (demo_to_toml demo_database), demo_ready) =
    Some ((out, v), Inl (Failed (UserFacingError 3 e)))"
proof -
  obtain b w b1 v1 b2 v2 b3 v3 where created:
      "create_bridge demo_oracle [[R_Deposit], []] [] (Some (demo_to_toml demo_database)) demo_app demo_database 42 42 demo_ready = Ok (b, w)"
    and polls: "bridge_poll demo_to_toml demo_oracle demo_app (b, w) = Some ((b1, v1), Ok (Ready (Some ())))"
      "bridge_poll demo_to_toml demo_oracle demo_app (b1, v1) = Some ((b2, v2), Ok NotReady)"
      "bridge_poll demo_to_toml demo_oracle demo_app (b2, v2\<lparr>w_running := False\<rparr>) =
        Some ((b3, v3), Err (from_kind ShutdownRequested))"
    using demo_three_polls by blast
  then have "core_run_collect (\<lambda>_. True) (bridge_poll demo_to_toml demo_oracle demo_app) [] (b, w) =
      Some ((b3, v3), Err (from_kind ShutdownRequested))"
    by (simp add: core_run_collect_steps)
  with created show ?thesis
    by (simp add: run_bridge_def stop_def from_kind_def exit_codes)
qed


end
