(* ===== verification/ContractLib.thy ===== *)
theory ContractLib
  imports Api Message
begin

text \<open>
  The libraries of \<^verbatim>\<open>contracts/bridge.sol\<close> (\<open>Helpers\<close>, \<open>MessageSigning\<close>, \<open>Message\<close>), which both bridge
  contracts are built on, and the part of the machine they use. A call that reverts, or that meets an
  invalid instruction, has the value \<open>None\<close>: the machine then undoes everything the transaction did.
  The hash function \<open>keccak256\<close> and the signature recovery \<open>ecrecover\<close> of the machine are parameters.
  The properties: the contracts hash and read messages exactly as the validators make them, and the
  check of signatures accepts exactly the signatures of enough different authorities.
\<close>

section \<open>The machine\<close>

text \<open>The sender, value and gas price of a call, and the transaction and the block it is in.\<close>

record call_context =
  cx_sender :: address
  cx_value :: u256
  cx_gasprice :: u256
  cx_tx_hash :: h256
  cx_block :: u256

type_synonym ecrecover = "h256 \<Rightarrow> u8 \<Rightarrow> h256 \<Rightarrow> h256 \<Rightarrow> address"

definition require :: "bool \<Rightarrow> 'a option \<Rightarrow> 'a option" where
  "require b k = (if b then k else None)"

text \<open>
  A \<open>bytes\<close> value in memory: its length in one word of 32 bytes, then its contents, padded with zeros.
  \<open>mload\<close> reads the word of 32 bytes that starts at an offset.
\<close>

definition memory_of :: "bytes \<Rightarrow> bytes" where
  "memory_of bs = be_bytes 32 (word_of_nat (length bs) :: u256) @ bs @ replicate 31 0"

definition mload :: "nat \<Rightarrow> bytes \<Rightarrow> u256" where
  "mload p memory = be_word (subslice p (p + 32) memory)"

text \<open>An array element; the machine stops at an index out of range.\<close>

definition array_get :: "'a list \<Rightarrow> nat \<Rightarrow> 'a option" where
  "array_get xs i = (if i < length xs then Some (xs ! i) else None)"

definition array_set :: "'a list \<Rightarrow> nat \<Rightarrow> 'a \<Rightarrow> 'a list option" where
  "array_set xs i x = (if i < length xs then Some (xs[i := x]) else None)"

section \<open>Helpers\<close>

fun addressArrayContains :: "address list \<Rightarrow> address \<Rightarrow> bool" where
  "addressArrayContains [] value = False"
| "addressArrayContains (a # array) value = (if a = value then True else addressArrayContains array value)"

text \<open>
  The two loops of \<open>uintToString\<close>: one counts the digits, the other writes them from the end of the
  array. After the last digit the index would wrap, but it is not used again.
\<close>

fun count_digits :: "nat \<Rightarrow> nat \<Rightarrow> nat" where
  "count_digits len n =
     (let len = len + 1; n = n div 10 in if n \<noteq> 0 then count_digits len n else len)"

declare count_digits.simps [simp del]

fun write_digits :: "bytes \<Rightarrow> nat \<Rightarrow> nat \<Rightarrow> bytes option" where
  "write_digits result i n =
     Option.bind (array_set result i (word_of_nat (48 + n mod 10))) (\<lambda>result.
     let n' = n div 10 in if n' \<noteq> 0 then write_digits result (i - 1) n' else Some result)"

declare write_digits.simps [simp del]

definition uintToString :: "u256 \<Rightarrow> bytes option" where
  "uintToString inputValue =
     (let len = count_digits 0 (unat inputValue) in
      write_digits (replicate len 0) (len - 1) (unat inputValue))"

section \<open>Messages\<close>

definition hashMessage :: "(bytes \<Rightarrow> h256) \<Rightarrow> bytes \<Rightarrow> h256 option" where
  "hashMessage keccak message =
     map_option (\<lambda>digits.
       keccak (ascii ([CHR 0x19] @ ''Ethereum Signed Message:'' @ [CHR 0x0A]) @ digits @ message))
       (uintToString (word_of_nat (length message)))"

definition recoverAddressFromSignedMessage ::
    "(bytes \<Rightarrow> h256) \<Rightarrow> ecrecover \<Rightarrow> bytes \<Rightarrow> bytes \<Rightarrow> address option" where
  "recoverAddressFromSignedMessage keccak ecrecover signature message =
     require (length signature = 65)
       (let memory = memory_of signature;
            r = mload 0x20 memory;
            s = mload 0x40 memory;
            v = (ucast (drop_bit 248 (mload 0x60 memory)) :: u8)
        in map_option (\<lambda>hash. ecrecover hash v r s) (hashMessage keccak message))"

definition getRecipient :: "bytes \<Rightarrow> address" where
  "getRecipient message = ucast (mload 20 (memory_of message))"

definition getValue :: "bytes \<Rightarrow> u256" where
  "getValue message = mload 52 (memory_of message)"

definition getTransactionHash :: "bytes \<Rightarrow> h256" where
  "getTransactionHash message = mload 84 (memory_of message)"

definition getHomeGasPrice :: "bytes \<Rightarrow> u256" where
  "getHomeGasPrice message = mload 116 (memory_of message)"

section \<open>Enough valid signatures\<close>

text \<open>
  The loop of \<open>hasEnoughValidSignatures\<close>, with \<open>n\<close> iterations still to run. \<open>Some False\<close> is the result
  \<open>false\<close>, \<open>None\<close> an index out of range.
\<close>

fun check_signatures ::
    "ecrecover \<Rightarrow> h256 \<Rightarrow> u8 list \<Rightarrow> h256 list \<Rightarrow> h256 list \<Rightarrow> address list \<Rightarrow> address list \<Rightarrow> nat \<Rightarrow> nat \<Rightarrow> bool option" where
  "check_signatures ecrecover hash vs rs ss allowed encountered i 0 = Some True"
| "check_signatures ecrecover hash vs rs ss allowed encountered i (Suc n) =
     Option.bind (array_get vs i) (\<lambda>v.
     Option.bind (array_get rs i) (\<lambda>r.
     Option.bind (array_get ss i) (\<lambda>s.
     let recovered = ecrecover hash v r s in
     if \<not> addressArrayContains allowed recovered then Some False
     else if addressArrayContains encountered recovered then Some False
     else Option.bind (array_set encountered i recovered) (\<lambda>encountered.
       check_signatures ecrecover hash vs rs ss allowed encountered (i + 1) n))))"

definition hasEnoughValidSignatures ::
    "(bytes \<Rightarrow> h256) \<Rightarrow> ecrecover \<Rightarrow> bytes \<Rightarrow> u8 list \<Rightarrow> h256 list \<Rightarrow> h256 list \<Rightarrow> address list \<Rightarrow> u256 \<Rightarrow> bool option" where
  "hasEnoughValidSignatures keccak ecrecover message vs rs ss allowed_signers requiredSignatures =
     (if length vs < unat requiredSignatures then Some False
      else Option.bind (hashMessage keccak message) (\<lambda>hash.
        check_signatures ecrecover hash vs rs ss allowed_signers
          (replicate (length allowed_signers) 0) 0 (unat requiredSignatures)))"

section \<open>Lemmas\<close>

lemma addressArrayContains_iff [simp]: "addressArrayContains array value \<longleftrightarrow> value \<in> set array"
  by (induction array) auto

lemma require_eq_Some [simp]: "require b k = Some x \<longleftrightarrow> b \<and> k = Some x"
  by (simp add: require_def)

lemma require_eq_None: "require b k = None \<longleftrightarrow> (b \<longrightarrow> k = None)"
  by (simp add: require_def)

lemma array_get_Some [simp]: "array_get xs i = Some x \<longleftrightarrow> i < length xs \<and> x = xs ! i"
  by (auto simp: array_get_def)

text \<open>The digits of a number, as the contract and the validators write them.\<close>

lemma count_digits: "count_digits len n = len + length (decimal n)"
proof (induction len n rule: count_digits.induct)
  case (1 len n)
  show ?case
  proof (cases "n < 10")
    case True
    then show ?thesis
      by (simp add: count_digits.simps [of len n] decimal.simps [of n])
  next
    case False
    then have "n div 10 \<noteq> 0" by simp
    with 1 have "count_digits (len + 1) (n div 10) = len + 1 + length (decimal (n div 10))" by simp
    then show ?thesis
      using False by (simp add: count_digits.simps [of len n] decimal.simps [of n] Let_def)
  qed
qed

lemma ascii_append [simp]: "ascii (s @ t) = ascii s @ ascii t"
  by (simp add: ascii_def)

lemma ascii_digit: "ascii [char_of (48 + n mod (10 :: nat))] = [word_of_nat (48 + n mod 10)]"
proof -
  have "(48 + n mod 10) mod 256 = 48 + n mod 10" by simp
  then show ?thesis
    by (simp only: ascii_def list.map of_char_of)
      (metis of_nat_of_char of_char_of)
qed

lemma write_digits:
  "length (decimal n) = Suc i \<Longrightarrow> i < length result \<Longrightarrow>
   write_digits result i n = Some (ascii (decimal n) @ drop (Suc i) result)"
proof (induction n arbitrary: result i rule: decimal.induct)
  case (1 n)
  let ?d = "word_of_nat (48 + n mod 10) :: u8"
  show ?case
  proof (cases "n < 10")
    case True
    then have "i = 0" using "1.prems" by (simp add: decimal.simps [of n])
    then show ?thesis
      using True "1.prems" ascii_digit [of n]
      by (cases result) (simp_all add: write_digits.simps [of _ _ n] decimal.simps [of n] array_set_def)
  next
    case False
    then have split: "decimal n = decimal (n div 10) @ [char_of (48 + n mod 10)]"
      by (simp add: decimal.simps [of n])
    then obtain j where i: "i = Suc j" and j: "length (decimal (n div 10)) = Suc j"
      using "1.prems" by (cases i) (auto simp: decimal.simps [of "n div 10"] split: if_splits)
    have "write_digits (result[i := ?d]) j (n div 10) =
        Some (ascii (decimal (n div 10)) @ drop (Suc j) (result[i := ?d]))"
      using "1.IH" [OF False j, of "result[i := ?d]"] "1.prems" i by simp
    moreover have "drop (Suc j) (result[i := ?d]) = ?d # drop (Suc i) result"
      using "1.prems" i by (simp add: drop_update_swap Cons_nth_drop_Suc [symmetric])
    moreover have "n div 10 \<noteq> 0" using False by simp
    ultimately show ?thesis
      using "1.prems" i split ascii_digit [of n]
      by (simp add: write_digits.simps [of result "Suc j" n] array_set_def Let_def)
  qed
qed

lemma decimal_not_Nil [simp]: "decimal n \<noteq> []"
  by (simp add: decimal.simps [of n])

lemma uintToString_decimal: "uintToString n = Some (ascii (decimal (unat n)))"
proof -
  have "length (decimal (unat n)) = Suc (length (decimal (unat n)) - 1)" by simp
  then show ?thesis
    by (simp add: uintToString_def Let_def count_digits write_digits)
qed

text \<open>Messages in memory.\<close>

lemma subslice_append_drop:
  "length xs \<le> a \<Longrightarrow> subslice a b (xs @ ys) = subslice (a - length xs) (b - length xs) ys"
  by (simp add: subslice_def diff_diff_eq)

lemma subslice_append_take: "b \<le> length xs \<Longrightarrow> subslice a b (xs @ ys) = subslice a b xs"
  by (simp add: subslice_def)

lemma mload_contents:
  assumes "32 \<le> p" and "p \<le> length bs"
  shows "mload p (memory_of bs) = be_word (subslice (p - 32) p bs)"
  using assms by (simp add: mload_def memory_of_def subslice_append_drop subslice_append_take)

lemma of_be_append: "of_be (xs @ ys) = of_be xs * 256 ^ length ys + of_be ys"
  by (induction ys rule: rev_induct) (simp_all add: algebra_simps flip: append_assoc)

lemma ucast_be_word:
  assumes "LENGTH('b::len) = 8 * length ys" and "LENGTH('b) \<le> LENGTH('a::len)"
  shows "ucast (be_word (xs @ ys) :: 'a word) = (be_word ys :: 'b word)"
proof -
  have "(256 :: nat) ^ length ys = 2 ^ LENGTH('b)"
    using assms(1) by (simp add: power_mult)
  then have "(word_of_nat (of_be (xs @ ys)) :: 'b word) = be_word ys"
    by (simp add: be_word_def of_be_append word_unat_eq_iff unat_of_nat del: of_nat_add of_nat_mult of_nat_power)
  moreover have "ucast (word_of_nat n :: 'a word) = (word_of_nat n :: 'b word)" for n
    using assms(2) by (simp add: word_unat_eq_iff unsigned_ucast_eq unat_of_nat take_bit_eq_mod mod_mod_cancel le_imp_power_dvd)
  ultimately show ?thesis
    by (simp add: be_word_def)
qed

lemma high_byte_be_word:
  assumes "length bs = 32" shows "(ucast (drop_bit 248 (be_word bs :: u256)) :: u8) = hd bs"
proof -
  obtain b ys where bs: "bs = b # ys" and ys: "length ys = 31"
    using assms by (cases bs) auto
  have lt: "of_be ys < 2 ^ 248"
    using of_be_bound [of ys] ys by (simp add: power_mult [symmetric])
  have "of_be bs = unat b * 2 ^ 248 + of_be ys"
    using of_be_append [of "[b]" ys] of_be_snoc [of "[]" b] ys by (simp add: bs)
  moreover have "of_be bs < 2 ^ 256"
    using of_be_bound [of bs] assms by (simp add: power_mult [symmetric])
  ultimately have "unat (be_word bs :: u256) = unat b * 2 ^ 248 + of_be ys"
    by (simp only: be_word_def unat_of_nat mod_less len_of_numeral_defs) simp
  moreover have "unat (drop_bit 248 w) = unat w div 2 ^ 248" for w :: u256
    by (simp add: drop_bit_eq_div unat_div)
  ultimately have "unat (drop_bit 248 (be_word bs :: u256)) = unat b"
    using lt by simp
  then show ?thesis
    using unat_less [of b] by (simp add: bs word_unat_eq_iff unsigned_ucast_eq take_bit_eq_mod)
qed

text \<open>What the contracts read of a message is what the validators wrote.\<close>

lemma getters_of_message:
  "getRecipient (message_to_bytes m) = m_recipient m"
  "getValue (message_to_bytes m) = m_value m"
  "getTransactionHash (message_to_bytes m) = m_sidenet_transaction_hash m"
  "getHomeGasPrice (message_to_bytes m) = m_mainnet_gas_price m"
proof -
  let ?l = "be_bytes 32 (word_of_nat (length (message_to_bytes m)) :: u256)"
  have "subslice 20 52 (memory_of (message_to_bytes m)) = drop 20 ?l @ be_bytes 20 (m_recipient m)"
    by (simp add: memory_of_def message_to_bytes_append subslice_def)
  then show "getRecipient (message_to_bytes m) = m_recipient m"
    by (simp add: getRecipient_def mload_def ucast_be_word codec_simps)
  have "subslice 52 84 (memory_of (message_to_bytes m)) = be_bytes 32 (m_value m)"
    "subslice 84 116 (memory_of (message_to_bytes m)) = be_bytes 32 (m_sidenet_transaction_hash m)"
    "subslice 116 148 (memory_of (message_to_bytes m)) = be_bytes 32 (m_mainnet_gas_price m)"
    by (simp_all add: memory_of_def message_to_bytes_append subslice_def)
  then show "getValue (message_to_bytes m) = m_value m"
    "getTransactionHash (message_to_bytes m) = m_sidenet_transaction_hash m"
    "getHomeGasPrice (message_to_bytes m) = m_mainnet_gas_price m"
    by (simp_all add: getValue_def getTransactionHash_def getHomeGasPrice_def mload_def codec_simps)
qed

lemma hashMessage_eth_data_hash:
  assumes "length message < 2 ^ 256"
  shows "hashMessage keccak message = Some (eth_data_hash keccak message)"
  using assms
  by (simp add: hashMessage_def uintToString_decimal eth_data_hash_def eth_data_preimage_def unat_of_nat ascii_def)

text \<open>The components of a signature, read from memory.\<close>

lemma recover_components:
  assumes "length message < 2 ^ 256"
  shows "recoverAddressFromSignedMessage keccak ecrecover (signature_to_bytes sg) message =
    Some (ecrecover (eth_data_hash keccak message) (sig_v sg) (sig_r sg) (sig_s sg))"
proof -
  let ?m = "memory_of (signature_to_bytes sg)"
  have "subslice 0x20 (0x20 + 32) ?m = be_bytes 32 (sig_r sg)" "subslice 0x40 (0x40 + 32) ?m = be_bytes 32 (sig_s sg)"
    "subslice 0x60 (0x60 + 32) ?m = sig_v sg # replicate 31 0"
    by (simp_all add: memory_of_def signature_to_bytes_append subslice_def)
  then have "mload 0x20 ?m = sig_r sg" "mload 0x40 ?m = sig_s sg"
    "ucast (drop_bit 248 (mload 0x60 ?m)) = sig_v sg"
    using high_byte_be_word [of "sig_v sg # replicate 31 0"]
    by (simp_all add: mload_def codec_simps)
  then show ?thesis
    using assms
    by (simp add: recoverAddressFromSignedMessage_def require_def hashMessage_eth_data_hash
        signature_to_bytes_append Let_def)
qed

text \<open>The check of signatures.\<close>

lemma check_signatures_True:
  assumes "length front = i" and "i + n \<le> length allowed" and "i + n \<le> length vs"
  shows "check_signatures ecrecover hash vs rs ss allowed (front @ replicate (length allowed - i) 0) i n = Some True \<longleftrightarrow>
    (let signers = map (\<lambda>j. ecrecover hash (vs ! j) (rs ! j) (ss ! j)) [i..<i + n] in
     (n = 0 \<or> i + n \<le> length rs \<and> i + n \<le> length ss) \<and> distinct signers \<and>
     set signers \<subseteq> set allowed - insert 0 (set front))"
  using assms
proof (induction n arbitrary: front i)
  case 0
  then show ?case by simp
next
  case (Suc n)
  let ?a = "ecrecover hash (vs ! i) (rs ! i) (ss ! i)"
  have room: "i < length allowed" "i < length vs" using Suc.prems by simp_all
  then have enc: "array_set (front @ replicate (length allowed - i) 0) i ?a =
      Some ((front @ [?a]) @ replicate (length allowed - Suc i) 0)" (is "_ = Some ?enc")
    using Suc.prems(1) by (simp add: array_set_def list_update_append flip: Suc_diff_Suc)
  define S where "S = map (\<lambda>j. ecrecover hash (vs ! j) (rs ! j) (ss ! j)) [Suc i..<Suc i + n]"
  have upt: "map (\<lambda>j. ecrecover hash (vs ! j) (rs ! j) (ss ! j)) [i..<i + Suc n] = ?a # S"
    by (simp add: S_def upt_rec)
  have seen: "set (front @ replicate (length allowed - i) 0) = insert 0 (set front)"
    using room by auto
  show ?case
  proof (cases "i < length rs \<and> i < length ss \<and> ?a \<in> set allowed \<and> ?a \<notin> insert 0 (set front)")
    case True
    then have "check_signatures ecrecover hash vs rs ss allowed (front @ replicate (length allowed - i) 0) i (Suc n) =
        check_signatures ecrecover hash vs rs ss allowed ?enc (Suc i) n"
      using room enc seen by (simp add: array_get_def)
    also have "\<dots> = Some True \<longleftrightarrow> (n = 0 \<or> Suc i + n \<le> length rs \<and> Suc i + n \<le> length ss) \<and> distinct S \<and>
        set S \<subseteq> set allowed - insert 0 (set (front @ [?a]))"
      using Suc.IH [of "front @ [?a]" "Suc i"] Suc.prems by (simp add: S_def Let_def del: upt_Suc)
    finally show ?thesis
      using True unfolding upt Let_def by auto
  next
    case False
    then have "check_signatures ecrecover hash vs rs ss allowed (front @ replicate (length allowed - i) 0) i (Suc n) \<noteq> Some True"
      using room seen by (auto simp: array_get_def Let_def)
    then show ?thesis
      using False unfolding upt Let_def by auto
  qed
qed

text \<open>
  The signers of the first \<open>n\<close> signatures.
\<close>

definition signers :: "ecrecover \<Rightarrow> h256 \<Rightarrow> u8 list \<Rightarrow> h256 list \<Rightarrow> h256 list \<Rightarrow> nat \<Rightarrow> address list" where
  "signers ecrecover hash vs rs ss n = map (\<lambda>j. ecrecover hash (vs ! j) (rs ! j) (ss ! j)) [0..<n]"

lemma length_signers [simp]: "length (signers ecrecover hash vs rs ss n) = n"
  by (simp add: signers_def)

lemma hasEnoughValidSignatures_iff:
  assumes "unat required \<le> length allowed" and "0 < unat required" and "length message < 2 ^ 256"
  shows "hasEnoughValidSignatures keccak ecrecover message vs rs ss allowed required = Some True \<longleftrightarrow>
    (let n = unat required; who = signers ecrecover (eth_data_hash keccak message) vs rs ss n in
     n \<le> length vs \<and> n \<le> length rs \<and> n \<le> length ss \<and> distinct who \<and> set who \<subseteq> set allowed - {0})"
proof (cases "length vs < unat required")
  case True
  then show ?thesis
    by (simp add: hasEnoughValidSignatures_def Let_def)
next
  case False
  then show ?thesis
    using check_signatures_True [of "[]" 0 "unat required" allowed vs] assms
    by (auto simp: hasEnoughValidSignatures_def hashMessage_eth_data_hash signers_def Let_def)
qed

lemma signers_map:
  "signers ecrecover hash (map sig_v sgs) (map sig_r sgs) (map sig_s sgs) (length sgs) =
   map (\<lambda>sg. ecrecover hash (sig_v sg) (sig_r sg) (sig_s sg)) sgs"
  by (rule nth_equalityI) (simp_all add: signers_def)

section \<open>Properties\<close>

text \<open>
  C21. The contracts understand the messages of the validators: from the bytes of a message they read
  exactly its recipient, value, transaction hash and gas price, and they recover signers from the very
  hash that the validators sign.
\<close>

theorem contracts_read_messages:
  "getRecipient (message_to_bytes m) = m_recipient m \<and> getValue (message_to_bytes m) = m_value m \<and>
   getTransactionHash (message_to_bytes m) = m_sidenet_transaction_hash m \<and>
   getHomeGasPrice (message_to_bytes m) = m_mainnet_gas_price m \<and>
   hashMessage keccak (message_to_bytes m) = Some (eth_data_hash keccak (message_to_bytes m)) \<and>
   recoverAddressFromSignedMessage keccak ecrecover (signature_to_bytes sg) (message_to_bytes m) =
     Some (ecrecover (eth_data_hash keccak (message_to_bytes m)) (sig_v sg) (sig_r sg) (sig_s sg))"
  using message_codec.enc_length [of m]
  by (simp add: getters_of_message hashMessage_eth_data_hash recover_components MESSAGE_LENGTH_def)


end
