(* ===== verification/HomeContract.thy ===== *)
theory HomeContract
  imports ContractLib
begin

text \<open>
  \<^verbatim>\<open>contracts/bridge.sol\<close>, the contract \<open>HomeBridge\<close> with the contracts it inherits from: it takes deposits
  on the home chain and pays out a withdrawal once enough authorities have signed its message. The
  state is the storage of the contract, the balances of all accounts, and the events with the
  transactions they were emitted in. The properties: every payment was signed by enough different
  authorities, no foreign transaction is paid twice, and a payment is exactly the value of its message.
\<close>

section \<open>Definitions\<close>

datatype home_event =
  H_Deposit address u256
| H_Withdraw address u256
| H_GasConsumptionLimitsUpdated u256

record home_bridge =
  hb_deployedAtBlock :: u256
  hb_gasLimitWithdrawRelay :: u256
  hb_requiredSignatures :: u256
  hb_estimatedGasCostOfWithdraw :: u256
  hb_authorities :: "address list"
  hb_withdraws :: "h256 \<Rightarrow> bool"

record home_chain =
  hc_bridge :: home_bridge
  hc_balance :: "address \<Rightarrow> u256"
  hc_log :: "(h256 \<times> home_event) list"

definition emit_home :: "call_context \<Rightarrow> home_event \<Rightarrow> home_chain \<Rightarrow> home_chain" where
  "emit_home cx e s = s\<lparr>hc_log := hc_log s @ [(cx_tx_hash cx, e)]\<rparr>"

text \<open>
  Ether moves only if the account has it; a balance never overflows, since there is less ether than
  that.
\<close>

definition move_ether :: "address \<Rightarrow> address \<Rightarrow> u256 \<Rightarrow> (address \<Rightarrow> u256) \<Rightarrow> (address \<Rightarrow> u256) option" where
  "move_ether src dst v b =
     require (v \<le> b src)
       (let b = b(src := b src - v) in
        require (unat (b dst) + unat v < 2 ^ 256) (Some (b(dst := b dst + v))))"

definition HomeBridge ::
    "call_context \<Rightarrow> u256 \<Rightarrow> address list \<Rightarrow> u256 \<Rightarrow> home_bridge option" where
  "HomeBridge cx requiredSignaturesParam authoritiesParam estimatedGasCostOfWithdrawParam =
     require (cx_value cx = 0)
     (require (requiredSignaturesParam \<noteq> 0)
     (require (unat requiredSignaturesParam \<le> length authoritiesParam)
       (Some \<lparr> hb_deployedAtBlock = cx_block cx, hb_gasLimitWithdrawRelay = 0,
               hb_requiredSignatures = requiredSignaturesParam,
               hb_estimatedGasCostOfWithdraw = estimatedGasCostOfWithdrawParam,
               hb_authorities = authoritiesParam, hb_withdraws = (\<lambda>_. False) \<rparr>)))"

text \<open>The fallback function, which takes deposits. \<open>this\<close> is the address of the contract.\<close>

definition home_fallback :: "address \<Rightarrow> call_context \<Rightarrow> home_chain \<Rightarrow> home_chain option" where
  "home_fallback this cx s =
     map_option (\<lambda>b. emit_home cx (H_Deposit (cx_sender cx) (cx_value cx)) (s\<lparr>hc_balance := b\<rparr>))
       (move_ether (cx_sender cx) this (cx_value cx) (hc_balance s))"

text \<open>
  \<open>dst.transfer(v)\<close> runs the code of the receiving account with gas for nothing but an event, so that it
  can accept or reject (\<open>accepts\<close>) but not call back. The contract itself accepts with its fallback.
\<close>

definition pay :: "address \<Rightarrow> (address \<Rightarrow> u256 \<Rightarrow> bool) \<Rightarrow> call_context \<Rightarrow> address \<Rightarrow> u256 \<Rightarrow> home_chain \<Rightarrow> home_chain option" where
  "pay this accepts cx dst v s =
     (if dst = this then home_fallback this (cx\<lparr>cx_sender := this, cx_value := v\<rparr>) s
      else require (accepts dst v)
        (map_option (\<lambda>b. s\<lparr>hc_balance := b\<rparr>) (move_ether this dst v (hc_balance s))))"

definition home_withdraw ::
    "(bytes \<Rightarrow> h256) \<Rightarrow> ecrecover \<Rightarrow> address \<Rightarrow> (address \<Rightarrow> u256 \<Rightarrow> bool) \<Rightarrow> call_context \<Rightarrow>
     u8 list \<Rightarrow> h256 list \<Rightarrow> h256 list \<Rightarrow> bytes \<Rightarrow> home_chain \<Rightarrow> home_chain option" where
  "home_withdraw keccak ecrecover this accepts cx vs rs ss message s =
     require (cx_value cx = 0)
     (require (length message = 116)
     (Option.bind (hasEnoughValidSignatures keccak ecrecover message vs rs ss
         (hb_authorities (hc_bridge s)) (hb_requiredSignatures (hc_bridge s))) (\<lambda>enough.
      require enough
     (let recipient = getRecipient message;
          v = getValue message;
          hash = getTransactionHash message;
          homeGasPrice = getHomeGasPrice message
      in require (recipient = cx_sender cx \<or> cx_gasprice cx = homeGasPrice)
        (require (\<not> hb_withdraws (hc_bridge s) hash)
        (let s = s\<lparr>hc_bridge := (hc_bridge s)\<lparr>hb_withdraws := (hb_withdraws (hc_bridge s))(hash := True)\<rparr>\<rparr>;
             estimatedWeiCostOfWithdraw = hb_estimatedGasCostOfWithdraw (hc_bridge s) * homeGasPrice;
             valueRemainingAfterSubtractingCost = v - estimatedWeiCostOfWithdraw
         in Option.bind (pay this accepts cx recipient valueRemainingAfterSubtractingCost s) (\<lambda>s.
            Option.bind (pay this accepts cx (cx_sender cx) estimatedWeiCostOfWithdraw s) (\<lambda>s.
            Some (emit_home cx (H_Withdraw recipient valueRemainingAfterSubtractingCost) s)))))))))"

text \<open>Anyone may set the gas limit; nothing in the contract uses it.\<close>

definition setGasLimitWithdrawRelay :: "call_context \<Rightarrow> u256 \<Rightarrow> home_chain \<Rightarrow> home_chain option" where
  "setGasLimitWithdrawRelay cx gas s =
     require (cx_value cx = 0)
       (Some (emit_home cx (H_GasConsumptionLimitsUpdated gas)
         (s\<lparr>hc_bridge := (hc_bridge s)\<lparr>hb_gasLimitWithdrawRelay := gas\<rparr>\<rparr>)))"

text \<open>
  Histories of the home chain, with the messages of the withdrawals that went through. Between the
  calls of the contract other transactions may change every balance, though they cannot take ether
  from the contract. A call that reverts changes nothing.
\<close>

inductive home_run ::
    "(bytes \<Rightarrow> h256) \<Rightarrow> ecrecover \<Rightarrow> address \<Rightarrow> home_chain \<Rightarrow> bytes list \<Rightarrow> home_chain \<Rightarrow> bool"
  for keccak ecrecover this where
  start: "home_run keccak ecrecover this s [] s"
| deposit: "home_run keccak ecrecover this s ms t \<Longrightarrow> home_fallback this cx t = Some u \<Longrightarrow>
    home_run keccak ecrecover this s ms u"
| withdraw: "home_run keccak ecrecover this s ms t \<Longrightarrow>
    home_withdraw keccak ecrecover this accepts cx vs rs ss message t = Some u \<Longrightarrow>
    home_run keccak ecrecover this s (ms @ [message]) u"
| limit: "home_run keccak ecrecover this s ms t \<Longrightarrow> setGasLimitWithdrawRelay cx gas t = Some u \<Longrightarrow>
    home_run keccak ecrecover this s ms u"
| others: "home_run keccak ecrecover this s ms t \<Longrightarrow> hc_balance t this \<le> b this \<Longrightarrow>
    home_run keccak ecrecover this s ms (t\<lparr>hc_balance := b\<rparr>)"

section \<open>Lemmas\<close>

lemma HomeBridge_Some:
  "HomeBridge cx r as g = Some b \<longleftrightarrow> cx_value cx = 0 \<and> r \<noteq> 0 \<and> unat r \<le> length as \<and>
    b = \<lparr> hb_deployedAtBlock = cx_block cx, hb_gasLimitWithdrawRelay = 0, hb_requiredSignatures = r,
          hb_estimatedGasCostOfWithdraw = g, hb_authorities = as, hb_withdraws = (\<lambda>_. False) \<rparr>"
  by (auto simp: HomeBridge_def)

lemma move_ether_Some:
  assumes "move_ether src dst v b = Some b'"
  shows "v \<le> b src"
    and "src \<noteq> dst \<Longrightarrow> unat (b' src) + unat v = unat (b src) \<and> unat (b' dst) = unat (b dst) + unat v"
    and "a \<noteq> src \<Longrightarrow> a \<noteq> dst \<Longrightarrow> b' a = b a" and "src = dst \<Longrightarrow> b' = b"
  using assms unat_add_lem [of "b dst" v]
  by (auto simp: move_ether_def Let_def unat_sub word_le_nat_alt)

lemma home_fallback_keeps: "home_fallback this cx s = Some t \<Longrightarrow> hc_bridge t = hc_bridge s"
  by (auto simp: home_fallback_def emit_home_def)

lemma pay_keeps: "pay this accepts cx dst v s = Some t \<Longrightarrow> hc_bridge t = hc_bridge s"
  by (auto simp: pay_def dest: home_fallback_keeps split: if_splits)

lemma pay_moves:
  "pay this accepts cx dst v s = Some t \<Longrightarrow> dst \<noteq> this \<Longrightarrow> move_ether this dst v (hc_balance s) = Some (hc_balance t)"
  by (auto simp: pay_def)

text \<open>What has to hold for a withdrawal to go through, and what it does to the contract.\<close>

lemma home_withdraw_Some:
  assumes "home_withdraw keccak ecrecover this accepts cx vs rs ss message s = Some t"
  obtains "length message = 116"
    and "hasEnoughValidSignatures keccak ecrecover message vs rs ss (hb_authorities (hc_bridge s))
      (hb_requiredSignatures (hc_bridge s)) = Some True"
    and "\<not> hb_withdraws (hc_bridge s) (getTransactionHash message)"
    and "getRecipient message = cx_sender cx \<or> cx_gasprice cx = getHomeGasPrice message"
    and "hc_bridge t =
      (hc_bridge s)\<lparr>hb_withdraws := (hb_withdraws (hc_bridge s))(getTransactionHash message := True)\<rparr>"
  using assms
  by (auto simp: home_withdraw_def bind_eq_Some_conv Let_def emit_home_def dest!: pay_keeps)

section \<open>Specification\<close>

text \<open>A quorum of authorities has signed a message.\<close>

definition quorum_signed :: "(bytes \<Rightarrow> h256) \<Rightarrow> ecrecover \<Rightarrow> address list \<Rightarrow> u256 \<Rightarrow> bytes \<Rightarrow> bool" where
  "quorum_signed keccak ecrecover authorities required message \<longleftrightarrow>
     (\<exists>A \<subseteq> set authorities - {0}. card A = unat required \<and>
        (\<forall>a\<in>A. \<exists>v r s. ecrecover (eth_data_hash keccak message) v r s = a))"

lemma enough_signatures_quorum:
  assumes "hasEnoughValidSignatures keccak ecrecover message vs rs ss authorities required = Some True"
    and "unat required \<le> length authorities" and "required \<noteq> 0" and "length message = 116"
  shows "quorum_signed keccak ecrecover authorities required message"
proof -
  let ?who = "signers ecrecover (eth_data_hash keccak message) vs rs ss (unat required)"
  have "distinct ?who" and "set ?who \<subseteq> set authorities - {0}"
    using assms hasEnoughValidSignatures_iff [of required authorities message]
    by (auto simp: Let_def unat_gt_0)
  moreover have "\<forall>a\<in>set ?who. \<exists>v r s. ecrecover (eth_data_hash keccak message) v r s = a"
    by (auto simp: signers_def)
  ultimately show ?thesis
    unfolding quorum_signed_def
    by (intro exI [of _ "set ?who"]) (simp add: distinct_card)
qed

definition home_inv ::
    "(bytes \<Rightarrow> h256) \<Rightarrow> ecrecover \<Rightarrow> address list \<Rightarrow> u256 \<Rightarrow> bytes list \<Rightarrow> home_chain \<Rightarrow> bool" where
  "home_inv keccak ecrecover authorities required ms s \<longleftrightarrow>
     hb_authorities (hc_bridge s) = authorities \<and> hb_requiredSignatures (hc_bridge s) = required \<and>
     distinct (map getTransactionHash ms) \<and>
     (\<forall>h. hb_withdraws (hc_bridge s) h \<longleftrightarrow> h \<in> getTransactionHash ` set ms) \<and>
     (\<forall>m\<in>set ms. length m = 116 \<and> quorum_signed keccak ecrecover authorities required m)"

lemma home_inv_cong:
  "hc_bridge t = hc_bridge s \<Longrightarrow> home_inv keccak ecrecover authorities required ms t =
     home_inv keccak ecrecover authorities required ms s"
  by (simp add: home_inv_def)

lemma home_inv_withdraw:
  assumes inv: "home_inv keccak ecrecover authorities required ms s"
    and step: "home_withdraw keccak ecrecover this accepts cx vs rs ss message s = Some t"
    and wf: "unat required \<le> length authorities" "required \<noteq> 0"
  shows "home_inv keccak ecrecover authorities required (ms @ [message]) t"
  using step
proof (rule home_withdraw_Some)
  assume len: "length message = 116"
    and "hasEnoughValidSignatures keccak ecrecover message vs rs ss (hb_authorities (hc_bridge s))
      (hb_requiredSignatures (hc_bridge s)) = Some True"
    and new: "\<not> hb_withdraws (hc_bridge s) (getTransactionHash message)"
    and t: "hc_bridge t =
      (hc_bridge s)\<lparr>hb_withdraws := (hb_withdraws (hc_bridge s))(getTransactionHash message := True)\<rparr>"
  then have "quorum_signed keccak ecrecover authorities required message"
    using inv enough_signatures_quorum [OF _ wf len] by (simp add: home_inv_def)
  moreover have "getTransactionHash message \<notin> getTransactionHash ` set ms"
    using inv new by (simp add: home_inv_def)
  ultimately show ?thesis
    using inv len by (simp add: home_inv_def t)
qed

lemma home_run_inv:
  assumes "home_run keccak ecrecover this s ms t" and "home_inv keccak ecrecover authorities required [] s"
    and "unat required \<le> length authorities" and "required \<noteq> 0"
  shows "home_inv keccak ecrecover authorities required ms t"
  using assms(1,2)
proof (induction rule: home_run.induct)
  case (deposit s ms t cx u)
  then show ?case
    using home_inv_cong home_fallback_keeps by metis
next
  case (withdraw s ms t accepts cx vs rs ss message u)
  then show ?case
    using home_inv_withdraw assms(3,4) by blast
next
  case (limit s ms t cx gas u)
  then show ?case
    by (auto simp: home_inv_def setGasLimitWithdrawRelay_def emit_home_def)
qed (simp_all add: home_inv_def)

text \<open>A balance pays both transfers only if their sum does not wrap.\<close>

lemma split_payment:
  fixes v c b :: u256
  assumes "unat (v - c) + unat c \<le> unat b"
  shows "c \<le> v" and "unat (v - c) + unat c = unat v"
proof -
  have "unat ((v - c) + c) = unat (v - c) + unat c"
    using assms unat_less [of b] unat_add_lem [of "v - c" c] by simp
  then show *: "unat (v - c) + unat c = unat v" by simp
  then show "c \<le> v" unfolding word_le_nat_alt by linarith
qed

text \<open>When a withdrawal goes through.\<close>

lemma move_ether_succeeds:
  assumes "src \<noteq> dst" and "v \<le> b src" and "unat (b dst) + unat v < 2 ^ 256"
  shows "move_ether src dst v b = Some (b(src := b src - v, dst := b dst + v))"
  using assms by (simp add: move_ether_def require_def)

lemma two_payments:
  assumes "r \<noteq> this" "a \<noteq> this" "cost \<le> v" "v \<le> b this"
    and "unat (b r) + unat v < 2 ^ 256" "unat (b a) + unat v < 2 ^ 256"
  shows "\<exists>b' b''. move_ether this r (v - cost) b = Some b' \<and> move_ether this a cost b' = Some b''"
proof -
  have v: "unat (v - cost) = unat v - unat cost" "unat cost \<le> unat v" "unat v \<le> unat (b this)"
    using assms(3,4) by (simp_all add: unat_sub word_le_nat_alt)
  have first: "move_ether this r (v - cost) b = Some (b(this := b this - (v - cost), r := b r + (v - cost)))"
    (is "_ = Some ?b")
    using assms(1,5) v by (intro move_ether_succeeds) (auto simp: word_le_nat_alt)
  have "unat (b r) + unat (v - cost) < 2 ^ 256"
    using assms(5) v by linarith
  then have "unat (b r + (v - cost)) = unat (b r) + unat (v - cost)"
    using unat_add_lem [of "b r" "v - cost"] by simp
  moreover have "unat (b this - (v - cost)) = unat (b this) - unat (v - cost)"
    using v by (intro unat_sub) (simp add: word_le_nat_alt)
  ultimately have "move_ether this a cost ?b = Some (?b(this := ?b this - cost, a := ?b a + cost))"
    using assms(1,2,5,6) v by (intro move_ether_succeeds) (auto simp: word_le_nat_alt)
  with first show ?thesis by blast
qed

lemma home_withdraw_succeeds:
  assumes "hasEnoughValidSignatures keccak ecrecover message vs rs ss (hb_authorities (hc_bridge s))
      (hb_requiredSignatures (hc_bridge s)) = Some True"
    and "cx_value cx = 0" and "length message = 116"
    and "cx_gasprice cx = getHomeGasPrice message" and "\<not> hb_withdraws (hc_bridge s) (getTransactionHash message)"
    and "getRecipient message \<noteq> this" and "cx_sender cx \<noteq> this" and "\<forall>a v. accepts a v"
    and "hb_estimatedGasCostOfWithdraw (hc_bridge s) * getHomeGasPrice message \<le> getValue message"
    and "getValue message \<le> hc_balance s this"
    and "\<forall>a\<in>{getRecipient message, cx_sender cx}. unat (hc_balance s a) + unat (getValue message) < 2 ^ 256"
  shows "\<exists>t. home_withdraw keccak ecrecover this accepts cx vs rs ss message s = Some t"
proof -
  let ?cost = "hb_estimatedGasCostOfWithdraw (hc_bridge s) * getHomeGasPrice message"
  obtain b' b'' where b: "move_ether this (getRecipient message) (getValue message - ?cost) (hc_balance s) = Some b'"
      "move_ether this (cx_sender cx) ?cost b' = Some b''"
    using two_payments [of "getRecipient message" this "cx_sender cx" ?cost "getValue message" "hc_balance s"] assms(6,7,9-11)
    by auto
  then show ?thesis
    using assms(1-8) by (simp add: home_withdraw_def require_def pay_def Let_def)
qed

section \<open>Properties\<close>

text \<open>
  C8. In every history of the contract each withdrawal that went through carried the signatures of as
  many different authorities as the contract requires, over exactly its message of 116 bytes, and no two
  withdrawals are for the same foreign transaction; a further withdrawal for one of them is rejected
  whoever sends it.
\<close>

theorem home_withdraw_quorum_once:
  assumes "HomeBridge cx required authorities cost = Some b" and "hc_bridge s = b"
    and "home_run keccak ecrecover this s ms t"
  shows "distinct (map getTransactionHash ms) \<and>
    (\<forall>m\<in>set ms. length m = 116 \<and> quorum_signed keccak ecrecover authorities required m) \<and>
    (\<forall>m\<in>set ms. \<forall>accepts cx vs rs ss n. getTransactionHash n = getTransactionHash m \<longrightarrow>
       home_withdraw keccak ecrecover this accepts cx vs rs ss n t = None)"
proof -
  have "home_inv keccak ecrecover authorities required [] s" "unat required \<le> length authorities" "required \<noteq> 0"
    using assms(1,2) by (simp_all add: home_inv_def HomeBridge_Some)
  note inv = home_run_inv [OF assms(3) this]
  have "home_withdraw keccak ecrecover this accepts cx vs rs ss n t = None"
    if "m \<in> set ms" "getTransactionHash n = getTransactionHash m" for m accepts cx vs rs ss n
  proof (rule ccontr)
    assume "home_withdraw keccak ecrecover this accepts cx vs rs ss n t \<noteq> None"
    then obtain u where "home_withdraw keccak ecrecover this accepts cx vs rs ss n t = Some u" by blast
    then show False
      using inv that by (elim home_withdraw_Some) (simp add: home_inv_def)
  qed
  then show ?thesis
    using inv unfolding home_inv_def by blast
qed

text \<open>
  C20. A withdrawal that goes through moves exactly the value of its message out of the contract, unless
  the contract itself is the recipient or the sender: the relay cost goes to the sender and the rest to
  the recipient. The product and the difference are not checked by the contract, but a cost above the
  value cannot be paid. No other account is touched.
\<close>

theorem home_withdraw_pays:
  assumes "home_withdraw keccak ecrecover this accepts cx vs rs ss message s = Some t"
    and "getRecipient message \<noteq> this" and "cx_sender cx \<noteq> this"
  shows "let v = getValue message; r = getRecipient message; a = cx_sender cx;
      cost = hb_estimatedGasCostOfWithdraw (hc_bridge s) * getHomeGasPrice message in
    cost \<le> v \<and>
    unat (hc_balance s this) = unat (hc_balance t this) + unat v \<and>
    (if r = a then unat (hc_balance t r) = unat (hc_balance s r) + unat v
     else unat (hc_balance t r) = unat (hc_balance s r) + (unat v - unat cost) \<and>
       unat (hc_balance t a) = unat (hc_balance s a) + unat cost) \<and>
    (\<forall>b. b \<notin> {this, r, a} \<longrightarrow> hc_balance t b = hc_balance s b) \<and>
    hc_log t = hc_log s @ [(cx_tx_hash cx, H_Withdraw r (v - cost))]"
proof -
  define v r a cost where defs: "v = getValue message" "r = getRecipient message" "a = cx_sender cx"
    "cost = hb_estimatedGasCostOfWithdraw (hc_bridge s) * getHomeGasPrice message"
  obtain b where first: "move_ether this r (v - cost) (hc_balance s) = Some b"
    and second: "move_ether this a cost b = Some (hc_balance t)"
    and lg: "hc_log t = hc_log s @ [(cx_tx_hash cx, H_Withdraw r (v - cost))]"
    using assms by (auto simp: home_withdraw_def pay_def Let_def bind_eq_Some_conv emit_home_def defs)
  note one = move_ether_Some(2,3) [OF first] and two = move_ether_Some(2,3) [OF second]
  have sum: "unat (hc_balance s this) = unat (hc_balance t this) + (unat (v - cost) + unat cost)"
    using one(1) two(1) assms(2,3) by (simp add: defs)
  then have "unat (v - cost) + unat cost \<le> unat (hc_balance s this)" by simp
  note pays = split_payment [OF this]
  have "r = a \<Longrightarrow> unat (hc_balance t r) = unat (hc_balance s r) + unat v"
    using one(1) two(1) pays(2) assms(2) by (simp add: defs)
  moreover have "r \<noteq> a \<Longrightarrow> unat (hc_balance t r) = unat (hc_balance s r) + (unat v - unat cost) \<and>
      unat (hc_balance t a) = unat (hc_balance s a) + unat cost"
    using one(1) one(2) [of a] two(1) two(2) [of r] pays(2) assms(2,3) by (simp add: defs)
  moreover have "c \<notin> {this, r, a} \<Longrightarrow> hc_balance t c = hc_balance s c" for c
    using one(2) two(2) by simp
  ultimately show ?thesis
    using sum pays lg unfolding Let_def defs [symmetric] by auto
qed

end
