(* ===== verification/Token.thy ===== *)
theory Token
  imports ContractLib
begin

text \<open>
  \<^verbatim>\<open>contracts/BridgeableToken.sol\<close>: the ERC-20 token the foreign bridge holds and pays out, with its
  checked arithmetic, its minting and its ownership. The calls take the account that makes them
  (\<open>msg.sender\<close>) first. \<open>approveAndCall\<close>, which calls another contract, is in \<open>TokenBridge\<close>. The
  property: the balances of all accounts always add up to the supply, and only minting changes it.
\<close>

section \<open>Checked arithmetic\<close>

definition safeSub :: "u256 \<Rightarrow> u256 \<Rightarrow> u256 option" where
  "safeSub a b = (if b \<le> a then Some (a - b) else None)"

definition safeAdd :: "u256 \<Rightarrow> u256 \<Rightarrow> u256 option" where
  "safeAdd a b = (let c = a + b in if c \<ge> a \<and> c \<ge> b then Some c else None)"

section \<open>The token\<close>

datatype token_event =
  T_Transfer address address u256
| T_Approval address address u256
| T_MintingAgentChanged address bool
| T_OwnershipTransferred address address

record token =
  tk_balances :: "address \<Rightarrow> u256"
  tk_allowed :: "address \<Rightarrow> address \<Rightarrow> u256"
  tk_totalSupply :: u256
  tk_owner :: address
  tk_mintingFinished :: bool
  tk_mintAgents :: "address \<Rightarrow> bool"
  tk_log :: "token_event list"

definition emit_token :: "token_event \<Rightarrow> token \<Rightarrow> token" where
  "emit_token e t = t\<lparr>tk_log := tk_log t @ [e]\<rparr>"

definition token_constructor :: "address \<Rightarrow> token" where
  "token_constructor sender =
     \<lparr> tk_balances = (\<lambda>_. 0), tk_allowed = (\<lambda>_ _. 0), tk_totalSupply = 0, tk_owner = sender,
       tk_mintingFinished = False, tk_mintAgents = (\<lambda>_. False), tk_log = [] \<rparr>"

definition token_transfer :: "address \<Rightarrow> address \<Rightarrow> u256 \<Rightarrow> token \<Rightarrow> (token \<times> bool) option" where
  "token_transfer sender to value t =
     Option.bind (safeSub (tk_balances t sender) value) (\<lambda>x.
     let t = t\<lparr>tk_balances := (tk_balances t)(sender := x)\<rparr> in
     Option.bind (safeAdd (tk_balances t to) value) (\<lambda>y.
     let t = t\<lparr>tk_balances := (tk_balances t)(to := y)\<rparr> in
     Some (emit_token (T_Transfer sender to value) t, True)))"

definition token_transferFrom ::
    "address \<Rightarrow> address \<Rightarrow> address \<Rightarrow> u256 \<Rightarrow> token \<Rightarrow> (token \<times> bool) option" where
  "token_transferFrom sender from to value t =
     (let allowance = tk_allowed t from sender in
      Option.bind (safeAdd (tk_balances t to) value) (\<lambda>x.
      let t = t\<lparr>tk_balances := (tk_balances t)(to := x)\<rparr> in
      Option.bind (safeSub (tk_balances t from) value) (\<lambda>y.
      let t = t\<lparr>tk_balances := (tk_balances t)(from := y)\<rparr> in
      Option.bind (safeSub allowance value) (\<lambda>z.
      let t = t\<lparr>tk_allowed := (tk_allowed t)(from := (tk_allowed t from)(sender := z))\<rparr> in
      Some (emit_token (T_Transfer from to value) t, True)))))"

definition token_approve :: "address \<Rightarrow> address \<Rightarrow> u256 \<Rightarrow> token \<Rightarrow> (token \<times> bool) option" where
  "token_approve sender spender value t =
     (if value \<noteq> 0 \<and> tk_allowed t sender spender \<noteq> 0 then None
      else Some (emit_token (T_Approval sender spender value)
        (t\<lparr>tk_allowed := (tk_allowed t)(sender := (tk_allowed t sender)(spender := value))\<rparr>), True))"

definition token_allowance :: "address \<Rightarrow> address \<Rightarrow> token \<Rightarrow> u256" where
  "token_allowance owner spender t = tk_allowed t owner spender"

definition token_balanceOf :: "address \<Rightarrow> token \<Rightarrow> u256" where
  "token_balanceOf owner t = tk_balances t owner"

text \<open>\<open>1 ether\<close> is \<open>10 ^ 18\<close> units; the product is not checked.\<close>

definition token_mint :: "address \<Rightarrow> address \<Rightarrow> u256 \<Rightarrow> token \<Rightarrow> token option" where
  "token_mint sender receiver amount t =
     require (tk_mintAgents t sender) (require (\<not> tk_mintingFinished t)
       (let arranged_amount = amount * 10 ^ 18 in
        Option.bind (safeAdd (tk_totalSupply t) arranged_amount) (\<lambda>x.
        let t = t\<lparr>tk_totalSupply := x\<rparr> in
        Option.bind (safeAdd (tk_balances t receiver) arranged_amount) (\<lambda>y.
        Some (emit_token (T_Transfer 0 receiver arranged_amount)
          (t\<lparr>tk_balances := (tk_balances t)(receiver := y)\<rparr>))))))"

definition token_setMintAgent :: "address \<Rightarrow> address \<Rightarrow> bool \<Rightarrow> token \<Rightarrow> token option" where
  "token_setMintAgent sender addr state t =
     require (sender = tk_owner t) (require (\<not> tk_mintingFinished t)
       (Some (emit_token (T_MintingAgentChanged addr state)
         (t\<lparr>tk_mintAgents := (tk_mintAgents t)(addr := state)\<rparr>))))"

definition token_transferOwnership :: "address \<Rightarrow> address \<Rightarrow> token \<Rightarrow> token option" where
  "token_transferOwnership sender newOwner t =
     require (sender = tk_owner t) (require (newOwner \<noteq> 0)
       (Some ((emit_token (T_OwnershipTransferred (tk_owner t) newOwner) t)\<lparr>tk_owner := newOwner\<rparr>)))"

text \<open>Any call of the token, by any account.\<close>

inductive token_step :: "token \<Rightarrow> token \<Rightarrow> bool" where
  "token_transfer sender to value t = Some (t', b) \<Longrightarrow> token_step t t'"
| "token_transferFrom sender from to value t = Some (t', b) \<Longrightarrow> token_step t t'"
| "token_approve sender spender value t = Some (t', b) \<Longrightarrow> token_step t t'"
| "token_mint sender receiver amount t = Some t' \<Longrightarrow> token_step t t'"
| "token_setMintAgent sender addr state t = Some t' \<Longrightarrow> token_step t t'"
| "token_transferOwnership sender newOwner t = Some t' \<Longrightarrow> token_step t t'"

inductive_cases token_stepE: "token_step t t'"

section \<open>Lemmas\<close>

lemma safeSub_Some [simp]: "safeSub a b = Some c \<longleftrightarrow> b \<le> a \<and> c = a - b"
  by (auto simp: safeSub_def)

lemma safeAdd_Some: "safeAdd a b = Some c \<longleftrightarrow> c = a + b \<and> unat c = unat a + unat b"
proof -
  have "a \<le> a + b \<longleftrightarrow> unat (a + b) = unat a + unat b"
    by (simp add: word_le_nat_alt unat_plus_if') (use unat_less [of b] in auto)
  moreover have "unat (a + b) = unat a + unat b \<Longrightarrow> b \<le> a + b"
    by (simp add: word_le_nat_alt)
  ultimately show ?thesis
    by (auto simp: safeAdd_def Let_def)
qed

text \<open>The sum of the balances of all accounts, and one balance changed in it.\<close>

definition held :: "(address \<Rightarrow> u256) \<Rightarrow> nat" where
  "held f = (\<Sum>a\<in>UNIV. unat (f a))"

lemma held_update: "held (f(a := x)) + unat (f a) = held f + unat x"
proof -
  have "held g = unat (g a) + (\<Sum>b\<in>UNIV - {a}. unat (g b))" for g
    unfolding held_def by (rule sum.remove) simp_all
  from this [of f] this [of "f(a := x)"] show ?thesis
    by simp
qed

lemma unat_sub_le: "b \<le> (a :: u256) \<Longrightarrow> unat (a - b) + unat b = unat a"
  by (simp add: unat_sub word_le_nat_alt)

lemma held_debit: "v \<le> f a \<Longrightarrow> held (f(a := f a - v)) + unat v = held f"
  using held_update [of f a "f a - v"] unat_sub_le [of v "f a"] by simp

lemma held_credit: "unat (f a + v) = unat (f a) + unat v \<Longrightarrow> held (f(a := f a + v)) = held f + unat v"
  using held_update [of f a "f a + v"] by simp

lemma token_transfer_Some:
  assumes "token_transfer sender to value t = Some (t', b)"
  shows "b" and "value \<le> tk_balances t sender" and "held (tk_balances t') = held (tk_balances t)"
    and "tk_totalSupply t' = tk_totalSupply t" and "tk_allowed t' = tk_allowed t"
    and "sender \<noteq> to \<Longrightarrow> unat (tk_balances t' sender) + unat value = unat (tk_balances t sender) \<and>
      unat (tk_balances t' to) = unat (tk_balances t to) + unat value"
    and "a \<noteq> sender \<Longrightarrow> a \<noteq> to \<Longrightarrow> tk_balances t' a = tk_balances t a"
proof -
  let ?f = "(tk_balances t)(sender := tk_balances t sender - value)"
  have le: "value \<le> tk_balances t sender" and b
    and add: "unat (?f to + value) = unat (?f to) + unat value"
    and t': "t' = emit_token (T_Transfer sender to value) (t\<lparr>tk_balances := ?f(to := ?f to + value)\<rparr>)"
    using assms by (auto simp: token_transfer_def safeAdd_Some Let_def bind_eq_Some_conv)
  from le \<open>b\<close> show "value \<le> tk_balances t sender" and "b" by simp_all
  show "held (tk_balances t') = held (tk_balances t)"
    using held_debit [of "value" "tk_balances t" sender] held_credit [of ?f "to" "value"] le add by (simp add: t' emit_token_def)
  show "tk_totalSupply t' = tk_totalSupply t" and "tk_allowed t' = tk_allowed t"
    and "a \<noteq> sender \<Longrightarrow> a \<noteq> to \<Longrightarrow> tk_balances t' a = tk_balances t a"
    by (simp_all add: t' emit_token_def)
  show "sender \<noteq> to \<Longrightarrow> unat (tk_balances t' sender) + unat value = unat (tk_balances t sender) \<and>
      unat (tk_balances t' to) = unat (tk_balances t to) + unat value"
    using add unat_sub_le [OF le] by (simp add: t' emit_token_def)
qed

lemma token_transferFrom_Some:
  assumes "token_transferFrom sender from to value t = Some (t', b)"
  shows "b" and "value \<le> tk_allowed t from sender" and "held (tk_balances t') = held (tk_balances t)"
    and "tk_totalSupply t' = tk_totalSupply t"
    and "from \<noteq> to \<Longrightarrow> unat (tk_balances t' from) + unat value = unat (tk_balances t from) \<and>
      unat (tk_balances t' to) = unat (tk_balances t to) + unat value"
    and "a \<noteq> from \<Longrightarrow> a \<noteq> to \<Longrightarrow> tk_balances t' a = tk_balances t a"
    and "unat (tk_allowed t' from sender) + unat value = unat (tk_allowed t from sender)"
proof -
  let ?f = "(tk_balances t)(to := tk_balances t to + value)"
  have add: "unat (tk_balances t to + value) = unat (tk_balances t to) + unat value"
    and le: "value \<le> ?f from" and al: "value \<le> tk_allowed t from sender" and b
    and t': "t' = emit_token (T_Transfer from to value) (t\<lparr>tk_balances := ?f(from := ?f from - value),
      tk_allowed := (tk_allowed t)(from := (tk_allowed t from)(sender := tk_allowed t from sender - value))\<rparr>)"
    using assms by (auto simp: token_transferFrom_def safeAdd_Some Let_def bind_eq_Some_conv)
  from al \<open>b\<close> show "value \<le> tk_allowed t from sender" and "b" by simp_all
  show "held (tk_balances t') = held (tk_balances t)"
    using held_debit [of "value" ?f "from"] held_credit [of "tk_balances t" "to" "value"] le add by (simp add: t' emit_token_def)
  show "tk_totalSupply t' = tk_totalSupply t"
    and "a \<noteq> from \<Longrightarrow> a \<noteq> to \<Longrightarrow> tk_balances t' a = tk_balances t a"
    by (simp_all add: t' emit_token_def)
  show "from \<noteq> to \<Longrightarrow> unat (tk_balances t' from) + unat value = unat (tk_balances t from) \<and>
      unat (tk_balances t' to) = unat (tk_balances t to) + unat value"
    using add unat_sub_le [OF le] by (simp add: t' emit_token_def)
  show "unat (tk_allowed t' from sender) + unat value = unat (tk_allowed t from sender)"
    using unat_sub_le [OF al] by (simp add: t' emit_token_def)
qed

lemma token_mint_Some:
  assumes "token_mint sender receiver amount t = Some t'"
  shows "tk_mintAgents t sender" and "unat (tk_totalSupply t') = unat (tk_totalSupply t) + unat (amount * 10 ^ 18)"
    and "held (tk_balances t') = held (tk_balances t) + unat (amount * 10 ^ 18)"
  using assms held_credit [of "tk_balances t" receiver "amount * 10 ^ 18"]
  by (auto simp: token_mint_def safeAdd_Some Let_def bind_eq_Some_conv emit_token_def)

definition supply_inv :: "token \<Rightarrow> bool" where
  "supply_inv t \<longleftrightarrow> held (tk_balances t) = unat (tk_totalSupply t)"

lemma token_step_supply:
  assumes "token_step t t'" and "supply_inv t"
  shows "supply_inv t'"
  using assms
proof (cases rule: token_step.cases)
  case (1 sender dst v b)
  then show ?thesis
    using token_transfer_Some(3,4) [OF 1] assms(2) by (simp add: supply_inv_def)
next
  case (2 sender src dst v b)
  then show ?thesis
    using token_transferFrom_Some(3,4) [OF 2] assms(2) by (simp add: supply_inv_def)
next
  case (4 sender receiver amount)
  then show ?thesis
    using token_mint_Some(2,3) [OF 4] assms(2) by (simp add: supply_inv_def)
qed (use assms(2) in \<open>auto simp: supply_inv_def token_approve_def token_setMintAgent_def
    token_transferOwnership_def emit_token_def split: if_splits\<close>)

section \<open>Properties\<close>


end
