(* ===== verification/Tally.thy ===== *)
theory Tally
  imports Prelude
begin

text \<open>
  Counting votes the way the foreign bridge does for deposits, for its token and for signatures: a map
  of the hashes of vote and voter that have been seen, and a map from the hash of what is voted on to
  the number of votes. The votes that were counted are the ghost of the two maps. When no two things
  voted on have the same key, the number is that of the different voters, and the moment at which it
  reaches a threshold comes exactly once.
\<close>

section \<open>Definitions\<close>

definition tally :: "('v \<Rightarrow> h256) \<Rightarrow> ('v \<Rightarrow> 'k) \<Rightarrow> 'v list \<Rightarrow> (h256 \<Rightarrow> bool) \<Rightarrow> ('k \<Rightarrow> u256) \<Rightarrow> bool" where
  "tally sender_key key vs seen num \<longleftrightarrow>
     distinct (map sender_key vs) \<and> (\<forall>h. seen h \<longleftrightarrow> h \<in> sender_key ` set vs) \<and>
     (\<forall>k. num k = word_of_nat (length (filter (\<lambda>v. key v = k) vs)))"

text \<open>The votes of authorities \<open>A\<close>.\<close>

definition ballot ::
    "(address \<times> 'i \<Rightarrow> h256) \<Rightarrow> (address \<times> 'i \<Rightarrow> 'k) \<Rightarrow> address set \<Rightarrow> (address \<times> 'i) list \<Rightarrow>
     (h256 \<Rightarrow> bool) \<Rightarrow> ('k \<Rightarrow> u256) \<Rightarrow> bool" where
  "ballot sender_key key A vs seen num \<longleftrightarrow> tally sender_key key vs seen num \<and> fst ` set vs \<subseteq> A"

definition voters :: "(address \<times> 'i) list \<Rightarrow> 'i \<Rightarrow> address set" where
  "voters vs i = {a. (a, i) \<in> set vs}"

definition decided :: "nat \<Rightarrow> (address \<times> 'i) list \<Rightarrow> 'i set" where
  "decided n vs = {i. n \<le> card (voters vs i)}"

section \<open>Lemmas\<close>

lemma tally_empty [simp]: "tally sender_key key [] (\<lambda>_. False) (\<lambda>_. 0)"
  by (simp add: tally_def)

lemma tally_vote:
  assumes "tally sender_key key vs seen num" and "\<not> seen (sender_key v)"
  shows "tally sender_key key (vs @ [v]) (seen(sender_key v := True)) (num(key v := num (key v) + 1))"
  using assms by (auto simp: tally_def)

lemma ballot_empty [simp]: "ballot sender_key key A [] (\<lambda>_. False) (\<lambda>_. 0)"
  by (simp add: ballot_def)

lemma ballot_vote:
  assumes "ballot sender_key key A vs seen num" and "\<not> seen (sender_key v)" and "fst v \<in> A"
  shows "ballot sender_key key A (vs @ [v]) (seen(sender_key v := True)) (num(key v := num (key v) + 1))"
  using assms tally_vote [of sender_key key vs seen num v] by (simp add: ballot_def)

lemma ballot_tally: "ballot sender_key key A vs seen num \<Longrightarrow> tally sender_key key vs seen num"
  by (simp add: ballot_def)

lemma ballot_voters: "ballot sender_key key A vs seen num \<Longrightarrow> voters vs i = {a \<in> A. (a, i) \<in> set vs}"
  unfolding ballot_def voters_def by force

text \<open>When a vote is its own key every number is at most one.\<close>

lemma length_filter_key:
  "distinct (map key vs) \<Longrightarrow> length (filter (\<lambda>v. key v = k) vs) = (if k \<in> key ` set vs then 1 else 0)"
  by (induction vs) auto

lemma tally_self: "tally key key vs seen num \<Longrightarrow> num k = (if seen k then 1 else 0)"
  by (simp add: tally_def length_filter_key)

lemma finite_voters [simp]: "finite (voters vs i)"
  by simp

lemma voters_append [simp]: "voters (vs @ [(a, i)]) j = (if j = i then insert a (voters vs j) else voters vs j)"
  by (auto simp: voters_def)

text \<open>The number of votes is that of the voters, who are fewer than numbers there are.\<close>

lemma tally_voters:
  assumes "tally sender_key (\<lambda>v. key (snd v)) vs seen num" and "\<forall>v\<in>set vs. key (snd v) = key i \<longrightarrow> snd v = i"
  shows "unat (num (key i)) = card (voters vs i)"
proof -
  have "distinct vs"
    using assms(1) by (auto simp: tally_def distinct_map)
  then have "length (filter (\<lambda>v. key (snd v) = key i) vs) = card (set (filter (\<lambda>v. key (snd v) = key i) vs))"
    by (simp only: distinct_card distinct_filter)
  also have "set (filter (\<lambda>v. key (snd v) = key i) vs) = (\<lambda>a. (a, i)) ` voters vs i"
    using assms(2) by (auto simp: voters_def image_def)
  also have "card \<dots> = card (voters vs i)"
    by (rule card_image) (simp add: inj_on_def)
  finally have "num (key i) = word_of_nat (card (voters vs i))"
    using assms(1) by (simp add: tally_def)
  moreover have "card (voters vs i) \<le> card (UNIV :: address set)"
    by (rule card_mono) simp_all
  then have "card (voters vs i) < 2 ^ 256"
    by (simp add: card_word)
  ultimately show ?thesis
    by (simp only: unat_of_nat) simp
qed

lemma tally_reaches:
  assumes "tally sender_key (\<lambda>v. key (snd v)) vs seen num" and "\<forall>v\<in>set vs. key (snd v) = key i \<longrightarrow> snd v = i"
  shows "num (key i) + 1 = n \<longleftrightarrow> Suc (card (voters vs i)) = unat n"
proof -
  have "card (voters vs i) \<le> card (UNIV :: address set)"
    by (rule card_mono) simp_all
  then have "unat (num (key i)) + 1 < 2 ^ 256"
    using tally_voters [OF assms] by (simp add: card_word)
  then have "unat (num (key i) + 1) = Suc (card (voters vs i))"
    using tally_voters [OF assms] unat_add_lem [of "num (key i)" 1] by simp
  then show ?thesis
    by (simp add: word_unat_eq_iff)
qed

lemma tally_fresh: "tally sender_key key vs seen num \<Longrightarrow> \<not> seen (sender_key v) \<Longrightarrow> v \<notin> set vs"
  by (auto simp: tally_def)

lemma decided_vote:
  assumes "a \<notin> voters vs i"
  shows "decided n (vs @ [(a, i)]) =
      (if Suc (card (voters vs i)) = n then insert i (decided n vs) else decided n vs)"
    and "Suc (card (voters vs i)) = n \<Longrightarrow> i \<notin> decided n vs"
  using assms by (auto simp: decided_def)

lemma decided_Nil: "0 < n \<Longrightarrow> decided n [] = {}"
  by (simp add: decided_def voters_def)

lemma decided_mono: "set vs \<subseteq> set us \<Longrightarrow> decided n vs \<subseteq> decided n us"
proof -
  assume "set vs \<subseteq> set us"
  then have "voters vs i \<subseteq> voters us i" for i
    by (auto simp: voters_def)
  then have "card (voters vs i) \<le> card (voters us i)" for i
    by (intro card_mono) simp_all
  then show ?thesis
    unfolding decided_def by (auto intro: order_trans)
qed

end
