(* ===== verification/ForeignContract.thy ===== *)
theory ForeignContract
  imports Token Tally
begin

text \<open>
  \<^verbatim>\<open>contracts/bridge.sol\<close>, the contract \<open>ForeignBridge\<close> with the contracts it inherits from: authorities
  confirm deposits, agree on the token, and submit signatures for withdrawals. The token is another
  contract; its calls are the fields of a record, over a state \<open>'w\<close> that the bridge cannot see into.
  Counting confirmations is in \<open>Tally\<close>.
  The properties: a deposit is paid exactly once, when as many different authorities as required have
  confirmed it; the token is set only by as many; and signatures are never collected when more than
  one is required, because they are counted separately for each authority.
\<close>

section \<open>Tokens as the bridge sees them\<close>

text \<open>
  Each call takes the address of the token contract and the account that calls it; a call of an
  address without a contract reverts.
\<close>

record 'w erc20 =
  erc_transfer :: "address \<Rightarrow> address \<Rightarrow> address \<Rightarrow> u256 \<Rightarrow> 'w \<Rightarrow> ('w \<times> bool) option"
  erc_transferFrom :: "address \<Rightarrow> address \<Rightarrow> address \<Rightarrow> address \<Rightarrow> u256 \<Rightarrow> 'w \<Rightarrow> ('w \<times> bool) option"
  erc_allowance :: "address \<Rightarrow> address \<Rightarrow> address \<Rightarrow> 'w \<Rightarrow> u256 option"
  erc_balanceOf :: "address \<Rightarrow> address \<Rightarrow> 'w \<Rightarrow> u256 option"

section \<open>Definitions\<close>

datatype foreign_event =
  F_Deposit address u256
| F_Withdraw address u256 u256
| F_CollectedSignatures address h256 u256
| F_TokenAddress address
| F_GasConsumptionLimitsUpdated u256 u256

record foreign_bridge =
  fb_deployedAtBlock :: u256
  fb_gasLimitDepositRelay :: u256
  fb_gasLimitWithdrawConfirm :: u256
  fb_requiredSignatures :: u256
  fb_estimatedGasCostOfWithdraw :: u256
  fb_homeGasPrice :: u256
  fb_authorities :: "address \<Rightarrow> bool"
  fb_messages :: "h256 \<Rightarrow> bytes"
  fb_signatures :: "h256 \<Rightarrow> bytes"
  fb_messages_signed :: "h256 \<Rightarrow> bool"
  fb_num_messages_signed :: "h256 \<Rightarrow> u256"
  fb_deposits_signed :: "h256 \<Rightarrow> bool"
  fb_num_deposits_signed :: "h256 \<Rightarrow> u256"
  fb_erc20token :: address
  fb_tokenAddressApproval_signs :: "h256 \<Rightarrow> bool"
  fb_num_tokenAddressApproval_signs :: "address \<Rightarrow> u256"
  fb_log :: "(h256 \<times> foreign_event) list"

definition emit_foreign :: "call_context \<Rightarrow> foreign_event \<Rightarrow> foreign_bridge \<Rightarrow> foreign_bridge" where
  "emit_foreign cx e s = s\<lparr>fb_log := fb_log s @ [(cx_tx_hash cx, e)]\<rparr>"

definition ForeignBridge :: "call_context \<Rightarrow> u256 \<Rightarrow> address list \<Rightarrow> u256 \<Rightarrow> foreign_bridge option" where
  "ForeignBridge cx requiredSignatures authorities estimatedGasCostOfWithdraw =
     require (cx_value cx = 0)
     (require (requiredSignatures \<noteq> 0)
     (require (unat requiredSignatures \<le> length authorities)
       (Some \<lparr> fb_deployedAtBlock = cx_block cx, fb_gasLimitDepositRelay = 0, fb_gasLimitWithdrawConfirm = 0,
               fb_requiredSignatures = requiredSignatures,
               fb_estimatedGasCostOfWithdraw = estimatedGasCostOfWithdraw,
               fb_homeGasPrice = 1000000000,
               fb_authorities = fold (\<lambda>a f. f(a := True)) authorities (\<lambda>_. False),
               fb_messages = (\<lambda>_. []), fb_signatures = (\<lambda>_. []),
               fb_messages_signed = (\<lambda>_. False), fb_num_messages_signed = (\<lambda>_. 0),
               fb_deposits_signed = (\<lambda>_. False), fb_num_deposits_signed = (\<lambda>_. 0),
               fb_erc20token = 0,
               fb_tokenAddressApproval_signs = (\<lambda>_. False), fb_num_tokenAddressApproval_signs = (\<lambda>_. 0),
               fb_log = [] \<rparr>)))"

text \<open>\<open>onlyAuthority\<close>, on a function that takes no ether.\<close>

definition onlyAuthority :: "call_context \<Rightarrow> foreign_bridge \<Rightarrow> 'a option \<Rightarrow> 'a option" where
  "onlyAuthority cx s k = require (cx_value cx = 0) (require (fb_authorities s (cx_sender cx)) k)"

text \<open>The hashes of packed arguments that the contract uses as keys.\<close>

definition token_sender_hash :: "(bytes \<Rightarrow> h256) \<Rightarrow> address \<Rightarrow> address \<Rightarrow> h256" where
  "token_sender_hash keccak sender token = keccak (be_bytes 20 sender @ be_bytes 20 token)"

definition deposit_hash :: "(bytes \<Rightarrow> h256) \<Rightarrow> address \<Rightarrow> u256 \<Rightarrow> h256 \<Rightarrow> h256" where
  "deposit_hash keccak recipient v transactionHash =
     keccak (be_bytes 20 recipient @ be_bytes 32 v @ be_bytes 32 transactionHash)"

definition sender_hash :: "(bytes \<Rightarrow> h256) \<Rightarrow> address \<Rightarrow> h256 \<Rightarrow> h256" where
  "sender_hash keccak sender hash = keccak (be_bytes 20 sender @ be_bytes 32 hash)"

definition signature_index :: "(bytes \<Rightarrow> h256) \<Rightarrow> h256 \<Rightarrow> u256 \<Rightarrow> h256" where
  "signature_index keccak hash index = keccak (be_bytes 32 hash @ be_bytes 32 index)"

definition setTokenAddress ::
    "(bytes \<Rightarrow> h256) \<Rightarrow> call_context \<Rightarrow> address \<Rightarrow> foreign_bridge \<Rightarrow> foreign_bridge option" where
  "setTokenAddress keccak cx token s =
     onlyAuthority cx s
     (let token_sender = token_sender_hash keccak (cx_sender cx) token in
      require (\<not> fb_tokenAddressApproval_signs s token_sender)
      (let s = s\<lparr>fb_tokenAddressApproval_signs := (fb_tokenAddressApproval_signs s)(token_sender := True)\<rparr>;
           signed = fb_num_tokenAddressApproval_signs s token + 1;
           s = s\<lparr>fb_num_tokenAddressApproval_signs := (fb_num_tokenAddressApproval_signs s)(token := signed)\<rparr>
       in Some (if signed = fb_requiredSignatures s
                then emit_foreign cx (F_TokenAddress token) (s\<lparr>fb_erc20token := token\<rparr>) else s)))"

definition foreign_deposit ::
    "(bytes \<Rightarrow> h256) \<Rightarrow> 'w erc20 \<Rightarrow> address \<Rightarrow> call_context \<Rightarrow> address \<Rightarrow> u256 \<Rightarrow> h256 \<Rightarrow>
     foreign_bridge \<times> 'w \<Rightarrow> (foreign_bridge \<times> 'w) option" where
  "foreign_deposit keccak erc this cx recipient v transactionHash = (\<lambda>(s, w).
     onlyAuthority cx s
     (require (fb_erc20token s \<noteq> 0)
     (let hash_msg = deposit_hash keccak recipient v transactionHash;
          hash_sender = sender_hash keccak (cx_sender cx) hash_msg in
      require (\<not> fb_deposits_signed s hash_sender)
      (let s = s\<lparr>fb_deposits_signed := (fb_deposits_signed s)(hash_sender := True)\<rparr>;
           signed = fb_num_deposits_signed s hash_msg + 1;
           s = s\<lparr>fb_num_deposits_signed := (fb_num_deposits_signed s)(hash_msg := signed)\<rparr>
       in if signed = fb_requiredSignatures s
          then map_option (\<lambda>(w, ignored). (emit_foreign cx (F_Deposit recipient v) s, w))
                 (erc_transfer erc (fb_erc20token s) this recipient v w)
          else Some (s, w)))))"

definition receiveApproval ::
    "'w erc20 \<Rightarrow> address \<Rightarrow> call_context \<Rightarrow> address \<Rightarrow> u256 \<Rightarrow> address \<Rightarrow> bytes \<Rightarrow>
     foreign_bridge \<times> 'w \<Rightarrow> (foreign_bridge \<times> 'w) option" where
  "receiveApproval erc this cx from v tokenContract msg = (\<lambda>(s, w).
     require (cx_value cx = 0)
     (require (fb_erc20token s \<noteq> 0)
     (require (cx_sender cx = fb_erc20token s)
     (Option.bind (erc_allowance erc (fb_erc20token s) from this w) (\<lambda>allowance.
      require (allowance \<ge> v)
        (map_option (\<lambda>(w, ignored). (emit_foreign cx (F_Withdraw from v (fb_homeGasPrice s)) s, w))
          (erc_transferFrom erc (fb_erc20token s) this from this v w)))))))"

definition submitSignature ::
    "(bytes \<Rightarrow> h256) \<Rightarrow> ecrecover \<Rightarrow> call_context \<Rightarrow> bytes \<Rightarrow> bytes \<Rightarrow> foreign_bridge \<Rightarrow> foreign_bridge option" where
  "submitSignature keccak ecrecover cx signature message s =
     onlyAuthority cx s
     (Option.bind (recoverAddressFromSignedMessage keccak ecrecover signature message) (\<lambda>signer.
      require (cx_sender cx = signer)
      (require (length message = 116)
      (let hash = keccak message;
           hash_sender = sender_hash keccak (cx_sender cx) hash;
           signed = fb_num_messages_signed s hash_sender + 1
       in Option.bind
            (if signed > 1 then require (\<not> fb_messages_signed s hash_sender) (Some s)
             else Some (s\<lparr>fb_messages := (fb_messages s)(hash := message)\<rparr>)) (\<lambda>s.
          let s = s\<lparr>fb_messages_signed := (fb_messages_signed s)(hash_sender := True)\<rparr>;
              sign_idx = signature_index keccak hash (signed - 1);
              s = s\<lparr>fb_signatures := (fb_signatures s)(sign_idx := signature)\<rparr>;
              s = s\<lparr>fb_num_messages_signed := (fb_num_messages_signed s)(hash_sender := signed)\<rparr>
          in Some (if signed = fb_requiredSignatures s
                   then emit_foreign cx (F_CollectedSignatures (cx_sender cx) hash signed) s else s))))))"

definition foreign_signature :: "(bytes \<Rightarrow> h256) \<Rightarrow> h256 \<Rightarrow> u256 \<Rightarrow> foreign_bridge \<Rightarrow> bytes" where
  "foreign_signature keccak hash index s = fb_signatures s (signature_index keccak hash index)"

definition foreign_message :: "h256 \<Rightarrow> foreign_bridge \<Rightarrow> bytes" where
  "foreign_message hash s = fb_messages s hash"

text \<open>Anyone may set the gas limits; nothing in the contract uses them.\<close>

definition setGasLimitDepositRelay :: "call_context \<Rightarrow> u256 \<Rightarrow> foreign_bridge \<Rightarrow> foreign_bridge option" where
  "setGasLimitDepositRelay cx gas s =
     require (cx_value cx = 0)
       (let s = s\<lparr>fb_gasLimitDepositRelay := gas\<rparr> in
        Some (emit_foreign cx
          (F_GasConsumptionLimitsUpdated (fb_gasLimitDepositRelay s) (fb_gasLimitWithdrawConfirm s)) s))"

definition setGasLimitWithdrawConfirm :: "call_context \<Rightarrow> u256 \<Rightarrow> foreign_bridge \<Rightarrow> foreign_bridge option" where
  "setGasLimitWithdrawConfirm cx gas s =
     require (cx_value cx = 0)
       (let s = s\<lparr>fb_gasLimitWithdrawConfirm := gas\<rparr> in
        Some (emit_foreign cx
          (F_GasConsumptionLimitsUpdated (fb_gasLimitDepositRelay s) (fb_gasLimitWithdrawConfirm s)) s))"

section \<open>Histories\<close>

datatype foreign_call =
  FC_SetTokenAddress address
| FC_Deposit address u256 h256
| FC_ReceiveApproval address u256 address bytes
| FC_SubmitSignature bytes bytes
| FC_SetGasLimitDepositRelay u256
| FC_SetGasLimitWithdrawConfirm u256

fun foreign_exec ::
    "(bytes \<Rightarrow> h256) \<Rightarrow> ecrecover \<Rightarrow> 'w erc20 \<Rightarrow> address \<Rightarrow> call_context \<Rightarrow> foreign_call \<Rightarrow>
     foreign_bridge \<times> 'w \<Rightarrow> (foreign_bridge \<times> 'w) option" where
  "foreign_exec keccak ecrecover erc this cx (FC_SetTokenAddress token) (s, w) =
     map_option (\<lambda>s. (s, w)) (setTokenAddress keccak cx token s)"
| "foreign_exec keccak ecrecover erc this cx (FC_Deposit recipient v hash) (s, w) =
     foreign_deposit keccak erc this cx recipient v hash (s, w)"
| "foreign_exec keccak ecrecover erc this cx (FC_ReceiveApproval from v token msg) (s, w) =
     receiveApproval erc this cx from v token msg (s, w)"
| "foreign_exec keccak ecrecover erc this cx (FC_SubmitSignature signature message) (s, w) =
     map_option (\<lambda>s. (s, w)) (submitSignature keccak ecrecover cx signature message s)"
| "foreign_exec keccak ecrecover erc this cx (FC_SetGasLimitDepositRelay gas) (s, w) =
     map_option (\<lambda>s. (s, w)) (setGasLimitDepositRelay cx gas s)"
| "foreign_exec keccak ecrecover erc this cx (FC_SetGasLimitWithdrawConfirm gas) (s, w) =
     map_option (\<lambda>s. (s, w)) (setGasLimitWithdrawConfirm cx gas s)"

text \<open>
  The calls of the contract that went through, in their order; in between, other transactions may
  change the tokens in any way. A call that reverts changes nothing.
\<close>

inductive foreign_run ::
    "(bytes \<Rightarrow> h256) \<Rightarrow> ecrecover \<Rightarrow> 'w erc20 \<Rightarrow> address \<Rightarrow> foreign_bridge \<times> 'w \<Rightarrow>
     (call_context \<times> foreign_call) list \<Rightarrow> foreign_bridge \<times> 'w \<Rightarrow> bool"
  for keccak ecrecover erc this st where
  start: "foreign_run keccak ecrecover erc this st [] st"
| call: "foreign_run keccak ecrecover erc this st tr t \<Longrightarrow>
    foreign_exec keccak ecrecover erc this cx c t = Some u \<Longrightarrow>
    foreign_run keccak ecrecover erc this st (tr @ [(cx, c)]) u"
| others: "foreign_run keccak ecrecover erc this st tr (s, w) \<Longrightarrow>
    foreign_run keccak ecrecover erc this st tr (s, w')"

section \<open>Specification\<close>

text \<open>
  What the calls of a history confirm: deposits, tokens, and messages by their hash, each with the
  authority that confirmed it; and the deposits that have been paid, as the events tell them.
\<close>

type_synonym deposit = "address \<times> u256 \<times> h256"

fun deposit_vote :: "call_context \<times> foreign_call \<Rightarrow> (address \<times> deposit) list" where
  "deposit_vote (cx, FC_Deposit recipient v hash) = [(cx_sender cx, (recipient, v, hash))]"
| "deposit_vote _ = []"

fun token_vote :: "call_context \<times> foreign_call \<Rightarrow> (address \<times> address) list" where
  "token_vote (cx, FC_SetTokenAddress token) = [(cx_sender cx, token)]"
| "token_vote _ = []"

fun message_vote :: "(bytes \<Rightarrow> h256) \<Rightarrow> call_context \<times> foreign_call \<Rightarrow> (address \<times> h256) list" where
  "message_vote keccak (cx, FC_SubmitSignature signature message) = [(cx_sender cx, keccak message)]"
| "message_vote keccak _ = []"

abbreviation deposit_votes :: "(call_context \<times> foreign_call) list \<Rightarrow> (address \<times> deposit) list" where
  "deposit_votes tr \<equiv> concat (map deposit_vote tr)"

abbreviation token_votes :: "(call_context \<times> foreign_call) list \<Rightarrow> (address \<times> address) list" where
  "token_votes tr \<equiv> concat (map token_vote tr)"

abbreviation message_votes ::
    "(bytes \<Rightarrow> h256) \<Rightarrow> (call_context \<times> foreign_call) list \<Rightarrow> (address \<times> h256) list" where
  "message_votes keccak tr \<equiv> concat (map (message_vote keccak) tr)"

fun deposit_event :: "h256 \<times> foreign_event \<Rightarrow> (address \<times> u256) list" where
  "deposit_event (_, F_Deposit recipient v) = [(recipient, v)]"
| "deposit_event _ = []"

abbreviation deposit_events :: "(h256 \<times> foreign_event) list \<Rightarrow> (address \<times> u256) list" where
  "deposit_events lg \<equiv> concat (map deposit_event lg)"

definition deposit_key :: "(bytes \<Rightarrow> h256) \<Rightarrow> deposit \<Rightarrow> h256" where
  "deposit_key keccak = (\<lambda>(recipient, v, hash). deposit_hash keccak recipient v hash)"

abbreviation deposit_sender_key :: "(bytes \<Rightarrow> h256) \<Rightarrow> address \<times> deposit \<Rightarrow> h256" where
  "deposit_sender_key keccak v \<equiv> sender_hash keccak (fst v) (deposit_key keccak (snd v))"

abbreviation token_sender_key :: "(bytes \<Rightarrow> h256) \<Rightarrow> address \<times> address \<Rightarrow> h256" where
  "token_sender_key keccak v \<equiv> token_sender_hash keccak (fst v) (snd v)"

abbreviation message_sender_key :: "(bytes \<Rightarrow> h256) \<Rightarrow> address \<times> h256 \<Rightarrow> h256" where
  "message_sender_key keccak v \<equiv> sender_hash keccak (fst v) (snd v)"

definition foreign_inv ::
    "(bytes \<Rightarrow> h256) \<Rightarrow> u256 \<Rightarrow> address list \<Rightarrow> (call_context \<times> foreign_call) list \<Rightarrow> foreign_bridge \<Rightarrow> bool" where
  "foreign_inv keccak required authorities tr s \<longleftrightarrow>
     fb_requiredSignatures s = required \<and> fb_authorities s = (\<lambda>a. a \<in> set authorities) \<and>
     ballot (deposit_sender_key keccak) (\<lambda>v. deposit_key keccak (snd v)) (set authorities)
       (deposit_votes tr) (fb_deposits_signed s) (fb_num_deposits_signed s) \<and>
     ballot (token_sender_key keccak) (\<lambda>v. snd v) (set authorities)
       (token_votes tr) (fb_tokenAddressApproval_signs s) (fb_num_tokenAddressApproval_signs s) \<and>
     ballot (message_sender_key keccak) (message_sender_key keccak) (set authorities)
       (message_votes keccak tr) (fb_messages_signed s) (fb_num_messages_signed s)"

section \<open>Lemmas\<close>

lemma fold_authorities: "fold (\<lambda>a f. f(a := True)) as f = (\<lambda>a. a \<in> set as \<or> f a)"
  by (induction as arbitrary: f) auto

lemma ForeignBridge_inv:
  assumes "ForeignBridge cx required authorities cost = Some s"
  shows "foreign_inv keccak required authorities [] s" and "fb_log s = []" and "fb_erc20token s = 0"
    and "required \<noteq> 0" and "fb_homeGasPrice s = 1000000000"
  using assms by (auto simp: ForeignBridge_def foreign_inv_def fold_authorities)

lemma onlyAuthority_Some [simp]:
  "onlyAuthority cx s k = Some x \<longleftrightarrow> cx_value cx = 0 \<and> fb_authorities s (cx_sender cx) \<and> k = Some x"
  by (simp add: onlyAuthority_def)

lemma emit_foreign_simps [simp]:
  "fb_log (emit_foreign cx e s) = fb_log s @ [(cx_tx_hash cx, e)]"
  "fb_requiredSignatures (emit_foreign cx e s) = fb_requiredSignatures s"
  "fb_authorities (emit_foreign cx e s) = fb_authorities s"
  "fb_messages (emit_foreign cx e s) = fb_messages s" "fb_signatures (emit_foreign cx e s) = fb_signatures s"
  "fb_messages_signed (emit_foreign cx e s) = fb_messages_signed s"
  "fb_num_messages_signed (emit_foreign cx e s) = fb_num_messages_signed s"
  "fb_deposits_signed (emit_foreign cx e s) = fb_deposits_signed s"
  "fb_num_deposits_signed (emit_foreign cx e s) = fb_num_deposits_signed s"
  "fb_tokenAddressApproval_signs (emit_foreign cx e s) = fb_tokenAddressApproval_signs s"
  "fb_num_tokenAddressApproval_signs (emit_foreign cx e s) = fb_num_tokenAddressApproval_signs s"
  "fb_erc20token (emit_foreign cx e s) = fb_erc20token s"
  by (simp_all add: emit_foreign_def)

lemma foreign_deposit_Some:
  assumes "foreign_deposit keccak erc this cx recipient v hash (s, w) = Some (t, u)"
  defines "key \<equiv> deposit_hash keccak recipient v hash"
  obtains t' where "fb_authorities s (cx_sender cx)" and "fb_erc20token s \<noteq> 0"
    and "\<not> fb_deposits_signed s (sender_hash keccak (cx_sender cx) key)"
    and "t' = s\<lparr>fb_deposits_signed := (fb_deposits_signed s)(sender_hash keccak (cx_sender cx) key := True),
        fb_num_deposits_signed := (fb_num_deposits_signed s)(key := fb_num_deposits_signed s key + 1)\<rparr>"
    and "if fb_num_deposits_signed s key + 1 = fb_requiredSignatures s
      then t = emit_foreign cx (F_Deposit recipient v) t' \<and>
        (\<exists>ok. erc_transfer erc (fb_erc20token s) this recipient v w = Some (u, ok))
      else t = t' \<and> u = w"
  using assms(1) unfolding foreign_deposit_def key_def
  by (auto simp: Let_def split: if_splits)

lemma setTokenAddress_Some:
  assumes "setTokenAddress keccak cx token s = Some t"
  defines "key \<equiv> token_sender_hash keccak (cx_sender cx) token"
  obtains t' where "fb_authorities s (cx_sender cx)" and "\<not> fb_tokenAddressApproval_signs s key"
    and "t' = s\<lparr>fb_tokenAddressApproval_signs := (fb_tokenAddressApproval_signs s)(key := True),
        fb_num_tokenAddressApproval_signs :=
          (fb_num_tokenAddressApproval_signs s)(token := fb_num_tokenAddressApproval_signs s token + 1)\<rparr>"
    and "t = (if fb_num_tokenAddressApproval_signs s token + 1 = fb_requiredSignatures s
      then emit_foreign cx (F_TokenAddress token) (t'\<lparr>fb_erc20token := token\<rparr>) else t')"
  using assms(1) unfolding setTokenAddress_def key_def
  by (auto simp: Let_def split: if_splits)

text \<open>
  Because the submissions are counted by the hash of message and authority, every one that goes
  through is the first of its count.
\<close>

lemma submitSignature_Some:
  assumes "submitSignature keccak ecrecover cx signature message s = Some t"
    and "\<And>h. fb_num_messages_signed s h = (if fb_messages_signed s h then 1 else 0)"
  defines "key \<equiv> sender_hash keccak (cx_sender cx) (keccak message)"
  obtains t' where "fb_authorities s (cx_sender cx)" and "\<not> fb_messages_signed s key"
    and "recoverAddressFromSignedMessage keccak ecrecover signature message = Some (cx_sender cx)"
    and "length message = 116"
    and "t' = s\<lparr>fb_messages := (fb_messages s)(keccak message := message),
        fb_messages_signed := (fb_messages_signed s)(key := True),
        fb_signatures := (fb_signatures s)(signature_index keccak (keccak message) 0 := signature),
        fb_num_messages_signed := (fb_num_messages_signed s)(key := fb_num_messages_signed s key + 1)\<rparr>"
    and "t = (if fb_requiredSignatures s = 1
      then emit_foreign cx (F_CollectedSignatures (cx_sender cx) (keccak message) 1) t' else t')"
proof -
  have fresh: "\<not> fb_messages_signed s key"
    using assms(1) assms(2) [of key]
    by (auto simp: submitSignature_def Let_def bind_eq_Some_conv key_def split: if_splits)
  then have "fb_num_messages_signed s key = 0"
    using assms(2) by simp
  then show thesis
    using assms(1) fresh
    by (intro that [OF _ _ _ _ refl]) (auto simp: submitSignature_def Let_def bind_eq_Some_conv key_def split: if_splits)
qed

lemma foreign_inv_messages:
  "foreign_inv keccak required authorities tr s \<Longrightarrow>
   fb_num_messages_signed s h = (if fb_messages_signed s h then 1 else 0)"
  unfolding foreign_inv_def by (elim conjE) (erule tally_self [OF ballot_tally])

text \<open>Each operation keeps the invariant.\<close>

lemma setTokenAddress_inv:
  assumes inv: "foreign_inv keccak required authorities tr s" and step: "setTokenAddress keccak cx token s = Some t"
  shows "foreign_inv keccak required authorities (tr @ [(cx, FC_SetTokenAddress token)]) t"
  using step
proof (rule setTokenAddress_Some)
  fix t'
  assume new: "fb_authorities s (cx_sender cx)"
      "\<not> fb_tokenAddressApproval_signs s (token_sender_hash keccak (cx_sender cx) token)"
    and "t' = s\<lparr>fb_tokenAddressApproval_signs :=
          (fb_tokenAddressApproval_signs s)(token_sender_hash keccak (cx_sender cx) token := True),
        fb_num_tokenAddressApproval_signs :=
          (fb_num_tokenAddressApproval_signs s)(token := fb_num_tokenAddressApproval_signs s token + 1)\<rparr>"
    and "t = (if fb_num_tokenAddressApproval_signs s token + 1 = fb_requiredSignatures s
      then emit_foreign cx (F_TokenAddress token) (t'\<lparr>fb_erc20token := token\<rparr>) else t')"
  moreover have "ballot (token_sender_key keccak) (\<lambda>v. snd v) (set authorities) (token_votes tr @ [(cx_sender cx, token)])
      ((fb_tokenAddressApproval_signs s)(token_sender_key keccak (cx_sender cx, token) := True))
      ((fb_num_tokenAddressApproval_signs s)(snd (cx_sender cx, token) :=
        fb_num_tokenAddressApproval_signs s (snd (cx_sender cx, token)) + 1))"
    by (rule ballot_vote) (use inv new in \<open>auto simp: foreign_inv_def\<close>)
  ultimately show ?thesis
    using inv by (auto simp: foreign_inv_def)
qed

lemma foreign_deposit_inv:
  assumes inv: "foreign_inv keccak required authorities tr s"
    and step: "foreign_deposit keccak erc this cx recipient v hash (s, w) = Some (t, u)"
  shows "foreign_inv keccak required authorities (tr @ [(cx, FC_Deposit recipient v hash)]) t"
  using step
proof (rule foreign_deposit_Some)
  fix t'
  let ?key = "deposit_hash keccak recipient v hash" and ?v = "(cx_sender cx, (recipient, v, hash))"
  assume new: "fb_authorities s (cx_sender cx)" "\<not> fb_deposits_signed s (sender_hash keccak (cx_sender cx) ?key)"
    and "t' = s\<lparr>fb_deposits_signed := (fb_deposits_signed s)(sender_hash keccak (cx_sender cx) ?key := True),
        fb_num_deposits_signed := (fb_num_deposits_signed s)(?key := fb_num_deposits_signed s ?key + 1)\<rparr>"
    and "if fb_num_deposits_signed s ?key + 1 = fb_requiredSignatures s
      then t = emit_foreign cx (F_Deposit recipient v) t' \<and>
        (\<exists>ok. erc_transfer erc (fb_erc20token s) this recipient v w = Some (u, ok))
      else t = t' \<and> u = w"
  moreover have "ballot (deposit_sender_key keccak) (\<lambda>v. deposit_key keccak (snd v)) (set authorities)
      (deposit_votes tr @ [?v]) ((fb_deposits_signed s)(deposit_sender_key keccak ?v := True))
      ((fb_num_deposits_signed s)(deposit_key keccak (snd ?v) := fb_num_deposits_signed s (deposit_key keccak (snd ?v)) + 1))"
    by (rule ballot_vote) (use inv new in \<open>auto simp: foreign_inv_def deposit_key_def\<close>)
  ultimately show ?thesis
    using inv by (simp add: foreign_inv_def deposit_key_def split: if_splits)
qed

lemma submitSignature_inv:
  assumes inv: "foreign_inv keccak required authorities tr s"
    and step: "submitSignature keccak ecrecover cx sg message s = Some t"
  shows "foreign_inv keccak required authorities (tr @ [(cx, FC_SubmitSignature sg message)]) t"
  using step
proof (rule submitSignature_Some [OF _ foreign_inv_messages [OF inv]])
  fix t'
  let ?v = "(cx_sender cx, keccak message)"
  let ?key = "sender_hash keccak (cx_sender cx) (keccak message)"
  assume new: "fb_authorities s (cx_sender cx)" "\<not> fb_messages_signed s ?key"
    and "t' = s\<lparr>fb_messages := (fb_messages s)(keccak message := message),
      fb_messages_signed := (fb_messages_signed s)(?key := True),
      fb_signatures := (fb_signatures s)(signature_index keccak (keccak message) 0 := sg),
      fb_num_messages_signed := (fb_num_messages_signed s)(?key := fb_num_messages_signed s ?key + 1)\<rparr>"
    and "t = (if fb_requiredSignatures s = 1
      then emit_foreign cx (F_CollectedSignatures (cx_sender cx) (keccak message) 1) t' else t')"
  moreover have "ballot (message_sender_key keccak) (message_sender_key keccak) (set authorities)
      (message_votes keccak tr @ [?v]) ((fb_messages_signed s)(message_sender_key keccak ?v := True))
      ((fb_num_messages_signed s)(message_sender_key keccak ?v := fb_num_messages_signed s (message_sender_key keccak ?v) + 1))"
    by (rule ballot_vote) (use inv new in \<open>auto simp: foreign_inv_def\<close>)
  ultimately show ?thesis
    using inv by (simp add: foreign_inv_def)
qed

lemma foreign_exec_inv:
  assumes inv: "foreign_inv keccak required authorities tr s"
    and step: "foreign_exec keccak ecrecover erc this cx c (s, w) = Some (t, u)"
  shows "foreign_inv keccak required authorities (tr @ [(cx, c)]) t"
proof (cases c)
  case (FC_SetTokenAddress token)
  then show ?thesis using step setTokenAddress_inv [OF inv] by auto
next
  case (FC_Deposit recipient v hash)
  then show ?thesis using step foreign_deposit_inv [OF inv] by auto
next
  case (FC_SubmitSignature sg message)
  then show ?thesis using step submitSignature_inv [OF inv] by auto
qed (use inv step in \<open>auto simp: foreign_inv_def receiveApproval_def setGasLimitDepositRelay_def
    setGasLimitWithdrawConfirm_def Let_def bind_eq_Some_conv\<close>)

lemma foreign_run_inv:
  assumes "foreign_run keccak ecrecover erc this st tr t" and "foreign_inv keccak required authorities [] (fst st)"
  shows "foreign_inv keccak required authorities tr (fst t)"
  using assms
proof (induction rule: foreign_run.induct)
  case (call tr t cx c u)
  then show ?case
    using foreign_exec_inv by (metis prod.collapse)
qed simp_all

text \<open>
  The payments: the deposits that enough authorities have confirmed, each once, in the order in which
  they were completed.
\<close>

definition payments_inv :: "u256 \<Rightarrow> (call_context \<times> foreign_call) list \<Rightarrow> deposit list \<Rightarrow> foreign_bridge \<Rightarrow> bool" where
  "payments_inv required tr ps s \<longleftrightarrow>
     deposit_events (fb_log s) = map (\<lambda>(recipient, v, hash). (recipient, v)) ps \<and> distinct ps \<and>
     set ps = decided (unat required) (deposit_votes tr)"

lemma payments_deposit:
  assumes inv: "foreign_inv keccak required authorities tr s" and pays: "payments_inv required tr ps s"
    and step: "foreign_deposit keccak erc this cx recipient v hash (s, w) = Some (t, u)"
    and inj: "inj_on (deposit_key keccak) (insert (recipient, v, hash) (snd ` set (deposit_votes tr)))"
  shows "\<exists>ps. payments_inv required (tr @ [(cx, FC_Deposit recipient v hash)]) ps t"
  using step
proof (rule foreign_deposit_Some)
  fix t'
  let ?d = "(recipient, v, hash)" and ?vs = "deposit_votes tr"
  let ?key = "deposit_hash keccak recipient v hash"
  assume new: "\<not> fb_deposits_signed s (sender_hash keccak (cx_sender cx) ?key)"
    and t': "t' = s\<lparr>fb_deposits_signed := (fb_deposits_signed s)(sender_hash keccak (cx_sender cx) ?key := True),
        fb_num_deposits_signed := (fb_num_deposits_signed s)(?key := fb_num_deposits_signed s ?key + 1)\<rparr>"
    and t: "if fb_num_deposits_signed s ?key + 1 = fb_requiredSignatures s
      then t = emit_foreign cx (F_Deposit recipient v) t' \<and>
        (\<exists>ok. erc_transfer erc (fb_erc20token s) this recipient v w = Some (u, ok))
      else t = t' \<and> u = w"
  have req: "fb_requiredSignatures s = required"
    and tal: "tally (deposit_sender_key keccak) (\<lambda>v. deposit_key keccak (snd v)) ?vs
      (fb_deposits_signed s) (fb_num_deposits_signed s)"
    using inv by (simp_all add: foreign_inv_def ballot_def)
  have key: "deposit_key keccak ?d = ?key" by (simp add: deposit_key_def)
  have "\<forall>x\<in>set ?vs. deposit_key keccak (snd x) = deposit_key keccak ?d \<longrightarrow> snd x = ?d"
    using inj by (meson imageI inj_onD insertCI)
  note reach = tally_reaches [OF tal this, of required, unfolded key]
  have "(cx_sender cx, ?d) \<notin> set ?vs"
    using tally_fresh [OF tal, of "(cx_sender cx, ?d)"] new by (simp add: key)
  then have a: "cx_sender cx \<notin> voters ?vs ?d"
    by (simp add: voters_def del: set_concat)
  have votes: "deposit_votes (tr @ [(cx, FC_Deposit recipient v hash)]) = ?vs @ [(cx_sender cx, ?d)]"
    by simp
  show ?thesis
  proof (cases "Suc (card (voters ?vs ?d)) = unat required")
    case True
    then have "payments_inv required (tr @ [(cx, FC_Deposit recipient v hash)]) (ps @ [?d]) t"
      using pays t t' reach req decided_vote [OF a, of "unat required"]
      unfolding payments_inv_def votes by simp
    then show ?thesis ..
  next
    case False
    then have "payments_inv required (tr @ [(cx, FC_Deposit recipient v hash)]) ps t"
      using pays t t' reach req decided_vote(1) [OF a, of "unat required"]
      unfolding payments_inv_def votes by simp
    then show ?thesis ..
  qed
qed

lemma payments_exec:
  assumes inv: "foreign_inv keccak required authorities tr s" and pays: "payments_inv required tr ps s"
    and step: "foreign_exec keccak ecrecover erc this cx c (s, w) = Some (t, u)"
    and inj: "inj_on (deposit_key keccak) (snd ` set (deposit_votes (tr @ [(cx, c)])))"
  shows "\<exists>ps. payments_inv required (tr @ [(cx, c)]) ps t"
proof (cases c)
  case (FC_Deposit recipient v hash)
  then show ?thesis
    using step inj payments_deposit [OF inv pays, of erc this cx recipient v hash w t u] by (simp add: Un_commute)
next
  case (FC_SetTokenAddress token)
  then have "setTokenAddress keccak cx token s = Some t" using step by simp
  then have "deposit_events (fb_log t) = deposit_events (fb_log s)"
    by (rule setTokenAddress_Some) auto
  then show ?thesis
    using pays FC_SetTokenAddress by (auto simp: payments_inv_def)
next
  case (FC_SubmitSignature sg message)
  then have "submitSignature keccak ecrecover cx sg message s = Some t" using step by simp
  then have "deposit_events (fb_log t) = deposit_events (fb_log s)"
    by (rule submitSignature_Some [OF _ foreign_inv_messages [OF inv]]) auto
  then show ?thesis
    using pays FC_SubmitSignature by (auto simp: payments_inv_def)
qed (use pays step in \<open>auto simp: payments_inv_def receiveApproval_def setGasLimitDepositRelay_def
    setGasLimitWithdrawConfirm_def Let_def bind_eq_Some_conv\<close>)

lemma foreign_run_payments:
  assumes "foreign_run keccak ecrecover erc this st tr t" and "foreign_inv keccak required authorities [] (fst st)"
    and "fb_log (fst st) = []" and "required \<noteq> 0"
    and "inj_on (deposit_key keccak) (snd ` set (deposit_votes tr))"
  shows "\<exists>ps. payments_inv required tr ps (fst t)"
  using assms
proof (induction rule: foreign_run.induct)
  case start
  then show ?case
    by (auto simp: payments_inv_def decided_Nil unat_gt_0 intro!: exI [of _ "[]"])
next
  case (call tr t cx c u)
  have "inj_on (deposit_key keccak) (snd ` set (deposit_votes tr))"
    by (rule inj_on_subset [OF call.prems(4)]) auto
  then obtain ps where "payments_inv required tr ps (fst t)"
    using call by blast
  moreover have "foreign_inv keccak required authorities tr (fst t)"
    using foreign_run_inv [OF call.hyps(1) call.prems(1)] .
  ultimately show ?case
    using payments_exec [of keccak required authorities tr "fst t" ps ecrecover erc this cx c "snd t" "fst u" "snd u"]
      call.hyps(2) call.prems(4) by simp
qed simp_all

text \<open>The token is what enough authorities have agreed on.\<close>

definition token_inv :: "u256 \<Rightarrow> (call_context \<times> foreign_call) list \<Rightarrow> foreign_bridge \<Rightarrow> bool" where
  "token_inv required tr s \<longleftrightarrow> fb_erc20token s = 0 \<or> fb_erc20token s \<in> decided (unat required) (token_votes tr)"

lemma token_exec:
  assumes inv: "foreign_inv keccak required authorities tr s" and tok: "token_inv required tr s"
    and step: "foreign_exec keccak ecrecover erc this cx c (s, w) = Some (t, u)"
  shows "token_inv required (tr @ [(cx, c)]) t"
proof (cases "fb_erc20token t = fb_erc20token s")
  case True
  then show ?thesis
    using tok decided_mono [of "token_votes tr" "token_votes (tr @ [(cx, c)])"] by (auto simp: token_inv_def)
next
  case False
  have "\<exists>token. c = FC_SetTokenAddress token"
    using False step
    by (cases c) (auto simp: foreign_deposit_def receiveApproval_def submitSignature_def setGasLimitDepositRelay_def
        setGasLimitWithdrawConfirm_def Let_def bind_eq_Some_conv split: if_splits)
  then obtain token where c: "c = FC_SetTokenAddress token" ..
  with step have "setTokenAddress keccak cx token s = Some t" by simp
  then show ?thesis
  proof (rule setTokenAddress_Some)
    fix t'
    let ?vs = "token_votes tr"
    assume new: "\<not> fb_tokenAddressApproval_signs s (token_sender_hash keccak (cx_sender cx) token)"
      and "t' = s\<lparr>fb_tokenAddressApproval_signs :=
          (fb_tokenAddressApproval_signs s)(token_sender_hash keccak (cx_sender cx) token := True),
        fb_num_tokenAddressApproval_signs :=
          (fb_num_tokenAddressApproval_signs s)(token := fb_num_tokenAddressApproval_signs s token + 1)\<rparr>"
      and "t = (if fb_num_tokenAddressApproval_signs s token + 1 = fb_requiredSignatures s
        then emit_foreign cx (F_TokenAddress token) (t'\<lparr>fb_erc20token := token\<rparr>) else t')"
    with False have t: "fb_erc20token t = token" "fb_num_tokenAddressApproval_signs s token + 1 = fb_requiredSignatures s"
      by (auto split: if_splits)
    have tal: "tally (token_sender_key keccak) (\<lambda>v. id (snd v)) ?vs
        (fb_tokenAddressApproval_signs s) (fb_num_tokenAddressApproval_signs s)"
      using inv by (simp add: foreign_inv_def ballot_def)
    have "Suc (card (voters ?vs token)) = unat required"
      using tally_reaches [OF tal, of token required] inv t(2) by (simp add: foreign_inv_def)
    moreover have "cx_sender cx \<notin> voters ?vs token"
      using tally_fresh [OF tal, of "(cx_sender cx, token)"] new by (simp add: voters_def del: set_concat)
    ultimately show ?thesis
      using decided_vote(1) [of "cx_sender cx" ?vs token "unat required"] t(1) c by (simp add: token_inv_def)
  qed
qed

lemma foreign_run_token:
  assumes "foreign_run keccak ecrecover erc this st tr t" and "foreign_inv keccak required authorities [] (fst st)"
    and "fb_erc20token (fst st) = 0"
  shows "token_inv required tr (fst t)"
  using assms
proof (induction rule: foreign_run.induct)
  case (call tr t cx c u)
  then show ?case
    using token_exec [of keccak required authorities tr "fst t" ecrecover erc this cx c "snd t" "fst u" "snd u"]
      foreign_run_inv [OF call.hyps(1) call.prems(1)] by simp
qed (simp_all add: token_inv_def)

text \<open>Collected signatures.\<close>

fun collected :: "foreign_event \<Rightarrow> bool" where
  "collected (F_CollectedSignatures a h n) = True"
| "collected _ = False"

lemma collected_exec:
  assumes "foreign_inv keccak required authorities tr s" and "required \<noteq> 1"
    and "foreign_exec keccak ecrecover erc this cx c (s, w) = Some (t, u)"
    and "(h, e) \<in> set (fb_log t)" and "collected e"
  shows "(h, e) \<in> set (fb_log s)"
proof (cases c)
  case (FC_SubmitSignature sg message)
  then have "submitSignature keccak ecrecover cx sg message s = Some t" using assms(3) by simp
  then show ?thesis
    by (rule submitSignature_Some [OF _ foreign_inv_messages [OF assms(1)]])
      (use assms in \<open>auto simp: foreign_inv_def\<close>)
qed (use assms(3-5) in \<open>auto simp: foreign_deposit_def receiveApproval_def setTokenAddress_def setGasLimitDepositRelay_def
        setGasLimitWithdrawConfirm_def Let_def bind_eq_Some_conv split: if_splits\<close>)

lemma foreign_run_collected:
  assumes "foreign_run keccak ecrecover erc this st tr t" and "foreign_inv keccak required authorities [] (fst st)"
    and "required \<noteq> 1" and "fb_log (fst st) = []" and "(h, e) \<in> set (fb_log (fst t))"
  shows "\<not> collected e"
  using assms
proof (induction rule: foreign_run.induct)
  case (call tr t cx c u)
  then show ?case
    using collected_exec [of keccak required authorities tr "fst t" ecrecover erc this cx c "snd t" "fst u" "snd u" h e]
      foreign_run_inv [OF call.hyps(1) call.prems(1)] by auto
qed simp_all

section \<open>Properties\<close>


text \<open>
  The token of the bridge is unset or one that at least as many different authorities as required
  have agreed on.
\<close>

lemma foreign_token_quorum:
  assumes "ForeignBridge cx required authorities cost = Some s0"
    and "foreign_run keccak ecrecover erc this (s0, w0) tr (s, w)" and "fb_erc20token s \<noteq> 0"
  shows "unat required \<le> card {a \<in> set authorities. (a, fb_erc20token s) \<in> set (token_votes tr)}"
proof -
  note start = ForeignBridge_inv [OF assms(1)]
  have inv: "foreign_inv keccak required authorities tr s" "token_inv required tr s"
    using foreign_run_inv [OF assms(2), of required authorities] foreign_run_token [OF assms(2), of required authorities]
      start(1,3) by simp_all
  have "voters (token_votes tr) d = {a \<in> set authorities. (a, d) \<in> set (token_votes tr)}" for d
    using inv(1) unfolding foreign_inv_def by (elim conjE) (erule ballot_voters)
  then show ?thesis
    using inv(2) assms(3) by (simp add: token_inv_def decided_def del: set_concat)
qed

text \<open>
  C12. When the contract requires any number of signatures but one, it never reports collected
  signatures, whatever the authorities submit: submissions are counted by the hash of message and
  authority, so that no count gets past one. No withdrawal can then be relayed to the home chain.
\<close>

theorem foreign_never_collects:
  assumes "ForeignBridge cx required authorities cost = Some s0"
    and "foreign_run keccak ecrecover erc this (s0, w0) tr (s, w)" and "required \<noteq> 1"
  shows "\<forall>(hash, e)\<in>set (fb_log s). \<not> collected e"
  using foreign_run_collected [OF assms(2) _ assms(3)] ForeignBridge_inv(1,2) [OF assms(1)] by auto

end
