(* ===== verification/TokenBridge.thy ===== *)
theory TokenBridge
  imports ForeignContract
begin

text \<open>
  The foreign bridge and the token together. What the bridge relies on in a token is a locale, met by
  the token of \<^verbatim>\<open>contracts/BridgeableToken.sol\<close>; \<open>approveAndCall\<close> of that token, which calls the bridge
  back, starts a withdrawal. The properties: the confirmation that completes a deposit moves exactly its
  value from the bridge to the recipient and any other moves nothing, and a user who starts a withdrawal
  has exactly the value moved to the bridge and leaves no allowance behind.
\<close>

section \<open>What a token promises\<close>

locale erc20_token =
  fixes erc :: "'w erc20"
  assumes transfer_moves: "erc_transfer erc token sender to v w = Some (w', ok) \<Longrightarrow> sender \<noteq> to \<Longrightarrow>
      \<exists>x y x' y'. erc_balanceOf erc token sender w = Some x \<and> erc_balanceOf erc token to w = Some y \<and>
        erc_balanceOf erc token sender w' = Some x' \<and> erc_balanceOf erc token to w' = Some y' \<and>
        unat x' + unat v = unat x \<and> unat y' = unat y + unat v"
    and transfer_frame: "erc_transfer erc token sender to v w = Some (w', ok) \<Longrightarrow>
      token' \<noteq> token \<or> a \<notin> {sender, to} \<Longrightarrow> erc_balanceOf erc token' a w' = erc_balanceOf erc token' a w"
    and transferFrom_moves: "erc_transferFrom erc token sender from to v w = Some (w', ok) \<Longrightarrow> from \<noteq> to \<Longrightarrow>
      \<exists>x y x' y'. erc_balanceOf erc token from w = Some x \<and> erc_balanceOf erc token to w = Some y \<and>
        erc_balanceOf erc token from w' = Some x' \<and> erc_balanceOf erc token to w' = Some y' \<and>
        unat x' + unat v = unat x \<and> unat y' = unat y + unat v"
begin

text \<open>A confirmation that completes a deposit pays it; any other leaves the tokens alone.\<close>

lemma deposit_pays:
  assumes "foreign_deposit keccak erc this cx recipient v hash (s, w) = Some (t, u)" and "recipient \<noteq> this"
  shows "(t = emit_foreign cx (F_Deposit recipient v) (t\<lparr>fb_log := fb_log s\<rparr>) \<and>
      (\<exists>x y x' y'. erc_balanceOf erc (fb_erc20token s) this w = Some x \<and>
        erc_balanceOf erc (fb_erc20token s) recipient w = Some y \<and>
        erc_balanceOf erc (fb_erc20token s) this u = Some x' \<and>
        erc_balanceOf erc (fb_erc20token s) recipient u = Some y' \<and>
        unat x' + unat v = unat x \<and> unat y' = unat y + unat v) \<and>
      (\<forall>token a. token \<noteq> fb_erc20token s \<or> a \<notin> {this, recipient} \<longrightarrow>
        erc_balanceOf erc token a u = erc_balanceOf erc token a w)) \<or>
    (fb_log t = fb_log s \<and> u = w)"
  using assms(1)
proof (rule foreign_deposit_Some)
  fix t'
  let ?key = "deposit_hash keccak recipient v hash"
  assume t': "t' = s\<lparr>fb_deposits_signed := (fb_deposits_signed s)(sender_hash keccak (cx_sender cx) ?key := True),
        fb_num_deposits_signed := (fb_num_deposits_signed s)(?key := fb_num_deposits_signed s ?key + 1)\<rparr>"
    and t: "if fb_num_deposits_signed s ?key + 1 = fb_requiredSignatures s
      then t = emit_foreign cx (F_Deposit recipient v) t' \<and>
        (\<exists>ok. erc_transfer erc (fb_erc20token s) this recipient v w = Some (u, ok))
      else t = t' \<and> u = w"
  show ?thesis
  proof (cases "fb_num_deposits_signed s ?key + 1 = fb_requiredSignatures s")
    case True
    then obtain ok where paid: "erc_transfer erc (fb_erc20token s) this recipient v w = Some (u, ok)"
      and "t = emit_foreign cx (F_Deposit recipient v) t'" using t by auto
    then have "t = emit_foreign cx (F_Deposit recipient v) (t\<lparr>fb_log := fb_log s\<rparr>)"
      by (simp add: t' emit_foreign_def)
    then show ?thesis
      using transfer_moves [OF paid] transfer_frame [OF paid] assms(2) by blast
  qed (use t t' in simp)
qed

text \<open>A withdrawal locks its tokens before it is announced.\<close>

lemma receive_locks:
  assumes "receiveApproval erc this cx from v tokenContract msg (s, w) = Some (t, u)" and "from \<noteq> this"
  shows "t = emit_foreign cx (F_Withdraw from v (fb_homeGasPrice s)) s \<and> cx_sender cx = fb_erc20token s \<and>
    (\<exists>x y x' y'. erc_balanceOf erc (fb_erc20token s) from w = Some x \<and>
      erc_balanceOf erc (fb_erc20token s) this w = Some y \<and>
      erc_balanceOf erc (fb_erc20token s) from u = Some x' \<and>
      erc_balanceOf erc (fb_erc20token s) this u = Some y' \<and>
      unat x' + unat v = unat x \<and> unat y' = unat y + unat v)"
  using assms transferFrom_moves
  by (fastforce simp: receiveApproval_def bind_eq_Some_conv)

end

section \<open>The token of the repository\<close>

text \<open>The token contracts of a chain; an address without one has \<open>None\<close>.\<close>

type_synonym tokens = "address \<Rightarrow> token option"

definition on_token :: "address \<Rightarrow> (token \<Rightarrow> (token \<times> bool) option) \<Rightarrow> tokens \<Rightarrow> (tokens \<times> bool) option" where
  "on_token token f w =
     Option.bind (w token) (\<lambda>t. map_option (\<lambda>(t, b). (w(token \<mapsto> t), b)) (f t))"

definition token_erc20 :: "tokens erc20" where
  "token_erc20 =
     \<lparr> erc_transfer = (\<lambda>token sender to v. on_token token (token_transfer sender to v)),
       erc_transferFrom = (\<lambda>token sender from to v. on_token token (token_transferFrom sender from to v)),
       erc_allowance = (\<lambda>token owner spender w. map_option (token_allowance owner spender) (w token)),
       erc_balanceOf = (\<lambda>token owner w. map_option (token_balanceOf owner) (w token)) \<rparr>"

text \<open>
  \<open>approveAndCall\<close> of the token at \<open>token\<close>: it sets the allowance, which need not be zero before, and calls
  \<open>receiveApproval\<close> of the spender. For a spender other than the bridge, \<open>others\<close> stands for what its code does.
\<close>

definition approveAndCall ::
    "(address \<Rightarrow> foreign_bridge \<times> tokens \<Rightarrow> (foreign_bridge \<times> tokens) option) \<Rightarrow> address \<Rightarrow> address \<Rightarrow>
     call_context \<Rightarrow> address \<Rightarrow> u256 \<Rightarrow> bytes \<Rightarrow> foreign_bridge \<times> tokens \<Rightarrow> (foreign_bridge \<times> tokens) option" where
  "approveAndCall others this token cx spender v data = (\<lambda>(s, w).
     require (cx_value cx = 0)
     (Option.bind (w token) (\<lambda>t.
      let sender = cx_sender cx;
          t = emit_token (T_Approval sender spender v)
            (t\<lparr>tk_allowed := (tk_allowed t)(sender := (tk_allowed t sender)(spender := v))\<rparr>);
          w = w(token \<mapsto> t)
      in if spender = this
         then receiveApproval token_erc20 this (cx\<lparr>cx_sender := token\<rparr>) sender v token data (s, w)
         else others spender (s, w))))"

interpretation tokens: erc20_token token_erc20
proof
  fix token sender to v w w' ok
  assume "erc_transfer token_erc20 token sender to v w = Some (w', ok)"
  then obtain t t' where t: "w token = Some t" "token_transfer sender to v t = Some (t', ok)" "w' = w(token \<mapsto> t')"
    by (auto simp: token_erc20_def on_token_def bind_eq_Some_conv)
  show "sender \<noteq> to \<Longrightarrow> \<exists>x y x' y'. erc_balanceOf token_erc20 token sender w = Some x \<and>
      erc_balanceOf token_erc20 token to w = Some y \<and> erc_balanceOf token_erc20 token sender w' = Some x' \<and>
      erc_balanceOf token_erc20 token to w' = Some y' \<and> unat x' + unat v = unat x \<and> unat y' = unat y + unat v"
    using t token_transfer_Some(6) [OF t(2)] by (simp add: token_erc20_def token_balanceOf_def)
  show "erc_balanceOf token_erc20 token' a w' = erc_balanceOf token_erc20 token' a w"
    if "token' \<noteq> token \<or> a \<notin> {sender, to}" for token' a
    using that t token_transfer_Some(7) [OF t(2), of a] by (auto simp: token_erc20_def token_balanceOf_def)
next
  fix token sender "from" to v w w' ok
  assume "erc_transferFrom token_erc20 token sender from to v w = Some (w', ok)" and ne: "from \<noteq> to"
  then obtain t t' where t: "w token = Some t" "token_transferFrom sender from to v t = Some (t', ok)" "w' = w(token \<mapsto> t')"
    by (auto simp: token_erc20_def on_token_def bind_eq_Some_conv)
  show "\<exists>x y x' y'. erc_balanceOf token_erc20 token from w = Some x \<and>
      erc_balanceOf token_erc20 token to w = Some y \<and> erc_balanceOf token_erc20 token from w' = Some x' \<and>
      erc_balanceOf token_erc20 token to w' = Some y' \<and> unat x' + unat v = unat x \<and> unat y' = unat y + unat v"
    using t ne token_transferFrom_Some(5) [OF t(2)] by (simp add: token_erc20_def token_balanceOf_def)
qed

section \<open>Lemmas\<close>

lemma two_held:
  assumes "a \<noteq> b"
  shows "unat (f a) + unat (f b) \<le> held f"
proof -
  have "held f = unat (f a) + (unat (f b) + (\<Sum>c\<in>UNIV - {a} - {b}. unat (f c)))"
    unfolding held_def using assms by (simp add: sum.remove [of UNIV a] sum.remove [of "UNIV - {a}" b])
  then show ?thesis by simp
qed

text \<open>In a token whose balances add up to its supply a transfer between two accounts cannot overflow.\<close>

lemma transferFrom_succeeds:
  assumes "supply_inv t" and "v \<le> tk_balances t src" and "v \<le> tk_allowed t src sender" and "src \<noteq> dst"
  shows "\<exists>t'. token_transferFrom sender src dst v t = Some (t', True)"
proof -
  have "unat (tk_balances t src) + unat (tk_balances t dst) < 2 ^ 256"
    using two_held [OF assms(4), of "tk_balances t"] assms(1) unat_less [of "tk_totalSupply t"]
    by (simp add: supply_inv_def)
  then have "unat (tk_balances t dst) + unat v < 2 ^ 256"
    using assms(2) unfolding word_le_nat_alt by linarith
  then have "safeAdd (tk_balances t dst) v = Some (tk_balances t dst + v)"
    using unat_add_lem [of "tk_balances t dst" v] by (simp add: safeAdd_Some)
  then show ?thesis
    using assms(2-4) by (simp add: token_transferFrom_def safeSub_def Let_def)
qed

section \<open>Properties\<close>

text \<open>
  On the token of the repository: a confirmation that completes a deposit moves exactly the value
  from the bridge to the recipient and emits one event, a confirmation that does not complete one
  leaves every token as it was.
\<close>

lemma deposit_moves_tokens:
  assumes "foreign_deposit keccak token_erc20 this cx recipient v hash (s, w) = Some (t, u)" and "recipient \<noteq> this"
  shows "if fb_log t = fb_log s then u = w
    else fb_log t = fb_log s @ [(cx_tx_hash cx, F_Deposit recipient v)] \<and>
      (\<exists>tok tok'. w (fb_erc20token s) = Some tok \<and> u (fb_erc20token s) = Some tok' \<and>
        unat (tk_balances tok' this) + unat v = unat (tk_balances tok this) \<and>
        unat (tk_balances tok' recipient) = unat (tk_balances tok recipient) + unat v)"
  using tokens.deposit_pays [OF assms]
proof (elim disjE conjE exE)
  assume t: "t = emit_foreign cx (F_Deposit recipient v) (t\<lparr>fb_log := fb_log s\<rparr>)"
  then have "fb_log t = fb_log s @ [(cx_tx_hash cx, F_Deposit recipient v)]"
    by (metis emit_foreign_simps(1) foreign_bridge.select_convs(17) foreign_bridge.surjective foreign_bridge.update_convs(17))
  moreover fix x y x' y'
  assume "erc_balanceOf token_erc20 (fb_erc20token s) this w = Some x"
    "erc_balanceOf token_erc20 (fb_erc20token s) recipient w = Some y"
    "erc_balanceOf token_erc20 (fb_erc20token s) this u = Some x'"
    "erc_balanceOf token_erc20 (fb_erc20token s) recipient u = Some y'"
    "unat x' + unat v = unat x" "unat y' = unat y + unat v"
  ultimately show ?thesis
    by (auto simp: token_erc20_def token_balanceOf_def)
qed simp

text \<open>
  A user who has the tokens starts a withdrawal with one call of \<open>approveAndCall\<close>: it goes through,
  moves exactly the value from the user to the bridge, leaves no allowance, and the bridge emits the
  event that the validators wait for, with its fixed gas price for the home chain.
\<close>

lemma approveAndCall_withdraws:
  assumes "w token = Some t" and "supply_inv t" and "v \<le> tk_balances t (cx_sender cx)"
    and "fb_erc20token s = token" and "token \<noteq> 0" and "cx_value cx = 0" and "cx_sender cx \<noteq> this"
  shows "\<exists>t'. approveAndCall others this token cx this v data (s, w) =
      Some (emit_foreign cx (F_Withdraw (cx_sender cx) v (fb_homeGasPrice s)) s, w(token \<mapsto> t')) \<and>
    unat (tk_balances t' (cx_sender cx)) + unat v = unat (tk_balances t (cx_sender cx)) \<and>
    unat (tk_balances t' this) = unat (tk_balances t this) + unat v \<and>
    tk_allowed t' (cx_sender cx) this = 0"
proof -
  let ?a = "cx_sender cx"
  define u where "u = emit_token (T_Approval ?a this v)
    (t\<lparr>tk_allowed := (tk_allowed t)(?a := (tk_allowed t ?a)(this := v))\<rparr>)"
  have "supply_inv u" "tk_balances u = tk_balances t" "tk_allowed u ?a this = v"
    using assms(2) by (simp_all add: u_def emit_token_def supply_inv_def)
  then obtain t' where t': "token_transferFrom this ?a this v u = Some (t', True)"
    using transferFrom_succeeds [of u v ?a this this] assms(3,7) by auto
  have "approveAndCall others this token cx this v data (s, w) =
      Some (emit_foreign cx (F_Withdraw ?a v (fb_homeGasPrice s)) s, w(token \<mapsto> t'))"
    using assms(1,4-6) t' \<open>tk_allowed u ?a this = v\<close>
    by (simp add: approveAndCall_def receiveApproval_def require_def token_erc20_def on_token_def
        token_allowance_def emit_foreign_def Let_def flip: u_def)
  moreover have "tk_allowed t' ?a this = 0"
    using token_transferFrom_Some(7) [OF t'] \<open>tk_allowed u ?a this = v\<close> by (simp add: unat_eq_0)
  ultimately show ?thesis
    using token_transferFrom_Some(5) [OF t' assms(7)] \<open>tk_balances u = tk_balances t\<close> by auto
qed

end
