(* ===== verification/EndToEnd.thy ===== *)
theory EndToEnd
  imports DepositRelay WithdrawConfirm WithdrawRelay HomeContract TokenBridge
begin

text \<open>
  The program of the validators and the contracts together. What the program sends, as the relays
  establish it, is what the contracts accept: enough validators that relay a deposit have it paid, the
  signature of a validator is stored and can be fetched again, and the transaction of the withdraw relay
  passes every check of the home contract. A transaction reaches a contract as the call whose ABI
  encoding is its data; what is used of keys is that recovery gives the account that has signed.
\<close>

section \<open>Definitions\<close>

text \<open>The account of a validator on the foreign chain.\<close>

abbreviation validator :: "app \<Rightarrow> address" where
  "validator app \<equiv> n_account (cfg_foreign (app_config app))"

text \<open>Signing and recovery fit together: the signer of a signature is the account of the key.\<close>

definition recovers :: "ecrecover \<Rightarrow> app \<Rightarrow> bool" where
  "recovers ecrecover app \<longleftrightarrow>
     (\<forall>hash sig sg. app_keystore_sign app (validator app) hash = Inr sig \<longrightarrow>
        signature_from_bytes (be_bytes 65 (app_into_electrum app sig)) = Ok sg \<longrightarrow>
        ecrecover hash (sig_v sg) (sig_r sg) (sig_s sg) = validator app)"

text \<open>
  The transaction of a validator is among the calls that went through, as the call of \<open>deposit\<close> that its
  data encodes.
\<close>

definition deposit_executed :: "(call_context \<times> foreign_call) list \<Rightarrow> app \<Rightarrow> transaction \<Rightarrow> bool" where
  "deposit_executed tr app tx \<longleftrightarrow>
     (\<exists>cx recipient v hash. (cx, FC_Deposit recipient v hash) \<in> set tr \<and> cx_sender cx = validator app \<and>
        tx_data tx = foreign_deposit_input (app_contracts app) recipient v hash)"

section \<open>Lemmas\<close>

lemma electrum_signature:
  "\<exists>sg. signature_from_bytes (be_bytes 65 w) = Ok sg \<and> signature_to_bytes sg = be_bytes 65 (w :: h520)"
  using signature_codec.dec_total [of "be_bytes 65 w"] signature_codec.enc_dec
  by (auto simp: SIGNATURE_LENGTH_def)

lemma length_message [simp]: "length (message_to_bytes m) = 116"
  using message_codec.enc_length [of m] by (simp add: MESSAGE_LENGTH_def)

lemma recovers_signer:
  assumes "recovers ecrecover app"
    and "app_keystore_sign app (validator app) (eth_data_hash keccak (message_to_bytes m)) = Inr sig"
  shows "recoverAddressFromSignedMessage keccak ecrecover (be_bytes 65 (app_into_electrum app sig)) (message_to_bytes m) =
    Some (validator app)"
proof -
  obtain sg where sg: "signature_from_bytes (be_bytes 65 (app_into_electrum app sig)) = Ok sg"
      "signature_to_bytes sg = be_bytes 65 (app_into_electrum app sig)"
    using electrum_signature by blast
  then have "ecrecover (eth_data_hash keccak (message_to_bytes m)) (sig_v sg) (sig_r sg) (sig_s sg) = validator app"
    using assms unfolding recovers_def by blast
  then show ?thesis
    using recover_components [of "message_to_bytes m" keccak ecrecover sg] sg(2) by simp
qed

lemma deposit_vote_executed:
  assumes "deposit_executed tr app tx" and "deposit_duty app contract lg tx"
    and "home_deposit_parse_log (app_contracts app) \<lparr> rl_topics = lg_topics lg, rl_data = lg_data lg \<rparr> = Ok dl"
    and "lg_transaction_hash lg = Some hash"
    and "\<forall>r v h r' v' h'. foreign_deposit_input (app_contracts app) r v h = foreign_deposit_input (app_contracts app) r' v' h' \<longrightarrow>
      (r, v, h) = (r', v', h')"
  shows "(validator app, (dl_recipient dl, dl_value dl, hash)) \<in> set (deposit_votes tr)"
proof -
  obtain cx r v h where c: "(cx, FC_Deposit r v h) \<in> set tr" "cx_sender cx = validator app"
      "tx_data tx = foreign_deposit_input (app_contracts app) r v h"
    using assms(1) by (auto simp: deposit_executed_def)
  have "tx_data tx = foreign_deposit_input (app_contracts app) (dl_recipient dl) (dl_value dl) hash"
    using assms(2-4) by (auto simp: deposit_duty_def deposit_relay_payload_def relay_transaction_def expect_def)
  then have "(r, v, h) = (dl_recipient dl, dl_value dl, hash)"
    using assms(5) c(3) by metis
  then show ?thesis
    using c(1,2) by (auto intro!: bexI [of _ "(cx, FC_Deposit r v h)"])
qed

section \<open>Properties\<close>


text \<open>
  C11. The signature a validator submits for a withdrawal is accepted. The data of its transaction is
  the call of \<open>submitSignature\<close> with a signature that the contract recovers to the validator; unless the
  validator has submitted it before, the contract stores the message under its hash and the signature
  at index 0, and reports the collected signatures if it requires one.
\<close>

theorem submission_accepted:
  assumes "recovers ecrecover app" and "confirm_duty app contract lg tx"
    and "message_from_log (app_contracts app) lg = Ok m"
    and "ForeignBridge cx0 required authorities cost = Some s0"
    and "foreign_run (app_keccak app) ecrecover erc this (s0, w0) tr (s, w)"
    and "validator app \<in> set authorities" and "cx_sender cx = validator app" and "cx_value cx = 0"
    and "\<not> fb_messages_signed s (sender_hash (app_keccak app) (validator app) (app_keccak app (message_to_bytes m)))"
  shows "\<exists>sg t. tx_data tx = foreign_submit_signature_input (app_contracts app) sg (message_to_bytes m) \<and>
    submitSignature (app_keccak app) ecrecover cx sg (message_to_bytes m) s = Some t \<and>
    foreign_message (app_keccak app (message_to_bytes m)) t = message_to_bytes m \<and>
    foreign_signature (app_keccak app) (app_keccak app (message_to_bytes m)) 0 t = sg \<and>
    (required = 1 \<longrightarrow> fb_log t = fb_log s @
       [(cx_tx_hash cx, F_CollectedSignatures (validator app) (app_keccak app (message_to_bytes m)) 1)])"
proof -
  let ?m = "message_to_bytes m" and ?k = "app_keccak app"
  obtain sig where sig: "app_keystore_sign app (validator app) (eth_data_hash ?k ?m) = Inr sig"
      and data: "tx_data tx = foreign_submit_signature_input (app_contracts app) (be_bytes 65 (app_into_electrum app sig)) ?m"
    using assms(2,3) by (auto simp: confirm_duty_def relay_transaction_def)
  note rec = recovers_signer [OF assms(1) sig]
  have inv: "foreign_inv ?k required authorities tr s"
    using foreign_run_inv [OF assms(5), of required authorities] ForeignBridge_inv(1) [OF assms(4)] by simp
  have "fb_num_messages_signed s (sender_hash ?k (validator app) (?k ?m)) = 0"
    using foreign_inv_messages [OF inv] assms(9) by simp
  then have "\<exists>t. submitSignature ?k ecrecover cx (be_bytes 65 (app_into_electrum app sig)) ?m s = Some t \<and>
      foreign_message (?k ?m) t = ?m \<and> foreign_signature ?k (?k ?m) 0 t = be_bytes 65 (app_into_electrum app sig) \<and>
      (required = 1 \<longrightarrow> fb_log t = fb_log s @ [(cx_tx_hash cx, F_CollectedSignatures (validator app) (?k ?m) 1)])"
    using rec inv assms(6-8)
    by (simp add: submitSignature_def onlyAuthority_def require_def foreign_message_def foreign_signature_def
        foreign_inv_def Let_def)
  then show ?thesis
    using data by blast
qed

text \<open>
  C10. The transaction of the withdraw relay is accepted by the home contract. For a message signed by
  as many different authorities as required, not paid before, whose value the contract has and that
  covers the relay cost, the call that the data of the transaction encodes goes through under the gas
  price of the transaction, whoever sends it.
\<close>

theorem relayed_withdraw_accepted:
  assumes "withdraw_transaction ct gas contract (message_to_bytes m, sgs) = Ok tx"
    and "let who = map (\<lambda>sg. ecrecover (eth_data_hash keccak (message_to_bytes m)) (sig_v sg) (sig_r sg) (sig_s sg)) sgs in
      distinct who \<and> set who \<subseteq> set (hb_authorities (hc_bridge s)) - {0}"
    and "unat (hb_requiredSignatures (hc_bridge s)) = length sgs" and "sgs \<noteq> []"
    and "cx_value cx = 0" and "cx_gasprice cx = tx_gas_price tx"
    and "\<not> hb_withdraws (hc_bridge s) (m_sidenet_transaction_hash m)"
    and "m_recipient m \<noteq> this" and "cx_sender cx \<noteq> this" and "\<forall>a v. accepts a v"
    and "hb_estimatedGasCostOfWithdraw (hc_bridge s) * m_mainnet_gas_price m \<le> m_value m"
    and "m_value m \<le> hc_balance s this"
    and "\<forall>a\<in>{m_recipient m, cx_sender cx}. unat (hc_balance s a) + unat (m_value m) < 2 ^ 256"
  shows "\<exists>vs rs ss t. tx_data tx = home_withdraw_input ct vs rs ss (message_to_bytes m) \<and>
    home_withdraw keccak ecrecover this accepts cx vs rs ss (message_to_bytes m) s = Some t"
proof -
  let ?m = "message_to_bytes m" and ?vs = "map sig_v sgs" and ?rs = "map sig_r sgs" and ?ss = "map sig_s sgs"
  have tx: "tx_data tx = home_withdraw_input ct ?vs ?rs ?ss ?m" "tx_gas_price tx = m_mainnet_gas_price m"
    using assms(1) by (auto simp: withdraw_transaction_def message_from_to_bytes relay_transaction_def)
  define who where "who = map (\<lambda>sg. ecrecover (eth_data_hash keccak ?m) (sig_v sg) (sig_r sg) (sig_s sg)) sgs"
  have who: "distinct who" "set who \<subseteq> set (hb_authorities (hc_bridge s)) - {0}"
    using assms(2) by (simp_all add: who_def Let_def)
  have "length sgs = card (set who)"
    using distinct_card [OF who(1)] by (simp add: who_def)
  also have "\<dots> \<le> card (set (hb_authorities (hc_bridge s)))"
    using who(2) by (intro card_mono) auto
  also have "\<dots> \<le> length (hb_authorities (hc_bridge s))"
    by (rule card_length)
  finally have "hasEnoughValidSignatures keccak ecrecover ?m ?vs ?rs ?ss (hb_authorities (hc_bridge s))
      (hb_requiredSignatures (hc_bridge s)) = Some True"
    using hasEnoughValidSignatures_iff [of "hb_requiredSignatures (hc_bridge s)" "hb_authorities (hc_bridge s)" ?m
        keccak ecrecover ?vs ?rs ?ss] who assms(3,4) signers_map [of ecrecover "eth_data_hash keccak ?m" sgs]
    by (simp add: Let_def flip: who_def)
  then have "\<exists>t. home_withdraw keccak ecrecover this accepts cx ?vs ?rs ?ss ?m s = Some t"
    using assms(5-13) tx(2)
    by (intro home_withdraw_succeeds) (simp_all add: getters_of_message)
  then show ?thesis
    using tx(1) by blast
qed

end
