(* ===== verification/ContractExamples.thy ===== *)
theory ContractExamples
  imports BridgeExamples EndToEnd
begin

text \<open>
  The theorems on the contracts and on their interplay with the program, applied in the setting of
  \<open>Examples\<close>: a bridge with one or two authorities, a token, a message and its signature.
\<close>

section \<open>The setting\<close>

definition demo_call :: "address \<Rightarrow> call_context" where
  "demo_call a = \<lparr> cx_sender = a, cx_value = 0, cx_gasprice = 7, cx_tx_hash = 70, cx_block = 8 \<rparr>"

text \<open>Two keys can have signed: that of account 9, with recovery id 1, and that of account 4.\<close>

definition demo_ecrecover :: ecrecover where
  "demo_ecrecover h v r s = (if v = 1 then 9 else if v = 2 then 4 else 0)"

definition demo_signature :: "u8 \<Rightarrow> signature" where
  "demo_signature v = \<lparr> sig_v = v, sig_r = 0, sig_s = 0 \<rparr>"

definition demo_withdrawal :: message_to_mainnet where
  "demo_withdrawal = \<lparr> m_recipient = 5, m_value = 6, m_sidenet_transaction_hash = 77, m_mainnet_gas_price = 7 \<rparr>"

definition demo_home_bridge :: home_bridge where
  "demo_home_bridge = \<lparr> hb_deployedAtBlock = 8, hb_gasLimitWithdrawRelay = 0, hb_requiredSignatures = 1,
     hb_estimatedGasCostOfWithdraw = 0, hb_authorities = [9, 4], hb_withdraws = (\<lambda>_. False) \<rparr>"

definition demo_home_chain :: home_chain where
  "demo_home_chain = \<lparr> hc_bridge = demo_home_bridge, hc_balance = (\<lambda>_. 10), hc_log = [] \<rparr>"

lemma demo_fields [simp]:
  "cx_sender (demo_call a) = a" "cx_value (demo_call a) = 0" "cx_gasprice (demo_call a) = 7"
  "cx_tx_hash (demo_call a) = 70" "cx_block (demo_call a) = 8"
  "sig_v (demo_signature v) = v" "sig_r (demo_signature v) = 0" "sig_s (demo_signature v) = 0"
  "m_recipient demo_withdrawal = 5" "m_value demo_withdrawal = 6"
  "m_sidenet_transaction_hash demo_withdrawal = 77" "m_mainnet_gas_price demo_withdrawal = 7"
  "hb_requiredSignatures demo_home_bridge = 1" "hb_estimatedGasCostOfWithdraw demo_home_bridge = 0"
  "hb_authorities demo_home_bridge = [9, 4]" "hb_withdraws demo_home_bridge = (\<lambda>_. False)"
  "hc_bridge demo_home_chain = demo_home_bridge" "hc_balance demo_home_chain = (\<lambda>_. 10)" "hc_log demo_home_chain = []"
  by (simp_all add: demo_call_def demo_signature_def demo_withdrawal_def demo_home_bridge_def demo_home_chain_def)

lemma demo_HomeBridge: "HomeBridge (demo_call 3) 1 [9, 4] 0 = Some demo_home_bridge"
  by (simp add: HomeBridge_Some demo_home_bridge_def)

section \<open>The home contract\<close>

lemma demo_enough:
  "hasEnoughValidSignatures (\<lambda>_. 3) demo_ecrecover (message_to_bytes demo_withdrawal) [1] [0] [0] [9, 4] 1 = Some True"
  using hasEnoughValidSignatures_iff [of 1 "[9, 4]" "message_to_bytes demo_withdrawal" "\<lambda>_. 3" demo_ecrecover "[1]" "[0]" "[0]"]
  by (simp add: signers_def demo_ecrecover_def)

lemma demo_withdraw:
  obtains t where "home_withdraw (\<lambda>_. 3) demo_ecrecover 100 (\<lambda>_ _. True) (demo_call 9) [1] [0] [0]
    (message_to_bytes demo_withdrawal) demo_home_chain = Some t"
  using home_withdraw_succeeds [of "\<lambda>_. 3" demo_ecrecover "message_to_bytes demo_withdrawal" "[1]" "[0]" "[0]"
      demo_home_chain "demo_call 9" 100 "\<lambda>_ _. True"] demo_enough
  by (auto simp: getters_of_message)

theorem home_withdraw_quorum_once_witness:
  "\<exists>t. home_run (\<lambda>_. 3) demo_ecrecover 100 demo_home_chain [message_to_bytes demo_withdrawal] t \<and>
     quorum_signed (\<lambda>_. 3) demo_ecrecover [9, 4] 1 (message_to_bytes demo_withdrawal) \<and>
     home_withdraw (\<lambda>_. 3) demo_ecrecover 100 (\<lambda>_ _. True) (demo_call 9) [1] [0] [0]
       (message_to_bytes demo_withdrawal) t = None"
proof -
  obtain t where "home_withdraw (\<lambda>_. 3) demo_ecrecover 100 (\<lambda>_ _. True) (demo_call 9) [1] [0] [0]
      (message_to_bytes demo_withdrawal) demo_home_chain = Some t"
    by (rule demo_withdraw)
  then have run: "home_run (\<lambda>_. 3) demo_ecrecover 100 demo_home_chain [message_to_bytes demo_withdrawal] t"
    using home_run.withdraw [OF home_run.start] by fastforce
  then show ?thesis
    using home_withdraw_quorum_once [OF demo_HomeBridge _ run] by auto
qed

theorem home_withdraw_pays_witness:
  "\<exists>t. home_withdraw (\<lambda>_. 3) demo_ecrecover 100 (\<lambda>_ _. True) (demo_call 9) [1] [0] [0]
       (message_to_bytes demo_withdrawal) demo_home_chain = Some t \<and>
     unat (hc_balance t 100) + 6 = 10 \<and> unat (hc_balance t 5) = 16"
proof -
  obtain t where t: "home_withdraw (\<lambda>_. 3) demo_ecrecover 100 (\<lambda>_ _. True) (demo_call 9) [1] [0] [0]
      (message_to_bytes demo_withdrawal) demo_home_chain = Some t"
    by (rule demo_withdraw)
  then show ?thesis
    using home_withdraw_pays [OF t] by (auto simp: getters_of_message Let_def)
qed


theorem relayed_withdraw_accepted_witness:
  "\<exists>tx vs rs ss t.
     withdraw_transaction demo_contracts 10 100 (message_to_bytes demo_withdrawal, [demo_signature 1]) = Ok tx \<and>
     tx_data tx = home_withdraw_input demo_contracts vs rs ss (message_to_bytes demo_withdrawal) \<and>
     home_withdraw (\<lambda>_. 3) demo_ecrecover 100 (\<lambda>_ _. True) (demo_call 9) vs rs ss
       (message_to_bytes demo_withdrawal) demo_home_chain = Some t"
proof -
  obtain tx where tx: "withdraw_transaction demo_contracts 10 100 (message_to_bytes demo_withdrawal, [demo_signature 1]) = Ok tx"
      "tx_gas_price tx = 7"
    by (simp add: withdraw_transaction_def message_from_to_bytes relay_transaction_def)
  then show ?thesis
    using relayed_withdraw_accepted [OF tx(1), of demo_ecrecover "\<lambda>_. 3" demo_home_chain "demo_call 9" 100 "\<lambda>_ _. True"]
    by (simp add: demo_ecrecover_def)
qed

section \<open>The foreign contract\<close>

definition demo_token :: token where
  "demo_token = (token_constructor 1)\<lparr>tk_mintAgents := (\<lambda>_. False)(1 := True), tk_totalSupply := 10 ^ 18,
     tk_balances := (\<lambda>_. 0)(200 := 10 ^ 18),
     tk_log := [T_MintingAgentChanged 1 True, T_Transfer 0 200 (10 ^ 18)]\<rparr>"

lemma demo_token_reached: "token_step\<^sup>*\<^sup>* (token_constructor 1) demo_token"
proof -
  let ?t = "(token_constructor 1)\<lparr>tk_mintAgents := (\<lambda>_. False)(1 := True), tk_log := [T_MintingAgentChanged 1 True]\<rparr>"
  have "token_setMintAgent 1 1 True (token_constructor 1) = Some ?t"
    by (simp add: token_setMintAgent_def token_constructor_def require_def emit_token_def)
  moreover have "token_mint 1 200 1 ?t = Some demo_token"
    by (simp add: token_mint_def token_constructor_def require_def emit_token_def safeAdd_def demo_token_def)
  ultimately show ?thesis
    by (meson rtranclp.rtrancl_into_rtrancl rtranclp.rtrancl_refl token_step.intros(4,5))
qed


text \<open>
  A bridge with account 9 and 4 as authorities, at address 200. Account 9 has the token at address 300
  set and confirms a deposit.
\<close>

definition demo_foreign_bridge :: "u256 \<Rightarrow> foreign_bridge" where
  "demo_foreign_bridge required = the (ForeignBridge (demo_call 3) required [9, 4] 0)"

lemma demo_ForeignBridge:
  "ForeignBridge (demo_call 3) 1 [9, 4] 0 = Some (demo_foreign_bridge 1)"
  "ForeignBridge (demo_call 3) 2 [9, 4] 0 = Some (demo_foreign_bridge 2)"
  by (simp_all add: demo_foreign_bridge_def ForeignBridge_def require_def)

definition demo_tokens :: tokens where
  "demo_tokens = [300 \<mapsto> demo_token]"

abbreviation demo_history :: "(call_context \<times> foreign_call) list" where
  "demo_history \<equiv> [(demo_call 9, FC_SetTokenAddress 300), (demo_call 9, FC_Deposit 5 6 77)]"

lemma demo_run:
  obtains s w where "foreign_run (\<lambda>_. 3) demo_ecrecover token_erc20 200 (demo_foreign_bridge 1, demo_tokens) demo_history (s, w)"
proof -
  let ?k = "\<lambda>_. 3 :: h256" and ?b = "demo_foreign_bridge 1"
  obtain s1 where s1: "foreign_exec ?k demo_ecrecover token_erc20 200 (demo_call 9) (FC_SetTokenAddress 300) (?b, demo_tokens) =
      Some (s1, demo_tokens)" "fb_erc20token s1 = 300" "fb_requiredSignatures s1 = 1" "fb_authorities s1 9"
      "fb_deposits_signed s1 = (\<lambda>_. False)" "fb_num_deposits_signed s1 = (\<lambda>_. 0)"
    by (simp add: demo_foreign_bridge_def ForeignBridge_def require_def setTokenAddress_def onlyAuthority_def Let_def)
  obtain t where "token_transfer 200 5 6 demo_token = Some (t, True)"
    by (simp add: token_transfer_def demo_token_def safeSub_def safeAdd_def Let_def)
  then have "erc_transfer token_erc20 300 200 5 6 demo_tokens = Some (demo_tokens(300 \<mapsto> t), True)"
    by (simp add: token_erc20_def on_token_def demo_tokens_def)
  then obtain s2 where "foreign_exec ?k demo_ecrecover token_erc20 200 (demo_call 9) (FC_Deposit 5 6 77) (s1, demo_tokens) =
      Some (s2, demo_tokens(300 \<mapsto> t))"
    using s1(2-6) by (simp add: foreign_deposit_def onlyAuthority_def require_def Let_def)
  then show thesis
    using that foreign_run.call [OF foreign_run.call [OF foreign_run.start s1(1)]] by fastforce
qed


text \<open>Two authorities submit their signatures where two are required. The hash here is the first 20 bytes.\<close>

definition demo_hash :: "bytes \<Rightarrow> h256" where
  "demo_hash bs = be_word (take 20 bs)"

lemma demo_sender_hash: "sender_hash demo_hash a h = word_of_nat (unat a)"
  using of_be_to_be [of "unat a" 20] unat_less [of a]
  by (simp add: sender_hash_def demo_hash_def be_word_def be_bytes_def)

abbreviation demo_submission :: "u8 \<Rightarrow> address \<Rightarrow> call_context \<times> foreign_call" where
  "demo_submission v a \<equiv>
     (demo_call a, FC_SubmitSignature (signature_to_bytes (demo_signature v)) (message_to_bytes demo_withdrawal))"

lemma demo_submissions:
  obtains s where "foreign_run demo_hash demo_ecrecover token_erc20 200 (demo_foreign_bridge 2, demo_tokens)
    [demo_submission 1 9, demo_submission 2 4] (s, demo_tokens)"
proof -
  let ?b = "demo_foreign_bridge 2"
  have rec: "recoverAddressFromSignedMessage demo_hash demo_ecrecover (signature_to_bytes (demo_signature v))
      (message_to_bytes demo_withdrawal) = Some (demo_ecrecover 0 v 0 0)" for v
    by (simp add: recover_components demo_ecrecover_def)
  obtain s1 where s1: "foreign_exec demo_hash demo_ecrecover token_erc20 200 (demo_call 9)
      (snd (demo_submission 1 9)) (?b, demo_tokens) = Some (s1, demo_tokens)"
      "fb_requiredSignatures s1 = 2" "fb_authorities s1 4"
      "fb_num_messages_signed s1 4 = 0" "fb_messages_signed s1 4 = False"
    by (simp add: submitSignature_def rec demo_ecrecover_def demo_sender_hash demo_foreign_bridge_def ForeignBridge_def
        require_def onlyAuthority_def Let_def)
  obtain s2 where "foreign_exec demo_hash demo_ecrecover token_erc20 200 (demo_call 4)
      (snd (demo_submission 2 4)) (s1, demo_tokens) = Some (s2, demo_tokens)"
    using s1(2-5) by (simp add: submitSignature_def rec demo_ecrecover_def demo_sender_hash require_def onlyAuthority_def Let_def)
  then show thesis
    using that foreign_run.call [OF foreign_run.call [OF foreign_run.start s1(1)]] by fastforce
qed

theorem foreign_never_collects_witness:
  "\<exists>s. foreign_run demo_hash demo_ecrecover token_erc20 200 (demo_foreign_bridge 2, demo_tokens)
       [demo_submission 1 9, demo_submission 2 4] (s, demo_tokens) \<and>
     (70, F_CollectedSignatures 4 (demo_hash (message_to_bytes demo_withdrawal)) 2) \<notin> set (fb_log s)"
proof -
  obtain s where run: "foreign_run demo_hash demo_ecrecover token_erc20 200 (demo_foreign_bridge 2, demo_tokens)
      [demo_submission 1 9, demo_submission 2 4] (s, demo_tokens)"
    by (rule demo_submissions)
  have "(70, F_CollectedSignatures 4 (demo_hash (message_to_bytes demo_withdrawal)) 2) \<notin> set (fb_log s)"
    using foreign_never_collects [OF demo_ForeignBridge(2) run] by force
  then show ?thesis
    using run by blast
qed

section \<open>Program and contracts\<close>

text \<open>The validator of the setting with an encoding of \<open>deposit\<close> that keeps all its arguments.\<close>

definition demo_validator :: app where
  "demo_validator = demo_app\<lparr>app_contracts := demo_contracts\<lparr>foreign_deposit_input :=
     (\<lambda>r v h. be_bytes 20 r @ be_bytes 32 v @ be_bytes 32 h)\<rparr>\<rparr>"

lemma demo_validator_fields [simp]:
  "app_config demo_validator = demo_config" "app_keccak demo_validator = (\<lambda>_. 3)"
  "foreign_deposit_input (app_contracts demo_validator) = (\<lambda>r v h. be_bytes 20 r @ be_bytes 32 v @ be_bytes 32 h)"
  "home_deposit_parse_log (app_contracts demo_validator) = (\<lambda>_. Ok \<lparr> dl_recipient = 5, dl_value = 6 \<rparr>)"
  by (simp_all add: demo_validator_def)

lemma be_bytes_inject: "LENGTH('a::len) \<le> 8 * n \<Longrightarrow> be_bytes n (a :: 'a word) = be_bytes n b \<Longrightarrow> a = b"
  by (metis be_word_be_bytes)

lemma demo_encoding:
  "be_bytes 20 r @ be_bytes 32 v @ be_bytes 32 h = be_bytes 20 r' @ be_bytes 32 v' @ be_bytes 32 h' \<longrightarrow>
   (r, v, h) = (r', v', h')" for r r' :: address and v v' :: u256 and h h' :: h256
  by (auto intro: be_bytes_inject [of 20] be_bytes_inject [of 32])


lemma to_be_last: "to_be (Suc n) x ! n = word_of_nat x"
  by (simp add: nth_append)

theorem submission_accepted_witness:
  "\<exists>sg t. submitSignature (\<lambda>_. 3) demo_ecrecover (demo_call 9) sg (message_to_bytes demo_withdrawal) (demo_foreign_bridge 1) = Some t \<and>
     fb_log t = [(70, F_CollectedSignatures 9 3 1)]"
proof -
  have "sig_v sg = 1" if "signature_from_bytes (be_bytes 65 (1 :: h520)) = Ok sg" for sg
    using that to_be_last [of 64 1] by (auto simp: signature_from_bytes_def SIGNATURE_LENGTH_def be_bytes_def split: if_splits)
  then have rec: "recovers demo_ecrecover demo_validator"
    by (auto simp: recovers_def demo_validator_def demo_ecrecover_def)
  have m: "message_from_log (app_contracts demo_validator) demo_log = Ok demo_withdrawal"
    by (simp add: message_from_log_def demo_validator_def demo_withdrawal_def)
  then have "\<exists>tx. confirm_duty demo_validator 200 demo_log tx"
    by (auto simp: confirm_duty_def demo_validator_def)
  then obtain tx where duty: "confirm_duty demo_validator 200 demo_log tx" ..
  have run: "foreign_run (app_keccak demo_validator) demo_ecrecover token_erc20 200 (demo_foreign_bridge 1, demo_tokens) []
      (demo_foreign_bridge 1, demo_tokens)"
    by (rule foreign_run.start)
  have "fb_log (demo_foreign_bridge 1) = []" "fb_messages_signed (demo_foreign_bridge 1) = (\<lambda>_. False)"
    by (simp_all add: demo_foreign_bridge_def ForeignBridge_def require_def)
  then show ?thesis
    using submission_accepted [OF rec duty m demo_ForeignBridge(1) run, of "demo_call 9"] by auto
qed

end
