(* ===== verification/UnitTests.thy ===== *)
theory UnitTests
  imports BridgeExamples
begin

text \<open>
  The repository's own tests (the \<open>tests\<close> modules of \<^verbatim>\<open>bridge/src\<close> and the log stream scenarios of
  \<^verbatim>\<open>tests/tests/log_stream.rs\<close>) replayed on the model: the same inputs, and the outputs the tests
  assert. What the tests get from other libraries (JSON, the ABI encoding, the printed filters) is
  given here for the inputs they use.
\<close>

section \<open>Gas prices\<close>

text \<open>The node of the tests in \<^verbatim>\<open>gas_price.rs\<close>, and what their JSON documents contain.\<close>

definition test_node :: node where
  "test_node =
     \<lparr> n_account = 0, n_contract_bin = None, n_request_timeout = 5, n_poll_interval = 1,
       n_required_confirmations = 0, n_rpc_host = ''https://rpc'', n_rpc_port = 443,
       n_password = ''password'', n_gas_price_oracle_url = Some ''https://gas.price'',
       n_gas_price_speed = Fast, n_gas_price_timeout = 5, n_default_gas_price = 15000000000,
       n_concurrent_http_requests = DEFAULT_CONCURRENCY \<rparr>"

definition test_documents :: "(string \<times> (string \<times> json) list) list" where
  "test_documents =
     [(''{\"cow\": \"moo\"}'', [(''cow'', JString ''moo'')]),
      (''{\"fast\": 12.0}'', [(''fast'', JNumber 12)])]"

definition test_parse_json :: "bytes \<Rightarrow> string + (string \<rightharpoonup> json)" where
  "test_parse_json bs =
     (case map_of (map (map_prod ascii id) test_documents) bs of
        None \<Rightarrow> Inl ''invalid type''
      | Some doc \<Rightarrow> Inr (map_of doc))"

text \<open>Make a stream whose retriever answers once, and poll it: the price it yields.\<close>

definition gas_price_test :: "oracle_reply \<Rightarrow> u64 option" where
  "gas_price_test reply =
     (case new_with_retriever Some (\<lambda>_. [T_Tick]) test_node [[reply]] of
        Ok s \<Rightarrow>
          (case gas_price_poll test_parse_json s of
             Some (_, Ok (Ready price)) \<Rightarrow> price
           | _ \<Rightarrow> None)
      | _ \<Rightarrow> None)"

lemmas gas_price_evals =
  gas_price_test_def new_with_retriever_def gas_price_poll_def poll_loop.simps gas_price_body_def
  oracle_price_def test_parse_json_def test_documents_def test_node_def expect_def Let_def ascii_def

lemma test_errored_request:
  "gas_price_test (OR_Fail (from_kind (OtherError ''something went wrong''))) = Some 15000000000"
  by (simp add: gas_price_evals)

lemma test_bad_json: "gas_price_test (OR_Chunk (ascii ''bad json'')) = Some 15000000000"
  by (simp add: gas_price_evals)

lemma test_unexpected_json: "gas_price_test (OR_Chunk (ascii ''{\"cow\": \"moo\"}'')) = Some 15000000000"
  by (simp add: gas_price_evals)

lemma test_non_object_json: "gas_price_test (OR_Chunk (ascii ''3'')) = Some 15000000000"
  by (simp add: gas_price_evals)

lemma test_price_wei: "gas_price_wei 12 = 12000000000"
  using f64_round_of_nat [of 12] f64_round_of_nat [of 12000000000] trunc_u64_of_nat [of 12000000000]
  by (simp add: gas_price_wei_def f64_mult_def)

lemma test_correct_json: "gas_price_test (OR_Chunk (ascii ''{\"fast\": 12.0}'')) = Some 12000000000"
  by (simp add: gas_price_evals test_price_wei)

section \<open>Log streams\<close>

text \<open>
  The mocked transport of the tests answers the requests of a connection in order, each at once, with
  the responses it was given; a filter is written the way \<open>web3\<close> serializes it.
\<close>

datatype mocked_response = MR_Block u256 | MR_Logs "log list"

fun mr_block :: "mocked_response \<Rightarrow> u256" where
  "mr_block (MR_Block n) = n"
| "mr_block (MR_Logs lgs) = 0"

fun mr_logs :: "mocked_response \<Rightarrow> log list" where
  "mr_logs (MR_Logs lgs) = lgs"
| "mr_logs (MR_Block n) = []"

fun hex :: "nat \<Rightarrow> string" where
  "hex n = (if n < 16 then [''0123456789abcdef'' ! n] else hex (n div 16) @ [''0123456789abcdef'' ! (n mod 16)])"

declare hex.simps [simp del]

lemma hex_eval:
  "n < 16 \<Longrightarrow> hex n = [''0123456789abcdef'' ! n]"
  "16 \<le> n \<Longrightarrow> hex n = hex (n div 16) @ [''0123456789abcdef'' ! (n mod 16)]"
  by (simp_all add: hex.simps [of n])

lemma trim_filter1_eval:
  "trim_filter1 [] = []"
  "last (v # vs) = JNull \<Longrightarrow> trim_filter1 (v # vs) = trim_filter1 (butlast (v # vs))"
  "last (v # vs) \<noteq> JNull \<Longrightarrow> trim_filter1 (v # vs) = v # vs"
  by (simp_all add: trim_filter1.simps [of "[]"] trim_filter1.simps [of "v # vs"] del: butlast.simps last.simps)

definition hex_padded :: "nat \<Rightarrow> nat \<Rightarrow> json" where
  "hex_padded k n = (let h = hex n in JString (''0x'' @ replicate (k - length h) (CHR ''0'') @ h))"

definition json_option :: "('a \<Rightarrow> json) \<Rightarrow> 'a option \<Rightarrow> json" where
  "json_option f x = (case x of None \<Rightarrow> JNull | Some v \<Rightarrow> f v)"

fun json_block :: "block_number \<Rightarrow> json" where
  "json_block (Number n) = hex_padded 0 (unat n)"
| "json_block Latest = JString ''latest''"
| "json_block Earliest = JString ''earliest''"
| "json_block Pending = JString ''pending''"

definition json_topic :: "h256 list option \<Rightarrow> json" where
  "json_topic = json_option (\<lambda>ts. JArray (map (\<lambda>t. hex_padded 64 (unat t)) ts))"

definition json_filter :: "log_filter \<Rightarrow> json" where
  "json_filter flt = JObject
     [(''address'', json_option (\<lambda>as. JArray (map (\<lambda>a. hex_padded 40 (unat a)) as)) (flt_address flt)),
      (''fromBlock'', json_option json_block (flt_from_block flt)),
      (''limit'', JNull),
      (''toBlock'', json_option json_block (flt_to_block flt)),
      (''topics'', json_option (\<lambda>(t0, t1, t2, t3).
         JArray [json_topic t0, json_topic t1, json_topic t2, json_topic t3]) (flt_topics flt))]"

definition mocked_transport :: "mocked_response list \<Rightarrow> transport" where
  "mocked_transport responses = demo_transport
     \<lparr> tr_block_number := (\<lambda>h. [Inner (A_Value (mr_block (responses ! (length h - 1))))]),
       tr_logs := (\<lambda>h. [Inner (A_Value (mr_logs (responses ! (length h - 1))))]),
       tr_serialize_filter := json_filter \<rparr>"

text \<open>\<open>stream.take(n).collect()\<close>, for a stream that never has to wait.\<close>

fun take_collect :: "('s \<Rightarrow> ('s \<times> 'a option poll) option) \<Rightarrow> nat \<Rightarrow> 's \<Rightarrow> ('a list \<times> 's) option" where
  "take_collect poll 0 s = Some ([], s)"
| "take_collect poll (Suc n) s =
     (case poll s of
        Some (t, Ok (Ready (Some v))) \<Rightarrow> map_option (map_prod (Cons v) id) (take_collect poll n t)
      | _ \<Rightarrow> None)"

lemma take_collect_numeral [simp]:
  "take_collect poll (numeral k) s =
     (case poll s of
        Some (t, Ok (Ready (Some v))) \<Rightarrow> map_option (map_prod (Cons v) id) (take_collect poll (pred_numeral k) t)
      | _ \<Rightarrow> None)"
  by (simp add: numeral_eq_Suc)

text \<open>A scenario: what the stream yields, and the requests that were made, in order.\<close>

definition log_stream_test ::
    "log_stream_init \<Rightarrow> nat \<Rightarrow> mocked_response list \<Rightarrow> (log_stream_item list \<times> rpc_call list) option" where
  "log_stream_test init n responses =
     map_option (\<lambda>(its, _, d). (its, rev (ch_calls d)))
       (take_collect (log_stream_poll (mocked_transport responses)) n
          (log_stream (\<lambda>_. [T_Tick, T_Tick, T_Tick, T_Tick]) init, default_node_info))"

definition test_init :: "u64 \<Rightarrow> log_filter \<Rightarrow> usize \<Rightarrow> log_stream_init" where
  "test_init after flt confirmations =
     \<lparr> lsi_after = after, lsi_filter = flt, lsi_request_timeout = 5, lsi_poll_interval = 0,
       lsi_confirmations = confirmations \<rparr>"

definition test_item :: "u64 \<Rightarrow> u64 \<Rightarrow> log list \<Rightarrow> log_stream_item" where
  "test_item a b lgs = \<lparr> it_from = a, it_to = b, it_logs = lgs \<rparr>"

definition test_query :: "json \<Rightarrow> json \<Rightarrow> string \<Rightarrow> string \<Rightarrow> rpc_call" where
  "test_query addresses topics a b = Eth_getLogs (JObject
     [(''address'', addresses), (''fromBlock'', JString a), (''limit'', JNull),
      (''toBlock'', JString b), (''topics'', topics)])"

lemmas log_stream_evals =
  log_stream_test_def test_init_def test_item_def test_query_def mocked_transport_def log_stream_def
  log_stream_poll_def poll_loop.simps log_stream_body_def request_defs Let_def saturating_sub_def
  low_u64_def range_filter_def trim_filter_def json_filter_def json_option_def hex_padded_def hex_eval
  default_filter_def json_topic_def trim_filter1_eval

lemma log_stream_basic:
  "log_stream_test (test_init 10 default_filter 10) 2
     [MR_Block 0x1010, MR_Logs [], MR_Block 0x1010, MR_Block 0x1011, MR_Logs []] =
   Some ([test_item 0xb 0x1006 [], test_item 0x1007 0x1007 []],
     [Eth_blockNumber, test_query JNull JNull ''0xb'' ''0x1006'',
      Eth_blockNumber, Eth_blockNumber, test_query JNull JNull ''0x1007'' ''0x1007''])"
  by (simp add: log_stream_evals)

lemma log_stream_rollback:
  "log_stream_test (test_init 10 default_filter 10) 2
     [MR_Block 0x17, MR_Logs [], MR_Block 0x16, MR_Block 0x17, MR_Block 0x19, MR_Logs []] =
   Some ([test_item 0xb 0xd [], test_item 0xe 0xf []],
     [Eth_blockNumber, test_query JNull JNull ''0xb'' ''0xd'',
      Eth_blockNumber, Eth_blockNumber, Eth_blockNumber, test_query JNull JNull ''0xe'' ''0xf''])"
  by (simp add: log_stream_evals)

lemma log_stream_rollback_before_init:
  "log_stream_test (test_init 10 default_filter 10) 1 [MR_Block 0x13, MR_Block 0x14, MR_Block 0x17, MR_Logs []] =
   Some ([test_item 0xb 0xd []],
     [Eth_blockNumber, Eth_blockNumber, Eth_blockNumber, test_query JNull JNull ''0xb'' ''0xd''])"
  by (simp add: log_stream_evals)

lemma log_stream_zero_confirmations:
  "log_stream_test (test_init 10 default_filter 0) 3
     [MR_Block 0x13, MR_Logs [], MR_Block 0x14, MR_Logs [], MR_Block 0x14, MR_Block 0x17, MR_Logs []] =
   Some ([test_item 0xb 0x13 [], test_item 0x14 0x14 [], test_item 0x15 0x17 []],
     [Eth_blockNumber, test_query JNull JNull ''0xb'' ''0x13'',
      Eth_blockNumber, test_query JNull JNull ''0x14'' ''0x14'',
      Eth_blockNumber, Eth_blockNumber, test_query JNull JNull ''0x15'' ''0x17''])"
  by (simp add: log_stream_evals)

lemma log_stream_filter_with_address:
  "log_stream_test
     (test_init 11 (default_filter\<lparr>flt_address := Some [0x1111111111111111111111111111111111111111]\<rparr>) 0) 2
     [MR_Block 0x13, MR_Logs [], MR_Block 0x14, MR_Logs []] =
   Some ([test_item 0xc 0x13 [], test_item 0x14 0x14 []],
     (let addresses = JArray [JString ''0x1111111111111111111111111111111111111111''] in
      [Eth_blockNumber, test_query addresses JNull ''0xc'' ''0x13'',
       Eth_blockNumber, test_query addresses JNull ''0x14'' ''0x14'']))"
  by (simp add: log_stream_evals)

text \<open>The topics a query does not restrict are trimmed from its filter.\<close>

lemma log_stream_filter_with_topics:
  "log_stream_test
     (test_init 11 (default_filter\<lparr>flt_topics :=
        Some (Some [0x2222222222222222222222222222222222222222222222222222222222222222], None, None, None)\<rparr>) 0) 2
     [MR_Block 0x13, MR_Logs [], MR_Block 0x14, MR_Logs []] =
   Some ([test_item 0xc 0x13 [], test_item 0x14 0x14 []],
     (let topics = JArray [JArray [JString ''0x2222222222222222222222222222222222222222222222222222222222222222'']] in
      [Eth_blockNumber, test_query JNull topics ''0xc'' ''0x13'',
       Eth_blockNumber, test_query JNull topics ''0x14'' ''0x14'']))"
  by (simp add: log_stream_evals)

definition test_log :: "u8 \<Rightarrow> log" where
  "test_log b = \<lparr> lg_topics = [], lg_data = [b], lg_transaction_hash = None \<rparr>"

lemma log_stream_get_log:
  "log_stream_test (test_init 10 default_filter 10) 1 [MR_Block 0x1010, MR_Logs [test_log 0x10]] =
   Some ([test_item 0xb 0x1006 [test_log 0x10]],
     [Eth_blockNumber, test_query JNull JNull ''0xb'' ''0x1006''])"
  by (simp add: log_stream_evals)

lemma log_stream_get_multiple_logs:
  "log_stream_test (test_init 10 default_filter 10) 3
     [MR_Block 0x1010, MR_Logs [test_log 0x10], MR_Block 0x1011, MR_Logs [], MR_Block 0x1012,
      MR_Logs [test_log 0x20, test_log 0x30]] =
   Some ([test_item 0xb 0x1006 [test_log 0x10], test_item 0x1007 0x1007 [],
          test_item 0x1008 0x1008 [test_log 0x20, test_log 0x30]],
     [Eth_blockNumber, test_query JNull JNull ''0xb'' ''0x1006'',
      Eth_blockNumber, test_query JNull JNull ''0x1007'' ''0x1007'',
      Eth_blockNumber, test_query JNull JNull ''0x1008'' ''0x1008''])"
  by (simp add: log_stream_evals)

section \<open>The database\<close>

text \<open>
  \<open>test_database_updates\<close>: a bridge whose event stream yields the given blocks updates its database and
  saves it for each of them; afterwards the file is read.
\<close>

definition bridge_saves :: "bridge_checked list \<Rightarrow> string option \<Rightarrow> database \<times> string option" where
  "bridge_saves checks file =
     fold (\<lambda>check (db, file).
         let db = database_update db check in (db, snd (save_database demo_to_toml IO_Fine db file)))
       checks (default_database, file)"

definition test_load :: "string option \<Rightarrow> database result" where
  "test_load file = database_load demo_from_toml id
     (\<lambda>_. case file of None \<Rightarrow> Inl (IoError NotFound []) | Some s \<Rightarrow> Inr (Inr s)) ''db''"

lemmas save_evals =
  bridge_saves_def test_load_def save_database_def database_save_def database_to_string_def overwrite_def
  database_load_def database_from_str_def default_database_def Let_def

lemma test_database_updates:
  defines "first \<equiv> snd (bridge_saves [DepositRelay 1] None)"
  shows "test_load first = Ok (default_database\<lparr>checked_deposit_relay := 1\<rparr>)"
    and "test_load (snd (bridge_saves [DepositRelay 2, WithdrawConfirm 3, WithdrawRelay 2] first)) =
      Ok (default_database\<lparr>checked_deposit_relay := 2, checked_withdraw_confirm := 3, checked_withdraw_relay := 2\<rparr>)"
  unfolding first_def by (simp_all add: save_evals)

section \<open>The configuration\<close>

text \<open>
  \<open>load_full_setup_from_str\<close> and \<open>load_minimal_setup_from_str\<close>: the contents of the TOML documents, and
  the configurations they give in a build without the \<open>deploy\<close> feature.
\<close>

definition test_load_node :: "address \<Rightarrow> u64 option \<Rightarrow> usize option \<Rightarrow> string \<Rightarrow> u16 option \<Rightarrow> load_node" where
  "test_load_node account interval confirmations host port =
     \<lparr> ln_account = account, ln_contract_bin = [], ln_request_timeout = None, ln_poll_interval = interval,
       ln_required_confirmations = confirmations, ln_rpc_host = Some host, ln_rpc_port = port,
       ln_password = ''password'', ln_gas_price_oracle_url = None, ln_gas_price_speed = None,
       ln_gas_price_timeout = None, ln_default_gas_price = None, ln_concurrent_http_requests = None \<rparr>"

definition test_load_config :: "path \<Rightarrow> load_node \<Rightarrow> load_node \<Rightarrow> load_transactions option \<Rightarrow> load_config" where
  "test_load_config keys home foreign txs =
     \<lparr> lc_home = home, lc_foreign = foreign,
       lc_authorities = \<lparr> la_accounts = [], la_required_signatures = 2 \<rparr>,
       lc_transactions = txs, lc_estimated_gas_cost_of_withdraw = 0, lc_keystore = keys \<rparr>"

definition test_config_node :: "address \<Rightarrow> duration \<Rightarrow> usize \<Rightarrow> string \<Rightarrow> node" where
  "test_config_node account interval confirmations host =
     \<lparr> n_account = account, n_contract_bin = None, n_request_timeout = DEFAULT_TIMEOUT, n_poll_interval = interval,
       n_required_confirmations = confirmations, n_rpc_host = host, n_rpc_port = 8545, n_password = ''password'',
       n_gas_price_oracle_url = None, n_gas_price_speed = DEFAULT_GAS_PRICE_SPEED,
       n_gas_price_timeout = DEFAULT_GAS_PRICE_TIMEOUT_SECS, n_default_gas_price = DEFAULT_GAS_PRICE_WEI,
       n_concurrent_http_requests = DEFAULT_CONCURRENCY \<rparr>"

definition test_config :: "path \<Rightarrow> node \<Rightarrow> node \<Rightarrow> config" where
  "test_config keys home foreign =
     \<lparr> cfg_home = home, cfg_foreign = foreign,
       cfg_authorities = \<lparr> au_accounts = None, au_required_signatures = None \<rparr>,
       cfg_txs = default_transactions False, cfg_estimated_gas_cost_of_withdraw = None, cfg_keystore = keys \<rparr>"

abbreviation test_account :: address where
  "test_account \<equiv> 0x1B68Cb0B50181FC4006Ce572cF346e596E51818b"

lemmas config_evals =
  config_load_from_str_def config_from_load_struct_def node_from_load_struct_def transactions_from_load_struct_def
  load_or_default_def default_transactions_def test_load_node_def test_load_config_def test_config_node_def
  test_config_def default_defs expect_def Let_def

lemma load_full_setup_from_str:
  "config_load_from_str False read_bin
     (\<lambda>_. Inr (test_load_config ''/keys''
        (test_load_node test_account (Some 2) (Some 100) ''127.0.0.1'' (Some 8545))
        (test_load_node 1 None None ''127.0.0.1'' (Some 8545))
        (Some \<lparr> lts_home_deploy = None, lts_foreign_deploy = None, lts_deposit_relay = None,
                lts_withdraw_confirm = None, lts_withdraw_relay = None \<rparr>))) document True =
   Ok (test_config ''/keys''
     (test_config_node test_account 2 100 ''127.0.0.1'') (test_config_node 1 1 12 ''127.0.0.1''))"
  by (simp add: config_evals)

lemma load_minimal_setup_from_str:
  "config_load_from_str False read_bin
     (\<lambda>_. Inr (test_load_config ''/keys/''
        (test_load_node test_account None None [] None) (test_load_node 1 None None [] None) None)) document True =
   Ok (test_config ''/keys/'' (test_config_node test_account 1 12 []) (test_config_node 1 1 12 []))"
  by (simp add: config_evals)

text \<open>The same endpoints are refused when insecure ones are not allowed.\<close>

lemma load_minimal_setup_insecure:
  "config_load_from_str False read_bin
     (\<lambda>_. Inr (test_load_config ''/keys/''
        (test_load_node test_account None None [] None) (test_load_node 1 None None [] None) None)) document False =
   Err (from_kind (ConfigError (''RPC endpoints must use TLS,  doesn't'')))"
  by (simp add: config_evals starts_with_def)

section \<open>Payloads\<close>

text \<open>
  The tests of \<open>deposit_relay_payload\<close> and \<open>signatures_payload\<close>. The arguments and fields of the calls and
  events they use are all of 32 bytes in the ABI encoding, the calls after a selector of four.
\<close>

definition abi_word :: "nat \<Rightarrow> bytes \<Rightarrow> 'a::len word" where
  "abi_word i bs = be_word (subslice (32 * i) (32 * i + 32) bs)"

definition abi_call :: "u32 \<Rightarrow> u256 list \<Rightarrow> bytes" where
  "abi_call selector args = be_bytes 4 selector @ concat (map (be_bytes 32) args)"

definition abi_contracts :: contracts where
  "abi_contracts = demo_contracts
     \<lparr> home_deposit_parse_log := (\<lambda>raw.
         Ok \<lparr> dl_recipient = abi_word 0 (rl_data raw), dl_value = abi_word 1 (rl_data raw) \<rparr>),
       foreign_collected_signatures_parse_log := (\<lambda>raw.
         Ok \<lparr> cs_authority_responsible_for_relay = abi_word 0 (rl_data raw),
              cs_message_hash = abi_word 1 (rl_data raw),
              cs_number_of_collected_signatures = abi_word 2 (rl_data raw) \<rparr>),
       foreign_deposit_input := (\<lambda>recipient v hash. abi_call 0x26b3293f [ucast recipient, v, hash]),
       foreign_message_input := (\<lambda>hash. abi_call 0x490a32c6 [hash]),
       foreign_signature_input := (\<lambda>hash index. abi_call 0x1812d996 [hash, ucast index]) \<rparr>"

abbreviation test_authority :: u256 where
  "test_authority \<equiv> 0xaff3454fce5edbc8cca8697c15331677e6ebcccc"

definition payload_log :: "u256 list \<Rightarrow> log" where
  "payload_log ws =
     \<lparr> lg_topics = [0xe1fffcc4923d04b559f4d29a8bfc6cda04eb5b0d3c460751c2402c5c5cc9109c],
       lg_data = concat (map (be_bytes 32) ws),
       lg_transaction_hash = Some 0x884edad9ce6fa2440d8a54cc123490eb96d2768479d49ff9c7366125a9424364 \<rparr>"

lemma subslice_concat_words:
  "i < length ws \<Longrightarrow> subslice (32 * i) (32 * i + 32) (concat (map (be_bytes 32) ws)) = be_bytes 32 (ws ! i)"
proof (induction ws arbitrary: i)
  case (Cons w ws)
  then show ?case
    by (cases i) (simp_all add: subslice_def)
qed simp

lemma be_word_resize: "(be_word (be_bytes 32 (w :: u256)) :: 'a::len word) = ucast w"
proof -
  have "unat w < 256 ^ 32"
    using unat_less [of w] by simp
  then show ?thesis
    by (simp add: be_word_def be_bytes_def of_be_to_be)
qed

lemma abi_word_concat:
  "i < length ws \<Longrightarrow> (abi_word i (concat (map (be_bytes 32) ws)) :: 'a::len word) = ucast (ws ! i :: u256)"
  by (simp only: abi_word_def subslice_concat_words be_word_resize)

text \<open>The parts of the bindings the payloads use.\<close>

lemma abi_deposit_parse_log [simp]:
  "home_deposit_parse_log abi_contracts \<lparr> rl_topics = t, rl_data = concat (map (be_bytes 32) [a :: u256, b]) \<rparr> =
     Ok \<lparr> dl_recipient = ucast a, dl_value = ucast b \<rparr>"
  by (simp add: abi_contracts_def abi_word_concat del: concat.simps list.map)

lemma abi_collected_parse_log [simp]:
  "foreign_collected_signatures_parse_log abi_contracts \<lparr> rl_topics = t, rl_data = concat (map (be_bytes 32) [a, b, c]) \<rparr> =
     Ok \<lparr> cs_authority_responsible_for_relay = ucast a, cs_message_hash = b, cs_number_of_collected_signatures = c \<rparr>"
  by (simp add: abi_contracts_def abi_word_concat del: concat.simps list.map)

lemma abi_inputs [simp]:
  "foreign_deposit_input abi_contracts r v h = abi_call 0x26b3293f [ucast r, v, h]"
  "foreign_message_input abi_contracts h = abi_call 0x490a32c6 [h]"
  "foreign_signature_input abi_contracts h k = abi_call 0x1812d996 [h, ucast k]"
  by (simp_all add: abi_contracts_def)

lemma payload_log_fields:
  "lg_data (payload_log ws) = concat (map (be_bytes 32) ws)"
  "lg_transaction_hash (payload_log ws) = Some 0x884edad9ce6fa2440d8a54cc123490eb96d2768479d49ff9c7366125a9424364"
  by (simp_all add: payload_log_def)

lemma test_deposit_relay_payload:
  "deposit_relay_payload abi_contracts (payload_log [test_authority, 0xf0]) =
     Ok (abi_call 0x26b3293f
       [test_authority, 0xf0, 0x884edad9ce6fa2440d8a54cc123490eb96d2768479d49ff9c7366125a9424364])"
  by (simp add: deposit_relay_payload_def payload_log_fields expect_def Let_def del: concat.simps list.map)

lemma abi_call_count: "u256_from_slice (drop 4 (abi_call sel [n])) = Ok n"
  by (simp add: abi_call_def u256_from_slice_def be_word_be_bytes)

lemma length_abi_call: "length (abi_call sel [n]) = 36"
  by (simp add: abi_call_def)

lemmas signatures_evals =
  signatures_payload_def payload_log_fields slice_from_def abi_call_count length_abi_call low_u32_def upt_rec expect_def
  Let_def

lemma test_signatures_payload:
  "signatures_payload abi_contracts log_info 0xaff3454fce5edbc8cca8697c15331677e6ebcccc
     (payload_log [test_authority, 0xf0, 2]) =
   Ok (Some \<lparr> ra_signature_payloads = [abi_call 0x1812d996 [0xf0, 0], abi_call 0x1812d996 [0xf0, 1]],
              ra_message_payload = abi_call 0x490a32c6 [0xf0] \<rparr>)"
  by (simp add: signatures_evals del: concat.simps list.map(2)) simp

lemma test_signatures_payload_not_ours:
  "signatures_payload abi_contracts log_info 0xaff3454fce5edbc8cca8697c15331677e6ebcccd
     (payload_log [test_authority, 0xf0, 2]) = Ok None"
  by (simp add: signatures_evals del: concat.simps list.map)

section \<open>Relays\<close>

text \<open>
  The scenarios of \<^verbatim>\<open>tests/tests\<close> for the relays in which there is nothing to send: blocks are reported
  once they are confirmed, and only the chain the relay reads is asked.
\<close>

definition test_topic :: "h256 \<Rightarrow> topic_filter" where
  "test_topic t = \<lparr> tf_topic0 = [t], tf_topic1 = [], tf_topic2 = [], tf_topic3 = [] \<rparr>"

definition test_app :: "mocked_response list \<Rightarrow> mocked_response list \<Rightarrow> app" where
  "test_app home foreign = demo_app
     \<lparr> app_config := demo_config
         \<lparr> cfg_home := demo_node\<lparr>n_required_confirmations := 12\<rparr>,
           cfg_foreign := demo_node\<lparr>n_required_confirmations := 12\<rparr> \<rparr>,
       app_home := mocked_transport home, app_foreign := mocked_transport foreign,
       app_contracts := abi_contracts
         \<lparr> home_deposit_filter := test_topic 0xe1fffcc4923d04b559f4d29a8bfc6cda04eb5b0d3c460751c2402c5c5cc9109c,
           foreign_withdraw_filter := test_topic 0xf279e6a1f5e320cca91135676d9cb6e44ca8a08c0b88342bcdb1144f6511b568,
           foreign_collected_signatures_filter :=
             test_topic 0xeb043d149eedb81369bec43d4c3a3a53087debc88d2525f13bfaa3eecda28b5c \<rparr>,
       app_timer_interval := (\<lambda>_ _. [T_Tick, T_Tick, T_Tick]) \<rparr>"

definition test_world :: world where
  "test_world =
     \<lparr> w_home = default_node_info, w_foreign = default_node_info, w_home_balance = Some 99999999999,
       w_foreign_balance = Some 99999999999, w_home_gas_price = 1, w_foreign_gas_price = 1, w_running = True \<rparr>"

definition relay_test ::
    "('s \<times> world \<Rightarrow> (('s \<times> world) \<times> bridge_checked option poll) option) \<Rightarrow> 's \<Rightarrow> nat \<Rightarrow>
     (bridge_checked list \<times> rpc_call list \<times> rpc_call list) option" where
  "relay_test poll s n =
     map_option (\<lambda>(checks, _, w). (checks, rev (ch_calls (w_home w)), rev (ch_calls (w_foreign w))))
       (take_collect poll n (s, test_world))"

definition relay_query :: "string \<Rightarrow> string \<Rightarrow> string \<Rightarrow> rpc_call" where
  "relay_query topic = test_query (JArray [JString ''0x0000000000000000000000000000000000000000''])
     (JArray [JArray [JString topic]])"

lemma zero_padding: "replicate 39 (CHR ''0'') = ''000000000000000000000000000000000000000''"
  by (simp add: numeral_eq_Suc)

lemmas relay_evals =
  log_stream_evals zero_padding relay_test_def relay_query_def test_app_def test_topic_def test_world_def default_database_def web3_filter_def
  web3_topic_def futures_unordered_collect_def batch_poll_def collect_poll_def u256_of_def

lemma deposit_relay_basic:
  defines "app \<equiv> test_app [MR_Block 0x1011, MR_Logs [], MR_Block 0x1012, MR_Logs []] []"
    and "topic \<equiv> ''0xe1fffcc4923d04b559f4d29a8bfc6cda04eb5b0d3c460751c2402c5c5cc9109c''"
  shows "relay_test (deposit_relay_poll app) (create_deposit_relay app default_database 17) 2 =
    Some ([DepositRelay 0x1005, DepositRelay 0x1006],
      [Eth_blockNumber, relay_query topic ''0x1'' ''0x1005'', Eth_blockNumber, relay_query topic ''0x1006'' ''0x1006''], [])"
  unfolding app_def topic_def by (simp add: relay_evals deposit_evals deposits_filter_def)

lemmas confirm_evals =
  create_withdraw_confirm_def withdraw_confirm_logs_init_def withdraw_confirm_poll_def withdraw_confirm_body_def
  confirm_gas_def withdraws_filter_def

lemma withdraw_confirm_basic:
  defines "app \<equiv> test_app [] [MR_Block 0x1011, MR_Logs [], MR_Block 0x1012, MR_Logs []]"
    and "topic \<equiv> ''0xf279e6a1f5e320cca91135676d9cb6e44ca8a08c0b88342bcdb1144f6511b568''"
  shows "relay_test (withdraw_confirm_poll app) (create_withdraw_confirm app default_database 17) 2 =
    Some ([WithdrawConfirm 0x1005, WithdrawConfirm 0x1006], [],
      [Eth_blockNumber, relay_query topic ''0x1'' ''0x1005'', Eth_blockNumber, relay_query topic ''0x1006'' ''0x1006''])"
  unfolding app_def topic_def by (simp add: relay_evals confirm_evals)

text \<open>The first block number is not far enough for the confirmations.\<close>

lemma withdraw_confirm_confirmations:
  defines "app \<equiv> test_app [] [MR_Block 0x0100, MR_Block 0x1011, MR_Logs [], MR_Block 0x1012, MR_Logs []]"
    and "topic \<equiv> ''0xf279e6a1f5e320cca91135676d9cb6e44ca8a08c0b88342bcdb1144f6511b568''"
  shows "relay_test (withdraw_confirm_poll app)
      (create_withdraw_confirm app (default_database\<lparr>checked_withdraw_confirm := 0xf5\<rparr>) 17) 2 =
    Some ([WithdrawConfirm 0x1005, WithdrawConfirm 0x1006], [],
      [Eth_blockNumber, Eth_blockNumber, relay_query topic ''0xf6'' ''0x1005'', Eth_blockNumber,
       relay_query topic ''0x1006'' ''0x1006''])"
  unfolding app_def topic_def by (simp add: relay_evals confirm_evals)

lemma withdraw_relay_no_log_no_relay:
  defines "app \<equiv> test_app [] [MR_Block 0x1011, MR_Logs [], MR_Block 0x1012, MR_Logs []]"
    and "topic \<equiv> ''0xeb043d149eedb81369bec43d4c3a3a53087debc88d2525f13bfaa3eecda28b5c''"
  shows "relay_test (withdraw_relay_poll app) (create_withdraw_relay app default_database 17) 2 =
    Some ([WithdrawRelay 0x1005, WithdrawRelay 0x1006], [],
      [Eth_blockNumber, relay_query topic ''0x1'' ''0x1005'', Eth_blockNumber, relay_query topic ''0x1006'' ''0x1006''])"
  unfolding app_def topic_def
  by (simp add: relay_evals withdraw_evals collected_signatures_filter_def List.map_filter_def)

end
