(* ===== verification/Build.thy ===== *)
theory Build
  imports Errors
begin

text \<open>
  The build scripts \<^verbatim>\<open>bridge/build.rs\<close> and \<^verbatim>\<open>cli/build.rs\<close>: the first refuses an old compiler and
  compiles the contracts, the second names the version of the program after the state of the
  repository. Running \<open>rustc\<close>, \<open>solc\<close> and \<open>git\<close> are parameters; the result has the lines printed for
  cargo.
\<close>

section \<open>Compiling the contracts\<close>

text \<open>A version with its pre-release identifier, empty for a release, which comes after all of its pre-releases.\<close>

record version =
  ver_major :: nat
  ver_minor :: nat
  ver_patch :: nat
  ver_pre :: string

definition version_below :: "version \<Rightarrow> version \<Rightarrow> bool" where
  "version_below a b \<longleftrightarrow>
     ver_major a < ver_major b \<or> ver_major a = ver_major b \<and>
       (ver_minor a < ver_minor b \<or> ver_minor a = ver_minor b \<and>
         (ver_patch a < ver_patch b \<or> ver_patch a = ver_patch b \<and> ver_pre a \<noteq> [] \<and> ver_pre b = []))"

definition minimum_required_version :: version where
  "minimum_required_version = \<lparr> ver_major = 1, ver_minor = 26, ver_patch = 0, ver_pre = [] \<rparr>"

definition check_rustc_version :: "version option \<Rightarrow> unit result" where
  "check_rustc_version rustc =
     (case rustc of
        Some v \<Rightarrow> if version_below v minimum_required_version
                  then Panic ''Invalid rustc version, `poa-bridge` requires rustc >= 1.26.0'' else Ok ()
      | None \<Rightarrow> Ok ())"

text \<open>How a process ended: with an exit code or by a signal; success is exit code 0.\<close>

datatype exit_status = Exited int | Signaled

definition build_bridge :: "version option \<Rightarrow> io_error + exit_status \<Rightarrow> string list result" where
  "build_bridge rustc solc =
     and_then (check_rustc_version rustc) (\<lambda>_.
     case solc of
       Inr status \<Rightarrow>
         (if status = Exited 0 then Ok [''cargo:rerun-if-changed=../contracts/bridge.sol'']
          else (case status of
              Exited code \<Rightarrow> Panic ''`solc` exited with error exit status code''
            | Signaled \<Rightarrow> Panic ''`solc` exited because it was terminated by a signal''))
     | Inl err \<Rightarrow>
         (if io_kind err = NotFound
          then Panic ''`solc` executable not found in `$PATH`''
          else Panic ''an error occurred when trying to spawn `solc`''))"

section \<open>The version of the program\<close>

definition trim :: "string \<Rightarrow> string" where
  "trim s = (let space = (\<lambda>c. c \<in> set [CHR '' '', CHR 0x09, CHR 0x0A, CHR 0x0B, CHR 0x0C, CHR 0x0D]) in
     rev (dropWhile space (rev (dropWhile space s))))"

text \<open>The output of \<open>git describe --long --tags --always\<close>, without its first character.\<close>

definition build_cli :: "(bytes \<Rightarrow> string option) \<Rightarrow> io_error + (exit_status \<times> bytes) \<Rightarrow> string list result" where
  "build_cli from_utf8 git =
     (case git of
        Inl e \<Rightarrow> Panic ''called `Result::unwrap()` on an `Err` value''
      | Inr (status, stdout) \<Rightarrow>
          and_then
            (if status = Exited 0
             then if stdout = [] then Panic ''range start index 1 out of range for slice of length 0''
                  else and_then (expect ''called `Result::unwrap()` on an `Err` value'' (from_utf8 (drop 1 stdout))) (\<lambda>s.
                    Ok [''cargo:rustc-env=CARGO_PKG_VERSION='' @ trim s])
             else Ok []) (\<lambda>lines.
          Ok (lines @ [''cargo:rerun-if-changed=nonexistentfile''])))"

section \<open>Lemmas\<close>

text \<open>The contracts are compiled exactly when \<open>solc\<close> succeeds and the compiler is new enough or unknown.\<close>

lemma build_bridge_Ok_iff:
  "(\<exists>lines. build_bridge rustc solc = Ok lines) \<longleftrightarrow>
     solc = Inr (Exited 0) \<and> (\<forall>v. rustc = Some v \<longrightarrow> \<not> version_below v minimum_required_version)"
  by (auto simp: build_bridge_def check_rustc_version_def split: option.splits sum.splits exit_status.splits)

text \<open>
  The version loses its first character even when it has no leading \<open>v\<close>, as when the repository has no
  tags and \<open>git\<close> answers with a commit hash.
\<close>

lemma build_cli_drops_first:
  "from_utf8 bs = Some s \<Longrightarrow> build_cli from_utf8 (Inr (Exited 0, b # bs)) =
    Ok [''cargo:rustc-env=CARGO_PKG_VERSION='' @ trim s, ''cargo:rerun-if-changed=nonexistentfile'']"
  by (simp add: build_cli_def expect_def)

end
