(* ===== verification/Spec2Isabelle.thy ===== *)
theory Spec2Isabelle
  imports ContractExamples UnitTests Build
begin

text \<open>
  A verification development for the POA bridge, the program a validator of a bridge between two
  Ethereum-like chains runs (crates \<^verbatim>\<open>src/bridge\<close> and \<^verbatim>\<open>src/cli\<close>), and the contracts it is built for
  (\<^verbatim>\<open>src/contracts\<close>).

  \<^bold>\<open>The program.\<close> A validator watches a \<^emph>\<open>home\<close> and a \<^emph>\<open>foreign\<close> chain through the RPC interface of one
  node each. Three relays do the work. The \<^emph>\<open>deposit relay\<close> reads \<open>Deposit\<close> events of the home contract
  and calls \<open>ForeignBridge.deposit\<close> for each. \<^emph>\<open>Withdraw confirmation\<close> reads \<open>Withdraw\<close> events of the
  foreign contract, signs the message to the home chain each stands for, and submits the signature.
  The \<^emph>\<open>withdraw relay\<close> reads \<open>CollectedSignatures\<close> events of the foreign contract, fetches message and
  signatures, and calls \<open>HomeBridge.withdraw\<close>. Every relay owns a log stream, which cuts the chain into
  ranges of confirmed blocks, and sends its transactions through nonce checks, which share one nonce
  cell for each node. When all transactions of a range are sent the relay reports the last block of
  the range. An event stream merges the relays and polls them only while both balances are known and
  the program has not been asked to stop; the bridge stores every reported block in the database and
  in its file, from which a later run continues. The command line program sets all of this up, runs
  it, and turns the way it ends into an exit code. On the chains two contracts are the other end:
  \<open>HomeBridge\<close> takes deposits and pays out what enough authorities have signed, \<open>ForeignBridge\<close> pays a
  deposit out in tokens once enough authorities have confirmed it, and collects their signatures for
  withdrawals, which a user starts from the token.

  \<^bold>\<open>Theories\<close>, in the order of their imports; the operations keep the names of the source, and a state
  machine \<open>X\<close> with a \<open>poll\<close> is a record of its fields with the datatype of its states, a definition
  \<open>X_body\<close> for one iteration of its loop, and \<open>X_poll\<close> for the loop.

  \<^item> \<open>Prelude\<close>: machine integers as words, byte codecs, slices, strings.
  \<^item> \<open>Errors\<close> (\<^verbatim>\<open>error.rs\<close>): error kinds and the result type \<open>Ok\<close>, \<open>Err\<close>, \<open>Panic\<close>.
  \<^item> \<open>Futures\<close> (\<^verbatim>\<open>macros.rs\<close> and the futures crate): poll results, replies, the loop of a \<open>poll\<close>, runs of
    streams with steps of the environment in between.
  \<^item> \<open>Contracts\<close> (\<^verbatim>\<open>contracts.rs\<close>), \<open>Message\<close> (\<^verbatim>\<open>message_to_mainnet.rs\<close>, \<^verbatim>\<open>signature.rs\<close>), \<open>Config\<close> (\<^verbatim>\<open>config.rs\<close>),
    \<open>Database\<close> (\<^verbatim>\<open>database.rs\<close>).
  \<^item> \<open>Api\<close> (\<^verbatim>\<open>api.rs\<close>, \<^verbatim>\<open>util.rs\<close>) with the requests, \<open>LogStream\<close> (\<^verbatim>\<open>api.rs\<close>) with the log stream.
  \<^item> \<open>App\<close> (\<^verbatim>\<open>app.rs\<close>, \<^verbatim>\<open>transaction.rs\<close>) with the shared application, \<open>AppHttp\<close> (\<^verbatim>\<open>app.rs\<close>) with its construction.
  \<^item> \<open>Nonce\<close> (\<^verbatim>\<open>bridge/nonce.rs\<close>); \<open>Relay\<close>, what the relays share; \<open>DepositRelay\<close>, \<open>WithdrawConfirm\<close> and
    \<open>WithdrawRelay\<close> (the files of these names in \<^verbatim>\<open>bridge/\<close>); \<open>Joins\<close>, the joined futures of the last.
  \<^item> \<open>Balance\<close> (\<^verbatim>\<open>bridge/balance.rs\<close>, \<^verbatim>\<open>bridge/chain_id.rs\<close>), \<open>GasPrice\<close> (\<^verbatim>\<open>bridge/gas_price.rs\<close>), \<open>Deploy\<close>
    (\<^verbatim>\<open>bridge/deploy.rs\<close>).
  \<^item> \<open>EventStream\<close> and \<open>Bridge\<close> (\<^verbatim>\<open>bridge/mod.rs\<close>), \<open>Cli\<close> (\<^verbatim>\<open>cli/src/main.rs\<close>).
  \<^item> \<open>ContractLib\<close>, \<open>HomeContract\<close>, \<open>ForeignContract\<close> (\<^verbatim>\<open>contracts/bridge.sol\<close>: the libraries and the two
    contracts), \<open>Tally\<close>, the counting of votes, \<open>Token\<close> (\<^verbatim>\<open>contracts/BridgeableToken.sol\<close>), \<open>TokenBridge\<close>,
    the foreign contract with that token, and \<open>EndToEnd\<close>, the program with the contracts.
  \<^item> \<open>Build\<close> (\<^verbatim>\<open>bridge/build.rs\<close>, \<^verbatim>\<open>cli/build.rs\<close>).
  \<^item> \<open>Examples\<close>, \<open>BridgeExamples\<close> and \<open>ContractExamples\<close>: the theorems applied in a concrete setting.
  \<^item> \<open>UnitTests\<close>: the tests of the repository replayed on the model.

  \<^bold>\<open>State and effects.\<close> State is passed explicitly. A \<open>chain\<close> is what the program can see of a node: the
  requests made so far on its connection and the shared nonce cell. A \<open>world\<close> has both chains, the
  two balance and gas price cells and the flag \<open>running\<close>; every operation takes the state it can reach
  and returns it changed. The program is single-threaded except for the signal handler, so between
  two polls only the environment acts, and all it does is clear the flag (\<open>flag_rely\<close>); for one
  component the environment is the other components, whose steps only add requests and move the cells
  (\<open>relay_rely\<close>, \<open>ls_rely\<close>, \<open>nc_rely\<close>, \<open>bc_rely\<close>). A contract is a record of its storage with the events it
  has emitted; a call gives the state after it, or \<open>None\<close> when it reverts, and a history (\<open>home_run\<close>,
  \<open>foreign_run\<close>) is a sequence of calls by anyone, with any other transactions in between.

  \<^bold>\<open>Parameters.\<close> A transport gives, for every request, the future of its reply, chosen from
  everything requested before on that connection: it may answer anything, late, with an error, or
  never. Further parameters are the generated contract bindings, key store, hashing, transaction
  encoding, TOML, JSON, the HTTP client of the gas price oracle, the order in which merged streams and
  unordered futures are polled, and the outcomes of file operations. Hashing and signature recovery of
  the chains are parameters too. What a theorem needs of them it
  states as hypotheses: that TOML reads back what it printed, that ids are printed in decimal, or that
  a node does not answer for ever that a nonce is stale (\<open>settles\<close>), that no two deposits of a history
  have the same hash, or that recovery gives the account whose key has signed (\<open>recovers\<close>).

  \<^bold>\<open>Interfaces\<close> are locales, interpreted on the definitions of the program. \<open>poll_body\<close> lifts an invariant of
  one loop iteration to a poll, \<open>poll_ranked\<close> gives that polls return from a rank of the states,
  \<open>stream_inv\<close> lifts what a poll keeps to runs with an interfering environment, \<open>tracked_future\<close> does
  so for the futures of an unordered batch, \<open>keyed_future\<close> for joined ones. \<open>transaction_sender\<close> is what
  a nonce check relies on in the way transactions are sent (met by the raw sender, the confirming
  sender and the sender of a deployment), \<open>fixed_codec\<close> is the contract of the two byte formats, and
  \<open>relay_machine\<close> is what the event stream relies on in a relay; the three relays meet it. \<open>erc20_token\<close> is
  what the foreign contract relies on in its token, met by the token of the repository.

  \<^bold>\<open>What is shown.\<close>
  \<^item> Relays: a block is reported only after consecutive, confirmed ranges up to it all of whose logs have
    been handled, where handled says which transaction, with which payload, a node has accepted.
  \<^item> Bridge: the same of the database, for all three relays at once, as an invariant and as a refinement
    of an abstract machine that advances one checkpoint at a time; checkpoints never go back, the file
    holds the current database, and every poll returns.
  \<^item> Program: however it ends, the file it leaves parses and claims only handled blocks; a stop request
    ends the bridge; exit codes are a table on the innermost error.
  \<^item> Contracts: a withdrawal is paid only with signatures of a quorum, once, and exactly; a deposit is paid
    exactly once, when a quorum has confirmed it; tokens add up to their supply.
  \<^item> Program and contracts: both sides read, hash and sign the same bytes; the transactions that the relays
    make are accepted; a deposit that enough validators relay reaches its recipient.
  \<^item> Log stream, nonce checks, balances, gas prices, deployment, byte formats and configuration: behaviour
    on every branch, errors and bounds included. Some theorems record behaviour that is probably not
    intended: a reacquired nonce is used twice, a save leaves the end of a longer file, an exit code
    cannot be reached, a deployment that is answered as already imported panics, and the foreign contract
    never reports collected signatures when it requires more than one.

  \<^bold>\<open>Loops.\<close> There is no fuel. The loop of a \<open>poll\<close> is a \<open>partial_function\<close> whose value is \<open>None\<close> when it does
  not end, and that polls end is proved for every state machine: without hypotheses where each cycle
  through the states has to wait for a reply or a tick, and otherwise from \<open>settles\<close>, since a nonce check
  goes round as often as the node answers that its nonce is stale. Running the program means polling
  for as long as its events last; it ends when the bridge fails or with the events.

  \<^bold>\<open>Arithmetic.\<close> Block numbers are 64-bit and balances 256-bit words; products that could wrap do so in the
  model, and the theorems about funds show that they do not. Gas prices go through binary64, whose
  rounding is written out over the rationals.

  \<^bold>\<open>Not modelled.\<close> Logging; the poisoning of locks, since a panic ends the only thread that uses them;
  sockets and TLS below the HTTP client; the gas of contract calls, beyond that a transfer of ether leaves
  its receiver none to call back with; the truffle project, whose contracts the program is not built with.
  The mock transport of the tests is not part of the program; \<open>UnitTests\<close> replays the unit tests, the
  scenarios of the log stream and those of the relays in which nothing is sent. The other scenarios of the
  relays expect \<open>eth_sendTransaction\<close>, which the program does not use any more.
\<close>

end
